theory Spec2Isabelle
  imports Complex_Main
begin

section \<open>The legend layout engine of SVGLegend\<close>

text \<open>
  A shallow embedding of the layout engine of \<^verbatim>\<open>SVGLegend\<close>
  (\<^verbatim>\<open>maq-visuals-chartutils/src/legend/svgLegend.ts\<close>). The functions
  \<^verbatim>\<open>normalizePosition\<close>, \<^verbatim>\<open>updateNavigationArrowLayout\<close>,
  \<^verbatim>\<open>changeOrientation\<close>, \<^verbatim>\<open>calculateViewport\<close>,
  \<^verbatim>\<open>drawLegend\<close>, the head of \<^verbatim>\<open>drawLegendInternal\<close> and the click handler of
  \<^verbatim>\<open>drawNavigationArrows\<close> have the same text in
  \<^verbatim>\<open>maq-visuals-legend-chartutils/src/legend/svgLegend.ts\<close>.

  Conventions of the embedding.
  \<^item> A JavaScript number is a \<^typ>\<open>real\<close>: arithmetic is exact, and NaN, the infinities and
    rounding are not represented. The pagination index is an \<^typ>\<open>int\<close>, counts are
    \<^typ>\<open>nat\<close>.
  \<^item> An optional property is an \<^typ>\<open>'a option\<close>, \<^term>\<open>None\<close> standing for
    \<^verbatim>\<open>undefined\<close>.
  \<^item> Reading a property of \<^verbatim>\<open>undefined\<close> throws; a function that can throw returns
    \<^verbatim>\<open>error + 'a\<close>, with \<^verbatim>\<open>Inl TypeError\<close> for the exception.
  \<^item> The fields of the class are the record \<^verbatim>\<open>SVGLegend\<close>; a method takes the record
    and returns the updated one. Objects the methods mutate in place (the data points, the
    title layout, the arrow list) are returned updated. The identity of the data objects,
    on which it depends what \<^verbatim>\<open>drawLegend\<close> leaves of its argument, is in the
    subsection on the store.
  \<^item> The scene graph (d3 selections, attributes and styles) is left out, except for the
    \<^verbatim>\<open>width\<close> and \<^verbatim>\<open>height\<close> attributes of the \<^verbatim>\<open>svg\<close> element, which
    \<^verbatim>\<open>calculateTitleLayout\<close> reads back.
  \<^item> Record fields have one name space in HOL: the fields \<^verbatim>\<open>x\<close>, \<^verbatim>\<open>y\<close>,
    \<^verbatim>\<open>text\<close>, \<^verbatim>\<open>width\<close>, \<^verbatim>\<open>height\<close> of \<^verbatim>\<open>TitleLayout\<close> are
    \<open>title_x\<close>, \<open>title_y\<close>, \<open>title_text\<close>, \<open>title_width\<close>, \<open>title_height\<close>; those of
    \<^verbatim>\<open>NavigationArrow\<close> are \<open>arrow_x\<close>, \<open>arrow_y\<close>; a position \<^verbatim>\<open>{x, y}\<close> is
    \<open>pos_x\<close>, \<open>pos_y\<close>; \<^verbatim>\<open>measure\<close> is \<open>measure'\<close>; the member \<^verbatim>\<open>None\<close> of
    \<^verbatim>\<open>LegendPosition\<close> is \<open>NonePosition\<close>.
\<close>

subsection \<open>Data model\<close>

datatype error = TypeError

definition andThen :: "error + 'a \<Rightarrow> ('a \<Rightarrow> error + 'b) \<Rightarrow> error + 'b" where
  "andThen r f = (case r of Inl e \<Rightarrow> Inl e | Inr v \<Rightarrow> f v)"

datatype LegendPosition =
  Top | Bottom | Right | Left | NonePosition | TopCenter | BottomCenter | RightCenter | LeftCenter

datatype MarkerShape = circle | square | longDash

datatype NavigationArrowType = Increase | Decrease

record Position =
  pos_x :: real
  pos_y :: real

record IViewport =
  height :: real
  width :: real

record LegendDataPoint =
  identity :: string
  label :: string
  color :: string
  markerShape :: "MarkerShape option"
  measure' :: "string option"
  secondaryMeasure :: "string option"
  tooltip :: "string option"
  glyphPosition :: "Position option"
  textPosition :: "Position option"

record LegendData =
  title :: "string option"
  dataPoints :: "LegendDataPoint list"
  fontSize :: "real option"
  primaryType :: string

record TitleLayout =
  title_x :: real
  title_y :: real
  title_text :: string
  title_width :: real
  title_height :: real

record NavigationArrow =
  arrow_x :: real
  arrow_y :: real
  path :: string
  rotateTransform :: string
  dataType :: NavigationArrowType

record LegendLayout =
  numberOfItems :: nat
  layoutTitle :: "TitleLayout option"
  navigationArrows :: "NavigationArrow list"

record TextProperties =
  text_value :: "string option"
  isTitleFont :: bool
  text_fontSize :: real

text \<open>
  The collaborators the class imports and the sources do not contain are parameters of the
  model: the text measurement service (\<^verbatim>\<open>measureSvgTextWidth\<close>,
  \<^verbatim>\<open>estimateSvgTextHeight\<close>, \<^verbatim>\<open>getTailoredTextOrDefault\<close>), the pixel converter
  (\<^verbatim>\<open>fromPointToPixel\<close>), the constant \<^verbatim>\<open>Markers.LegendIconLineTotalWidth\<close> and
  \<^verbatim>\<open>svgManipulation.createArrow\<close> (its result is the pair of \<^verbatim>\<open>path\<close> and
  \<^verbatim>\<open>transform\<close>).
\<close>

record Services =
  measureSvgTextWidth :: "TextProperties \<Rightarrow> real"
  estimateSvgTextHeight :: "TextProperties \<Rightarrow> real"
  getTailoredTextOrDefault :: "TextProperties \<Rightarrow> real \<Rightarrow> string"
  fromPointToPixel :: "real \<Rightarrow> real"
  LegendIconLineTotalWidth :: real
  createArrow :: "real \<Rightarrow> real \<Rightarrow> real \<Rightarrow> string \<times> string"

record SVGLegend =
  orientation :: LegendPosition
  viewport :: IViewport
  parentViewport :: IViewport
  legendDataStartIndex :: int
  arrowPosWindow :: nat
  data :: "LegendData option"
  isScrollable :: bool
  showPrimary :: bool
  lastCalculatedWidth :: real
  visibleLegendWidth :: real
  visibleLegendHeight :: real
  legendFontSizeMarginDifference :: real
  legendFontSizeMarginValue :: real
  svgWidth :: real
  svgHeight :: real

subsection \<open>Constants\<close>

definition DefaultFontSizeInPt :: real where "DefaultFontSizeInPt = 8"
definition LegendIconRadius :: real where "LegendIconRadius = 5"
definition MaxTextLength :: real where "MaxTextLength = 60"
definition MaxTitleLength :: real where "MaxTitleLength = 80"
definition TextAndIconPadding :: real where "TextAndIconPadding = 5"
definition TitlePadding :: real where "TitlePadding = 15"
definition LegendEdgeMariginWidth :: real where "LegendEdgeMariginWidth = 10"
definition LegendMaxWidthFactor :: real where "LegendMaxWidthFactor = 3 / 10"
definition TopLegendHeight :: real where "TopLegendHeight = 24"
definition LegendArrowOffset :: real where "LegendArrowOffset = 10"
definition LegendArrowHeight :: real where "LegendArrowHeight = 15"
definition LegendArrowWidth :: real where "LegendArrowWidth = 15 / 2"

definition DefaultTextMargin :: "Services \<Rightarrow> real" where
  "DefaultTextMargin env = fromPointToPixel env DefaultFontSizeInPt"

definition DefaultMaxLegendFactor :: "Services \<Rightarrow> real" where
  "DefaultMaxLegendFactor env = MaxTitleLength / DefaultTextMargin env"

subsection \<open>Orientation\<close>

fun isTopOrBottom :: "LegendPosition \<Rightarrow> bool" where
  "isTopOrBottom Top = True"
| "isTopOrBottom Bottom = True"
| "isTopOrBottom BottomCenter = True"
| "isTopOrBottom TopCenter = True"
| "isTopOrBottom _ = False"

fun isCentered :: "LegendPosition \<Rightarrow> bool" where
  "isCentered BottomCenter = True"
| "isCentered LeftCenter = True"
| "isCentered RightCenter = True"
| "isCentered TopCenter = True"
| "isCentered _ = False"

text \<open>
  Modelled from the spec: the declaration of the enum \<^verbatim>\<open>LegendPosition\<close>
  (\<^verbatim>\<open>legendInterfaces.ts\<close>) is not among the sources. \<^verbatim>\<open>changeOrientation\<close> tests its
  argument for truthiness and falls back to \<^verbatim>\<open>Top\<close> ("defaults to Top when unset"), and
  \<^verbatim>\<open>drawLegendInternal\<close> passes \<^verbatim>\<open>LegendPosition.None\<close> to it to hide the legend
  ("forces orientation to None"), so \<^verbatim>\<open>None\<close> is a truthy member. A numeric enum
  numbers its members from 0: the first member, \<^verbatim>\<open>Top\<close>, is the falsy one.
\<close>

fun truthyPosition :: "LegendPosition \<Rightarrow> bool" where
  "truthyPosition Top = False"
| "truthyPosition _ = True"

text \<open>The argument is \<^term>\<open>None\<close> when the caller passes \<^verbatim>\<open>undefined\<close>.\<close>

definition changeOrientation :: "LegendPosition option \<Rightarrow> SVGLegend \<Rightarrow> SVGLegend" where
  "changeOrientation arg s =
     (case arg of
        Some p \<Rightarrow> if truthyPosition p then s\<lparr>orientation := p\<rparr> else s\<lparr>orientation := Top\<rparr>
      | None \<Rightarrow> s\<lparr>orientation := Top\<rparr>)"

definition getOrientation :: "SVGLegend \<Rightarrow> LegendPosition" where
  "getOrientation s = orientation s"

definition isVisible :: "SVGLegend \<Rightarrow> bool" where
  "isVisible s = (orientation s \<noteq> NonePosition)"

definition getMargins :: "SVGLegend \<Rightarrow> IViewport" where
  "getMargins s = viewport s"

subsection \<open>Pagination state\<close>

text \<open>
  \<^verbatim>\<open>normalizePosition(points)\<close>: the two \<^verbatim>\<open>if\<close> statements run one after the other, the
  second on the value the first may have stored.
\<close>

definition normalizePosition :: "'a list \<Rightarrow> SVGLegend \<Rightarrow> SVGLegend" where
  "normalizePosition points s =
     (let s1 = (if legendDataStartIndex s \<ge> int (length points)
                then s\<lparr>legendDataStartIndex := int (length points) - 1\<rparr> else s)
      in if legendDataStartIndex s1 < 0 then s1\<lparr>legendDataStartIndex := 0\<rparr> else s1)"

text \<open>
  \<^verbatim>\<open>updateNavigationArrowLayout(navigationArrows, remainingDataLength, visibleDataLength)\<close>:
  \<^verbatim>\<open>shift()\<close> drops the first arrow (\<^term>\<open>tl\<close>, which leaves an empty list empty), and
  \<^verbatim>\<open>length = length - 1\<close> drops the last one (\<^term>\<open>butlast\<close>).
\<close>

definition updateNavigationArrowLayout ::
  "NavigationArrow list \<Rightarrow> nat \<Rightarrow> nat \<Rightarrow> SVGLegend \<Rightarrow> SVGLegend \<times> NavigationArrow list" where
  "updateNavigationArrowLayout arrows remainingDataLength visibleDataLength s =
     (let arrows1 = (if legendDataStartIndex s = 0 then tl arrows else arrows);
          lastWindow = arrowPosWindow s;
          s1 = s\<lparr>arrowPosWindow := visibleDataLength\<rparr>
      in if length arrows1 > 0 \<and> arrowPosWindow s1 = remainingDataLength
         then (s1\<lparr>arrowPosWindow := lastWindow\<rparr>, butlast arrows1)
         else (s1, arrows1))"

subsection \<open>Text properties and the text measurement service\<close>

text \<open>
  \<^verbatim>\<open>getTextProperties(isTitle, text, fontSize)\<close>: the font family is one of two constants,
  chosen by \<^verbatim>\<open>isTitle\<close>; \<^verbatim>\<open>fontSize || DefaultFontSizeInPt\<close> replaces an undefined
  or zero size. \<^verbatim>\<open>PixelConverter.fromPoint\<close> formats the size as a string; the model keeps
  the number.
\<close>

definition getTextProperties :: "bool \<Rightarrow> string option \<Rightarrow> real option \<Rightarrow> TextProperties" where
  "getTextProperties isTitle t fs =
     \<lparr>text_value = t, isTitleFont = isTitle,
      text_fontSize = (case fs of None \<Rightarrow> DefaultFontSizeInPt
                       | Some f \<Rightarrow> if f = 0 then DefaultFontSizeInPt else f)\<rparr>"

text \<open>
  \<^verbatim>\<open>textMeasurementService.getTailoredTextOrDefault(textProperties, maxWidth)\<close> reads
  \<^verbatim>\<open>textProperties.text.length\<close> first, so a text that is \<^verbatim>\<open>undefined\<close> throws.
\<close>

definition tailoredText :: "Services \<Rightarrow> TextProperties \<Rightarrow> real \<Rightarrow> error + string" where
  "tailoredText env props maxWidth =
     (case text_value props of
        None \<Rightarrow> Inl TypeError
      | Some _ \<Rightarrow> Inr (getTailoredTextOrDefault env props maxWidth))"

text \<open>
  \<^verbatim>\<open>this.data.fontSize\<close>, which throws while \<^verbatim>\<open>this.data\<close> is not set; the argument
  is the field \<open>data\<close> of the legend.
\<close>

definition thisDataFontSize :: "LegendData option \<Rightarrow> error + real option" where
  "thisDataFontSize thisData =
     (case thisData of None \<Rightarrow> Inl TypeError | Some d \<Rightarrow> Inr (fontSize d))"

text \<open>\<^verbatim>\<open>x | 0\<close>: truncation towards zero, then reduction to a signed 32-bit integer.\<close>

definition toInt32 :: "real \<Rightarrow> int" where
  "toInt32 x =
     (let t = (if x \<ge> 0 then \<lfloor>x\<rfloor> else \<lceil>x\<rceil>);
          m = t mod 4294967296
      in if m \<ge> 2147483648 then m - 4294967296 else m)"

subsection \<open>The legend's own viewport\<close>

text \<open>
  \<^verbatim>\<open>calculateViewport()\<close>. In the left and right cases \<^verbatim>\<open>this.data.fontSize\<close> is read
  without a guard. With a font size that is \<^verbatim>\<open>undefined\<close> the JavaScript sum is NaN; the
  model then keeps \<^verbatim>\<open>width\<close>, and \<^verbatim>\<open>calculateVerticalLayout\<close> overwrites the field
  before it is read.
\<close>

definition calculateViewport :: "Services \<Rightarrow> SVGLegend \<Rightarrow> error + SVGLegend" where
  "calculateViewport env s =
     (let topOrBottom =
            (let pixelHeight = fromPointToPixel env
                   (case data s of
                      None \<Rightarrow> DefaultFontSizeInPt
                    | Some d \<Rightarrow> (case fontSize d of
                                  None \<Rightarrow> DefaultFontSizeInPt
                                | Some f \<Rightarrow> if f = 0 then DefaultFontSizeInPt else f));
                 fontHeightSize = TopLegendHeight + (pixelHeight - DefaultFontSizeInPt)
             in Inr (s\<lparr>viewport := \<lparr>height = fontHeightSize, width = 0\<rparr>\<rparr>));
          leftOrRight =
            (let w = (if lastCalculatedWidth s \<noteq> 0 then lastCalculatedWidth s
                      else width (parentViewport s) * LegendMaxWidthFactor)
             in case data s of
                  None \<Rightarrow> Inl TypeError
                | Some d \<Rightarrow>
                    Inr (s\<lparr>viewport := \<lparr>height = 0,
                           width = (case fontSize d of Some f \<Rightarrow> w + f | None \<Rightarrow> w)\<rparr>\<rparr>))
      in case orientation s of
           Top \<Rightarrow> topOrBottom
         | Bottom \<Rightarrow> topOrBottom
         | TopCenter \<Rightarrow> topOrBottom
         | BottomCenter \<Rightarrow> topOrBottom
         | Right \<Rightarrow> leftOrRight
         | Left \<Rightarrow> leftOrRight
         | RightCenter \<Rightarrow> leftOrRight
         | LeftCenter \<Rightarrow> leftOrRight
         | NonePosition \<Rightarrow> Inr (s\<lparr>viewport := \<lparr>height = 0, width = 0\<rparr>\<rparr>))"

text \<open>
  \<^verbatim>\<open>updateLayout()\<close>: \<^verbatim>\<open>legendViewport\<close> is the object \<^verbatim>\<open>this.viewport\<close>, so the
  assignment to its height changes the legend's viewport. Of the attributes and styles set
  on the \<^verbatim>\<open>svg\<close> element the model keeps \<^verbatim>\<open>height\<close> and \<^verbatim>\<open>width\<close>.
\<close>

definition updateLayout :: "SVGLegend \<Rightarrow> SVGLegend" where
  "updateLayout s =
     (let s1 = (if data s \<noteq> None
                   \<and> (orientation s = Top \<or> orientation s = Bottom
                      \<or> orientation s = TopCenter \<or> orientation s = BottomCenter)
                   \<and> showPrimary s
                then s\<lparr>viewport := (viewport s)\<lparr>height :=
                         height (viewport s) + 3 * legendFontSizeMarginDifference s + 20\<rparr>\<rparr>
                else s);
          legendViewport = viewport s1
      in s1\<lparr>svgHeight := (if height legendViewport \<noteq> 0 then height legendViewport
                          else if orientation s1 = NonePosition then 0
                          else height (parentViewport s1)),
             svgWidth := (if width legendViewport \<noteq> 0 then width legendViewport
                         else if orientation s1 = NonePosition then 0
                         else width (parentViewport s1))\<rparr>)"

subsection \<open>Title layout\<close>

text \<open>
  \<^verbatim>\<open>calculateTitleLayout(title)\<close>. \<^verbatim>\<open>hasTitle = !!title\<close> is false for an undefined and
  for an empty title. \<^verbatim>\<open>parseFloat(this.svg.style("width"))\<close> is the field
  \<open>svgWidth\<close>. The title text handed to the text service is a defined string here.
\<close>

definition calculateTitleLayout ::
  "Services \<Rightarrow> SVGLegend \<Rightarrow> string option \<Rightarrow> error + TitleLayout option" where
  "calculateTitleLayout env s ttl =
     (case ttl of
        None \<Rightarrow> Inr None
      | Some t \<Rightarrow>
          if t = [] then Inr None
          else
            (let isHorizontal = isTopOrBottom (orientation s);
                 maxMeasureLength =
                   (if isHorizontal then
                      (let fontSizeMargin =
                             (if legendFontSizeMarginValue s > DefaultTextMargin env
                              then TextAndIconPadding + legendFontSizeMarginDifference s
                              else TextAndIconPadding);
                           fixedHorizontalIconShift = TextAndIconPadding + LegendIconRadius;
                           fixedHorizontalTextShift =
                             LegendIconRadius + fontSizeMargin + fixedHorizontalIconShift
                       in width (parentViewport s) * LegendMaxWidthFactor
                            - fixedHorizontalTextShift - LegendEdgeMariginWidth)
                    else
                      (if legendFontSizeMarginValue s < DefaultTextMargin env
                       then MaxTitleLength
                       else MaxTitleLength
                              + DefaultMaxLegendFactor env * legendFontSizeMarginDifference s))
             in andThen (thisDataFontSize (data s)) (\<lambda>fs.
                  let textProperties = getTextProperties True (Some t) fs;
                      titleWidth = measureSvgTextWidth env textProperties;
                      over = (titleWidth > maxMeasureLength);
                      text1 = (if over
                               then getTailoredTextOrDefault env textProperties maxMeasureLength
                               else t);
                      width1 = (if over then maxMeasureLength else titleWidth);
                      width2 = (if isHorizontal then width1 + TitlePadding else width1);
                      text2 = (if \<not> isHorizontal \<and> width1 < maxMeasureLength
                               then getTailoredTextOrDefault env textProperties (svgWidth s)
                               else text1)
                  in Inr (Some \<lparr>title_x = 0, title_y = 0, title_text = text2,
                                 title_width = width2,
                                 title_height = estimateSvgTextHeight env textProperties\<rparr>))))"

subsection \<open>Navigation arrows\<close>

definition calculateHorizontalNavigationArrowsLayout ::
  "Services \<Rightarrow> SVGLegend \<Rightarrow> TitleLayout option \<Rightarrow> NavigationArrow list" where
  "calculateHorizontalNavigationArrowsLayout env s ttl =
     (let h = LegendArrowHeight;
          w = LegendArrowWidth;
          translateY = height (viewport s) / 2 - h / 2;
          rightShift = (case ttl of Some lay \<Rightarrow> title_x lay + title_width lay | None \<Rightarrow> 0);
          arrowLeft = createArrow env w h 180;
          arrowRight = createArrow env w h 0
      in [\<lparr>arrow_x = rightShift, arrow_y = translateY, path = fst arrowLeft,
            rotateTransform = snd arrowLeft, dataType = Decrease\<rparr>,
          \<lparr>arrow_x = width (parentViewport s) - w, arrow_y = translateY, path = fst arrowRight,
            rotateTransform = snd arrowRight, dataType = Increase\<rparr>])"

definition calculateVerticalNavigationArrowsLayout ::
  "Services \<Rightarrow> SVGLegend \<Rightarrow> TitleLayout option \<Rightarrow> NavigationArrow list" where
  "calculateVerticalNavigationArrowsLayout env s ttl =
     (let h = LegendArrowHeight;
          w = LegendArrowWidth;
          verticalCenter = height (viewport s) / 2;
          rightShift = verticalCenter + h / 2;
          arrowTop = createArrow env w h 270;
          arrowBottom = createArrow env w h 90;
          titleHeight = (case ttl of Some lay \<Rightarrow> title_height lay | None \<Rightarrow> 0)
      in [\<lparr>arrow_x = rightShift, arrow_y = w + titleHeight, path = fst arrowTop,
            rotateTransform = snd arrowTop, dataType = Decrease\<rparr>,
          \<lparr>arrow_x = rightShift, arrow_y = height (parentViewport s) - h, path = fst arrowBottom,
            rotateTransform = snd arrowBottom, dataType = Increase\<rparr>])"

subsection \<open>Item layout\<close>

definition getMarkerShapeWidth :: "Services \<Rightarrow> MarkerShape option \<Rightarrow> real" where
  "getMarkerShapeWidth env shape =
     (case shape of
        Some longDash \<Rightarrow> LegendIconLineTotalWidth env
      | _ \<Rightarrow> LegendIconRadius * 2)"

text \<open>
  The width of an item, computed by the same statements in both layout loops: the widest of
  the label and, when the primary measure is shown, the two measures, plus 15 for the
  indicators. The text service measures whatever it is given, an undefined measure included.
\<close>

definition itemWidth :: "Services \<Rightarrow> bool \<Rightarrow> real option \<Rightarrow> LegendDataPoint \<Rightarrow> real" where
  "itemWidth env showP fs dp =
     (let labelwidth = measureSvgTextWidth env (getTextProperties False (Some (label dp)) fs);
          primaryWidth = (if showP
                          then measureSvgTextWidth env (getTextProperties False (measure' dp) fs)
                          else 0);
          secondaryWidth = (if showP
                            then measureSvgTextWidth env
                                   (getTextProperties False (secondaryMeasure dp) fs)
                            else 0);
          w = (if labelwidth > primaryWidth
               then (if labelwidth > secondaryWidth then labelwidth else secondaryWidth)
               else (if primaryWidth > secondaryWidth then primaryWidth else secondaryWidth))
      in w + 15)"

text \<open>The values \<^verbatim>\<open>calculateHorizontalLayout\<close> fixes before its loop.\<close>

record HorizontalMetrics =
  fixedTextShift :: real
  fixedIconShift :: real
  iconTotalItemPadding :: real
  maxTextLength :: real
  percentTextLength :: real

definition horizontalOccupiedStart :: "SVGLegend \<Rightarrow> TitleLayout option \<Rightarrow> real" where
  "horizontalOccupiedStart s ttl =
     (case ttl of Some lay \<Rightarrow> title_width lay | None \<Rightarrow> 0)
       + (if legendDataStartIndex s > 0 then LegendArrowOffset else 0)"

definition horizontalMetrics ::
  "Services \<Rightarrow> SVGLegend \<Rightarrow> LegendDataPoint list \<Rightarrow> TitleLayout option \<Rightarrow> HorizontalMetrics" where
  "horizontalMetrics env s pts ttl =
     (let HorizontalTextShift = 4;
          HorizontalIconShift = 11;
          fontSizeBiggerThanDefault = (legendFontSizeMarginDifference s > 0);
          fontSizeMargin = (if fontSizeBiggerThanDefault
                            then TextAndIconPadding + legendFontSizeMarginDifference s
                            else TextAndIconPadding);
          firstDataPointMarkerShape = (case pts of [] \<Rightarrow> None | p # _ \<Rightarrow> markerShape p);
          occupiedWidth = horizontalOccupiedStart s ttl;
          dataPointsLength = real (length pts);
          parentWidth = width (parentViewport s);
          itemPadding = getMarkerShapeWidth env firstDataPointMarkerShape + fontSizeMargin * 3;
          maxLength = (if length pts > 0
                       then real_of_int (toInt32
                              ((parentWidth - occupiedWidth - itemPadding * dataPointsLength)
                                 / dataPointsLength))
                       else 0);
          percentLength = (if length pts > 0
                           then real_of_int (toInt32
                                  ((parentWidth - occupiedWidth) / dataPointsLength))
                           else 0)
      in \<lparr>fixedTextShift =
            getMarkerShapeWidth env firstDataPointMarkerShape / 2 + fontSizeMargin
              + HorizontalTextShift,
          fixedIconShift =
            HorizontalIconShift
              + (if fontSizeBiggerThanDefault then legendFontSizeMarginDifference s else 0),
          iconTotalItemPadding = itemPadding,
          maxTextLength = (if maxLength > MaxTextLength then maxLength else MaxTextLength),
          percentTextLength =
            (if percentLength > MaxTextLength then percentLength else MaxTextLength)\<rparr>)"

text \<open>
  One pass of the loop body of \<^verbatim>\<open>calculateHorizontalLayout\<close>, up to the assignment of
  \<^verbatim>\<open>spaceTakenByItem\<close>: the updated data point and the space it takes. The loop reads
  three fields of the legend, which it does not change: \<^verbatim>\<open>this.data\<close> (\<open>thisData\<close>),
  \<^verbatim>\<open>this.showPrimary\<close> (\<open>showP\<close>) and \<^verbatim>\<open>this.parentViewport.width\<close>
  (\<open>parentWidth\<close>).
\<close>

definition horizontalItem ::
  "Services \<Rightarrow> LegendData option \<Rightarrow> bool \<Rightarrow> HorizontalMetrics \<Rightarrow> real \<Rightarrow> LegendDataPoint
     \<Rightarrow> error + (LegendDataPoint \<times> real)" where
  "horizontalItem env thisData showP m occupiedWidth dataPoint =
     (let markerShapeWidth = getMarkerShapeWidth env (markerShape dataPoint);
          dp1 = dataPoint
                  \<lparr>glyphPosition := Some \<lparr>pos_x = occupiedWidth + markerShapeWidth / 2,
                                           pos_y = fixedIconShift m\<rparr>,
                   textPosition := Some \<lparr>pos_x = occupiedWidth + fixedTextShift m,
                                          pos_y = fixedTextShift m\<rparr>\<rparr>
      in andThen (thisDataFontSize thisData) (\<lambda>fs.
           let textProperties = getTextProperties False (Some (label dataPoint)) fs;
               w = itemWidth env showP fs dataPoint
           in if w < maxTextLength m then Inr (dp1, iconTotalItemPadding m + w)
              else
                andThen (tailoredText env textProperties (maxTextLength m)) (\<lambda>t.
                  if showP then
                    andThen (tailoredText env (getTextProperties False (measure' dataPoint) fs)
                               (maxTextLength m)) (\<lambda>pm.
                    andThen (tailoredText env
                               (getTextProperties False (secondaryMeasure dataPoint) fs)
                               (percentTextLength m)) (\<lambda>sm.
                      Inr (dp1\<lparr>label := t, measure' := Some pm, secondaryMeasure := Some sm\<rparr>,
                           iconTotalItemPadding m + maxTextLength m)))
                  else Inr (dp1\<lparr>label := t\<rparr>, iconTotalItemPadding m + maxTextLength m))))"

text \<open>
  The loop of \<^verbatim>\<open>calculateHorizontalLayout\<close> from index \<open>itr\<close> on: the data points as
  the loop leaves them, the final \<^verbatim>\<open>occupiedWidth\<close>, and the index at which the loop
  broke off, if it did. The point that overflows is laid out before the test; the points
  after it are not visited.
\<close>

fun horizontalLoop ::
  "Services \<Rightarrow> LegendData option \<Rightarrow> bool \<Rightarrow> real \<Rightarrow> HorizontalMetrics \<Rightarrow> real \<Rightarrow> nat
     \<Rightarrow> LegendDataPoint list \<Rightarrow> error + (LegendDataPoint list \<times> real \<times> nat option)" where
  "horizontalLoop env thisData showP parentWidth m occupiedWidth itr [] =
     Inr ([], occupiedWidth, None)"
| "horizontalLoop env thisData showP parentWidth m occupiedWidth itr (dataPoint # rest) =
     andThen (horizontalItem env thisData showP m occupiedWidth dataPoint)
       (\<lambda>(dp', spaceTakenByItem).
          if occupiedWidth + spaceTakenByItem > parentWidth
          then Inr (dp' # rest, occupiedWidth + spaceTakenByItem, Some itr)
          else andThen (horizontalLoop env thisData showP parentWidth m
                          (occupiedWidth + spaceTakenByItem) (Suc itr) rest)
                 (\<lambda>(rest', occupied, broke). Inr (dp' # rest', occupied, broke)))"

text \<open>
  \<^verbatim>\<open>calculateHorizontalLayout(dataPoints, title, navigationArrows)\<close>. The read
  \<^verbatim>\<open>dataPoints[0]["measure"].length\<close> throws when the list is empty or the first
  measure is undefined. The result holds the updated legend, data points, title and arrow
  list, and the number of items.
\<close>

definition calculateHorizontalLayout ::
  "Services \<Rightarrow> SVGLegend \<Rightarrow> LegendDataPoint list \<Rightarrow> TitleLayout option \<Rightarrow> NavigationArrow list
     \<Rightarrow> error + (SVGLegend \<times> LegendDataPoint list \<times> TitleLayout option
                  \<times> NavigationArrow list \<times> nat)" where
  "calculateHorizontalLayout env s pts ttl arrows =
     (if showPrimary s \<and> (case pts of [] \<Rightarrow> True | p # _ \<Rightarrow> measure' p = None)
      then Inl TypeError
      else
        (let m = horizontalMetrics env s pts ttl;
             ttl1 = map_option (\<lambda>lay. lay\<lparr>title_y := fixedTextShift m\<rparr>) ttl
         in andThen (horizontalLoop env (data s) (showPrimary s) (width (parentViewport s)) m
                       (horizontalOccupiedStart s ttl) 0 pts)
              (\<lambda>(pts', occupiedWidth, broke).
                 let n = (case broke of None \<Rightarrow> length pts | Some itr \<Rightarrow> itr);
                     s1 = s\<lparr>visibleLegendWidth := occupiedWidth\<rparr>;
                     (s2, arrows') = updateNavigationArrowLayout arrows (length pts) n s1
                 in Inr (s2, pts', ttl1, arrows', n))))"

text \<open>The values \<^verbatim>\<open>calculateVerticalLayout\<close> fixes before its loop.\<close>

record VerticalMetrics =
  fontFactor :: real
  verticalLegendHeight :: real
  spaceNeededByTitle :: real
  extraShiftForTextAlignmentToIcon :: real
  fixedHorizontalIconShift :: real
  fixedHorizontalTextShift :: real
  maxHorizontalSpaceAvaliable :: real

definition verticalMetrics ::
  "Services \<Rightarrow> SVGLegend \<Rightarrow> LegendDataPoint list \<Rightarrow> bool \<Rightarrow> VerticalMetrics" where
  "verticalMetrics env s pts autoWidth =
     (let fontSizeBiggerThenDefault = (legendFontSizeMarginDifference s > 0);
          factor = (if fontSizeBiggerThenDefault then legendFontSizeMarginDifference s else 0);
          firstDataPointMarkerShape = (case pts of [] \<Rightarrow> None | p # _ \<Rightarrow> markerShape p);
          iconShift = TextAndIconPadding + getMarkerShapeWidth env firstDataPointMarkerShape / 2;
          textShift = iconShift * 2
      in \<lparr>fontFactor = factor,
          verticalLegendHeight = 20 + factor,
          spaceNeededByTitle = 15 + factor * (13 / 10),
          extraShiftForTextAlignmentToIcon = 4 + factor * (13 / 10),
          fixedHorizontalIconShift = iconShift,
          fixedHorizontalTextShift = textShift,
          maxHorizontalSpaceAvaliable =
            (if autoWidth
             then width (parentViewport s) * LegendMaxWidthFactor - textShift
                    - LegendEdgeMariginWidth
             else lastCalculatedWidth s - textShift - LegendEdgeMariginWidth)\<rparr>)"

definition verticalOccupiedStart :: "SVGLegend \<Rightarrow> VerticalMetrics \<Rightarrow> TitleLayout option \<Rightarrow> real" where
  "verticalOccupiedStart s m ttl =
     (case ttl of Some _ \<Rightarrow> spaceNeededByTitle m + spaceNeededByTitle m
               | None \<Rightarrow> spaceNeededByTitle m)
       + (if legendDataStartIndex s > 0 then LegendArrowOffset else 0)"

text \<open>
  One pass of the loop body of \<^verbatim>\<open>calculateVerticalLayout\<close>, up to the addition of
  \<^verbatim>\<open>verticalLegendHeight\<close>: the updated data point, \<^verbatim>\<open>totalSpaceOccupiedThusFar\<close>
  and \<^verbatim>\<open>maxHorizontalSpaceUsed\<close>. The loop reads four fields of the legend, which it does
  not change: \<^verbatim>\<open>this.data\<close> (\<open>thisData\<close>), \<^verbatim>\<open>this.showPrimary\<close> (\<open>showP\<close>),
  \<^verbatim>\<open>this.legendFontSizeMarginDifference\<close> (\<open>marginDifference\<close>) and
  \<^verbatim>\<open>this.parentViewport.height\<close> (\<open>parentHeight\<close>).
\<close>

definition verticalItem ::
  "Services \<Rightarrow> LegendData option \<Rightarrow> bool \<Rightarrow> real \<Rightarrow> VerticalMetrics \<Rightarrow> real \<Rightarrow> real
     \<Rightarrow> LegendDataPoint \<Rightarrow> error + (LegendDataPoint \<times> real \<times> real)" where
  "verticalItem env thisData showP marginDifference m totalSpaceOccupiedThusFar
       maxHorizontalSpaceUsed dp =
     andThen (thisDataFontSize thisData) (\<lambda>fs.
       let textProperties = getTextProperties False (Some (label dp)) fs;
           dp1 = dp\<lparr>glyphPosition := Some \<lparr>pos_x = fixedHorizontalIconShift m,
                                            pos_y = totalSpaceOccupiedThusFar + fontFactor m\<rparr>,
                    textPosition := Some \<lparr>pos_x = fixedHorizontalTextShift m,
                                           pos_y = totalSpaceOccupiedThusFar
                                                     + extraShiftForTextAlignmentToIcon m\<rparr>\<rparr>;
           total1 = (if showP
                     then totalSpaceOccupiedThusFar
                            + (20 + marginDifference / 2) * 2
                     else totalSpaceOccupiedThusFar);
           w = itemWidth env showP fs dp;
           used1 = (if w > maxHorizontalSpaceUsed then w else maxHorizontalSpaceUsed)
       in andThen
            (if w > maxHorizontalSpaceAvaliable m then
               andThen (tailoredText env textProperties (maxHorizontalSpaceAvaliable m)) (\<lambda>t.
                 if showP then
                   andThen (tailoredText env (getTextProperties False (measure' dp) fs)
                              (maxHorizontalSpaceAvaliable m - 18)) (\<lambda>pm.
                   andThen (tailoredText env (getTextProperties False (secondaryMeasure dp) fs)
                              (maxHorizontalSpaceAvaliable m - 18)) (\<lambda>sm.
                     Inr (dp1\<lparr>label := t, measure' := Some pm, secondaryMeasure := Some sm\<rparr>)))
                 else Inr (dp1\<lparr>label := t\<rparr>))
             else Inr dp1)
            (\<lambda>dp2. Inr (dp2, total1 + verticalLegendHeight m, used1)))"

text \<open>
  The loop of \<^verbatim>\<open>calculateVerticalLayout\<close> from index \<open>itr\<close> on: the data points,
  the final \<^verbatim>\<open>totalSpaceOccupiedThusFar\<close> and \<^verbatim>\<open>maxHorizontalSpaceUsed\<close>, and the
  index at which the loop broke off, if it did.
\<close>

fun verticalLoop ::
  "Services \<Rightarrow> LegendData option \<Rightarrow> bool \<Rightarrow> real \<Rightarrow> real \<Rightarrow> VerticalMetrics \<Rightarrow> real \<Rightarrow> real
     \<Rightarrow> nat \<Rightarrow> LegendDataPoint list
     \<Rightarrow> error + (LegendDataPoint list \<times> real \<times> real \<times> nat option)" where
  "verticalLoop env thisData showP marginDifference parentHeight m thusFar spaceUsed itr [] =
     Inr ([], thusFar, spaceUsed, None)"
| "verticalLoop env thisData showP marginDifference parentHeight m thusFar spaceUsed itr
       (dp # rest) =
     andThen (verticalItem env thisData showP marginDifference m thusFar spaceUsed dp)
       (\<lambda>(dp', thusFar', spaceUsed').
          if thusFar' > parentHeight
          then Inr (dp' # rest, thusFar', spaceUsed', Some itr)
          else andThen (verticalLoop env thisData showP marginDifference parentHeight m
                          thusFar' spaceUsed' (Suc itr) rest)
                 (\<lambda>(rest', thusFar'', spaceUsed'', broke).
                    Inr (dp' # rest', thusFar'', spaceUsed'', broke)))"

text \<open>
  The block \<^verbatim>\<open>if (autoWidth) { ... } else { ... }\<close> of \<^verbatim>\<open>calculateVerticalLayout\<close>,
  which fixes the width of the legend after the loop.
\<close>

definition resolveLegendWidth :: "SVGLegend \<Rightarrow> VerticalMetrics \<Rightarrow> bool \<Rightarrow> real \<Rightarrow> SVGLegend" where
  "resolveLegendWidth s m autoWidth maxHorizontalSpaceUsed =
     (if autoWidth then
        (let w = (if maxHorizontalSpaceUsed < maxHorizontalSpaceAvaliable m
                  then real_of_int \<lceil>maxHorizontalSpaceUsed + fixedHorizontalTextShift m
                                      + LegendEdgeMariginWidth\<rceil>
                  else real_of_int \<lceil>width (parentViewport s) * LegendMaxWidthFactor\<rceil>)
         in s\<lparr>lastCalculatedWidth := w, viewport := (viewport s)\<lparr>width := w\<rparr>\<rparr>)
      else s\<lparr>viewport := (viewport s)\<lparr>width := lastCalculatedWidth s\<rparr>\<rparr>)"

text \<open>
  \<^verbatim>\<open>calculateVerticalLayout(dataPoints, title, navigationArrows, autoWidth)\<close>.
  \<^verbatim>\<open>title.width || 0\<close> is the width itself for a number.
\<close>

definition calculateVerticalLayout ::
  "Services \<Rightarrow> SVGLegend \<Rightarrow> LegendDataPoint list \<Rightarrow> TitleLayout option \<Rightarrow> NavigationArrow list
     \<Rightarrow> bool
     \<Rightarrow> error + (SVGLegend \<times> LegendDataPoint list \<times> TitleLayout option
                  \<times> NavigationArrow list \<times> nat)" where
  "calculateVerticalLayout env s pts ttl arrows autoWidth =
     (let m = verticalMetrics env s pts autoWidth;
          ttl1 = map_option
                   (\<lambda>lay. lay\<lparr>title_x := TextAndIconPadding, title_y := spaceNeededByTitle m\<rparr>) ttl;
          used0 = (case ttl of Some lay \<Rightarrow> title_width lay | None \<Rightarrow> 0)
      in andThen (verticalLoop env (data s) (showPrimary s) (legendFontSizeMarginDifference s)
                    (height (parentViewport s)) m (verticalOccupiedStart s m ttl) used0 0 pts)
           (\<lambda>(pts', thusFar, spaceUsed, broke).
              let n = (case broke of None \<Rightarrow> length pts | Some itr \<Rightarrow> itr);
                  s1 = resolveLegendWidth s m autoWidth spaceUsed;
                  s2 = s1\<lparr>visibleLegendHeight := thusFar - verticalLegendHeight m\<rparr>
              in andThen
                   (case ttl1 of
                      None \<Rightarrow> Inr None
                    | Some lay \<Rightarrow>
                        (case data s2 of
                           None \<Rightarrow> Inl TypeError
                         | Some d \<Rightarrow>
                             andThen (tailoredText env
                                        (getTextProperties True (title d) (fontSize d))
                                        (width (viewport s2)))
                               (\<lambda>t. Inr (Some (lay\<lparr>title_text := t\<rparr>)))))
                   (\<lambda>ttl2.
                      let arrows1 = map (\<lambda>a. a\<lparr>arrow_x := lastCalculatedWidth s2 / 2\<rparr>) arrows;
                          (s3, arrows2) = updateNavigationArrowLayout arrows1 (length pts) n s2
                      in Inr (s3, pts', ttl2, arrows2, n))))"

subsection \<open>The layout pass\<close>

text \<open>
  The statements of \<^verbatim>\<open>calculateLayout\<close> that follow the test for an empty list: the two
  font size margins are set, from \<^verbatim>\<open>this.data.fontSize\<close> or the default size, and the
  start index is normalised.
\<close>

definition prepareLayout :: "Services \<Rightarrow> SVGLegend \<Rightarrow> LegendDataPoint list \<Rightarrow> SVGLegend" where
  "prepareLayout env s pts =
     (let s1 = s\<lparr>legendFontSizeMarginValue := fromPointToPixel env
                   (case data s of
                      None \<Rightarrow> DefaultFontSizeInPt
                    | Some td \<Rightarrow> (case fontSize td of
                                   None \<Rightarrow> DefaultFontSizeInPt
                                 | Some f \<Rightarrow> f))\<rparr>;
          s2 = s1\<lparr>legendFontSizeMarginDifference :=
                    legendFontSizeMarginValue s1 - DefaultTextMargin env\<rparr>
      in normalizePosition pts s2)"

text \<open>
  \<^verbatim>\<open>calculateLayout(data, autoWidth)\<close>. After \<^verbatim>\<open>normalizePosition\<close> on a list that
  is not empty the start index is a valid index, and \<^verbatim>\<open>slice\<close> returns the points from
  it on: a new array of the same objects, so what the layout writes to them shows in
  \<^verbatim>\<open>data.dataPoints\<close>. The result holds the updated legend, the data with its points as
  the layout leaves them, and the \<^verbatim>\<open>LegendLayout\<close>.
\<close>

definition calculateLayout ::
  "Services \<Rightarrow> SVGLegend \<Rightarrow> LegendData \<Rightarrow> bool \<Rightarrow> error + (SVGLegend \<times> LegendData \<times> LegendLayout)" where
  "calculateLayout env s d autoWidth =
     (if length (dataPoints d) = 0
      then Inr (s, d, \<lparr>numberOfItems = 0, layoutTitle = None, navigationArrows = []\<rparr>)
      else
        (let s3 = prepareLayout env s (dataPoints d);
             sliced = (legendDataStartIndex s3 < int (length (dataPoints d)));
             start = nat (legendDataStartIndex s3);
             pts = (if sliced then drop start (dataPoints d) else dataPoints d)
         in andThen (calculateTitleLayout env s3 (title d)) (\<lambda>ttl.
              andThen
                (if isTopOrBottom (orientation s3)
                 then calculateHorizontalLayout env s3 pts ttl
                        (if isScrollable s3
                         then calculateHorizontalNavigationArrowsLayout env s3 ttl else [])
                 else calculateVerticalLayout env s3 pts ttl
                        (if isScrollable s3
                         then calculateVerticalNavigationArrowsLayout env s3 ttl else [])
                        autoWidth)
                (\<lambda>(s4, pts', ttl', arrows, n).
                   Inr (s4,
                        d\<lparr>dataPoints := (if sliced then take start (dataPoints d) @ pts'
                                         else pts')\<rparr>,
                        \<lparr>numberOfItems = n, layoutTitle = ttl', navigationArrows = arrows\<rparr>)))))"

subsection \<open>Drawing\<close>

text \<open>
  \<^verbatim>\<open>drawLegendInternal(data, viewport, autoWidth)\<close>, without the scene graph and the
  interactivity service. \<^verbatim>\<open>this.data\<close> and \<^verbatim>\<open>data\<close> are one object: the field follows
  every change of the data. The result is the legend and the layout that is painted.
\<close>

definition drawLegendInternal ::
  "Services \<Rightarrow> SVGLegend \<Rightarrow> LegendData \<Rightarrow> IViewport \<Rightarrow> bool \<Rightarrow> error + (SVGLegend \<times> LegendLayout)" where
  "drawLegendInternal env s d vp autoWidth =
     (let s1 = s\<lparr>parentViewport := vp, data := Some d\<rparr>;
          s2 = (if length (dataPoints d) = 0 then changeOrientation (Some NonePosition) s1 else s1);
          d1 = (if getOrientation s2 = NonePosition then d\<lparr>dataPoints := []\<rparr> else d);
          s3 = s2\<lparr>data := Some d1\<rparr>;
          s4 = (if primaryType d1 = ''None'' then s3\<lparr>showPrimary := False\<rparr>
                else s3\<lparr>showPrimary := True\<rparr>)
      in andThen (calculateViewport env s4) (\<lambda>s5.
           andThen (calculateLayout env s5 d1 autoWidth) (\<lambda>(s6, d2, layout).
             Inr (updateLayout (s6\<lparr>data := Some d2\<rparr>), layout))))"

definition setTooltipToLegendItems :: "LegendData \<Rightarrow> LegendData" where
  "setTooltipToLegendItems d =
     d\<lparr>dataPoints := map (\<lambda>dataPoint. dataPoint\<lparr>tooltip := Some (label dataPoint)\<rparr>) (dataPoints d)\<rparr>"

text \<open>
  \<^verbatim>\<open>drawLegend(data, viewport)\<close> on values: the clones made by \<^verbatim>\<open>Prototype.inherit\<close>
  show the property values of their originals, so the clone of a value is the value. The
  objects and their identities are modelled in the section on the store.
\<close>

definition drawLegend ::
  "Services \<Rightarrow> SVGLegend \<Rightarrow> LegendData \<Rightarrow> IViewport \<Rightarrow> error + (SVGLegend \<times> LegendLayout)" where
  "drawLegend env s d vp = drawLegendInternal env s (setTooltipToLegendItems d) vp True"

text \<open>
  The click handler that \<^verbatim>\<open>drawNavigationArrows\<close> attaches to an arrow of type
  \<open>ty\<close>.
\<close>

definition arrowClick ::
  "Services \<Rightarrow> NavigationArrowType \<Rightarrow> SVGLegend \<Rightarrow> error + (SVGLegend \<times> LegendLayout)" where
  "arrowClick env ty s =
     (let pos = legendDataStartIndex s;
          s1 = s\<lparr>legendDataStartIndex :=
                  (if ty = Increase then pos + int (arrowPosWindow s)
                   else pos - int (arrowPosWindow s))\<rparr>
      in case data s1 of
           None \<Rightarrow> Inl TypeError
         | Some d \<Rightarrow> drawLegendInternal env s1 d (parentViewport s1) False)"

text \<open>
  The constructor, with the field initialisers of the class. \<^verbatim>\<open>orientation\<close> and
  \<^verbatim>\<open>viewport\<close> have no initialiser: \<^verbatim>\<open>changeOrientation\<close> and \<^verbatim>\<open>calculateViewport\<close>
  set them before they are read.
\<close>

definition newSVGLegend :: "Services \<Rightarrow> LegendPosition option \<Rightarrow> bool \<Rightarrow> error + SVGLegend" where
  "newSVGLegend env legendPosition scrollable =
     (let s0 = \<lparr>orientation = Top, viewport = \<lparr>height = 0, width = 0\<rparr>,
                parentViewport = \<lparr>height = 0, width = 0\<rparr>,
                legendDataStartIndex = 0, arrowPosWindow = 1, data = None,
                isScrollable = scrollable, showPrimary = False,
                lastCalculatedWidth = 0, visibleLegendWidth = 0, visibleLegendHeight = 0,
                legendFontSizeMarginDifference = 0, legendFontSizeMarginValue = 0,
                svgWidth = 0, svgHeight = 0\<rparr>;
          s1 = changeOrientation legendPosition s0;
          s2 = s1\<lparr>parentViewport := \<lparr>height = 0, width = 0\<rparr>\<rparr>
      in andThen (calculateViewport env s2) (\<lambda>s3. Inr (updateLayout s3)))"

subsection \<open>A text service to run the model on\<close>

text \<open>
  A fixed-pitch text service for the concrete runs below: every character is 10 pixels
  wide, an undefined text has width 0, and a text that does not fit below
  \<open>maxWidth\<close> keeps the characters that fit together with an ellipsis of three dots.
  A point is 4/3 of a pixel and the line icon is 31 pixels wide.
\<close>

definition fixedPitch :: Services where
  "fixedPitch =
     \<lparr>measureSvgTextWidth =
        (\<lambda>props. case text_value props of None \<Rightarrow> 0 | Some t \<Rightarrow> 10 * real (length t)),
      estimateSvgTextHeight = (\<lambda>props. text_fontSize props * 4 / 3),
      getTailoredTextOrDefault =
        (\<lambda>props maxWidth.
           case text_value props of
             None \<Rightarrow> []
           | Some t \<Rightarrow>
               if t = [] \<or> 10 * real (length t) < maxWidth then t
               else take (nat \<lfloor>maxWidth / 10\<rfloor> - 3) t @ ''...''),
      fromPointToPixel = (\<lambda>pt. pt * 4 / 3),
      LegendIconLineTotalWidth = 31,
      createArrow = (\<lambda>w h angle. (''arrow'', ''rotate''))\<rparr>"

definition plainPoint :: "string \<Rightarrow> LegendDataPoint" where
  "plainPoint l =
     \<lparr>identity = l, label = l, color = ''#000'', markerShape = Some circle,
      measure' = None, secondaryMeasure = None, tooltip = None,
      glyphPosition = None, textPosition = None\<rparr>"

definition plainData :: "string list \<Rightarrow> LegendData" where
  "plainData ls =
     \<lparr>title = None, dataPoints = map plainPoint ls, fontSize = Some 8, primaryType = ''None''\<rparr>"

text \<open>
  Modelled from the spec: the text service is not among the sources. The spec gives it the
  operation \<^verbatim>\<open>truncateToWidth(text, fontSpec, maxPixels)\<close>, which "truncates a string
  with ellipsis to fit a target width". The two halves of that contract, for the item font
  at font size \<open>fs\<close> and the target width \<open>w\<close>: the result measures at most \<open>w\<close>,
  and a text that fits is returned as it is.
\<close>

definition truncatesToWidth :: "Services \<Rightarrow> real option \<Rightarrow> real \<Rightarrow> bool" where
  "truncatesToWidth env fs w =
     (\<forall>t. measureSvgTextWidth env
             (getTextProperties False
                (Some (getTailoredTextOrDefault env (getTextProperties False (Some t) fs) w)) fs)
           \<le> w)"

definition keepsFittingText :: "Services \<Rightarrow> real option \<Rightarrow> real \<Rightarrow> bool" where
  "keepsFittingText env fs w =
     (\<forall>t. measureSvgTextWidth env (getTextProperties False (Some t) fs) \<le> w \<longrightarrow>
          getTailoredTextOrDefault env (getTextProperties False (Some t) fs) w = t)"

text \<open>Data points with a primary and a secondary measure, and data that shows them.\<close>

definition measuredPoint :: "string \<Rightarrow> string \<Rightarrow> string \<Rightarrow> LegendDataPoint" where
  "measuredPoint l pm sm = (plainPoint l)\<lparr>measure' := Some pm, secondaryMeasure := Some sm\<rparr>"

definition measuredData :: LegendData where
  "measuredData =
     \<lparr>title = Some ''Sales'',
      dataPoints = [measuredPoint ''north'' ''120'' ''12%'', measuredPoint ''south'' ''80'' ''8%''],
      fontSize = Some 8, primaryType = ''Value''\<rparr>"

text \<open>
  The legend that \<^verbatim>\<open>new SVGLegend(element, LegendPosition.Top, service, true)\<close> builds
  with this text service (lemma \<open>newSVGLegend_topLegend\<close>), and the layout of a legend
  with nothing to show.
\<close>

definition topLegend :: SVGLegend where
  "topLegend =
     \<lparr>orientation = Top, viewport = \<lparr>height = 80 / 3, width = 0\<rparr>,
      parentViewport = \<lparr>height = 0, width = 0\<rparr>, legendDataStartIndex = 0,
      arrowPosWindow = 1, data = None, isScrollable = True, showPrimary = False,
      lastCalculatedWidth = 0, visibleLegendWidth = 0, visibleLegendHeight = 0,
      legendFontSizeMarginDifference = 0, legendFontSizeMarginValue = 0,
      svgWidth = 0, svgHeight = 80 / 3\<rparr>"

definition emptyLayout :: LegendLayout where
  "emptyLayout = \<lparr>numberOfItems = 0, layoutTitle = None, navigationArrows = []\<rparr>"

subsection \<open>The store\<close>

text \<open>
  \<^verbatim>\<open>drawLegend\<close> with the objects it works on. The store holds the \<^verbatim>\<open>LegendData\<close>
  objects and the \<^verbatim>\<open>LegendDataPoint\<close> objects; a reference is the index of an object
  among those of its kind, and a new object is appended, so that its reference is new. A
  \<^verbatim>\<open>LegendData\<close> object holds its array of data points as the list of their references.
  JavaScript has no reference to an object that does not exist; the model answers such a
  reference with an error.
\<close>

type_synonym ref = nat

record DataObject =
  objTitle :: "string option"
  objDataPoints :: "ref list"
  objFontSize :: "real option"
  objPrimaryType :: string

record Store =
  dataObjects :: "DataObject list"
  pointObjects :: "LegendDataPoint list"

definition deref :: "'a list \<Rightarrow> ref \<Rightarrow> error + 'a" where
  "deref cells r = (if r < length cells then Inr (cells ! r) else Inl TypeError)"

fun derefAll :: "'a list \<Rightarrow> ref list \<Rightarrow> error + 'a list" where
  "derefAll cells [] = Inr []"
| "derefAll cells (r # rs) =
     andThen (deref cells r) (\<lambda>x. andThen (derefAll cells rs) (\<lambda>xs. Inr (x # xs)))"

text \<open>The \<^verbatim>\<open>LegendData\<close> value that the object \<open>r\<close> and its data points show.\<close>

definition readData :: "Store \<Rightarrow> ref \<Rightarrow> error + LegendData" where
  "readData h r =
     andThen (deref (dataObjects h) r) (\<lambda>obj.
       andThen (derefAll (pointObjects h) (objDataPoints obj)) (\<lambda>pts.
         Inr \<lparr>title = objTitle obj, dataPoints = pts, fontSize = objFontSize obj,
              primaryType = objPrimaryType obj\<rparr>))"

text \<open>
  \<^verbatim>\<open>Prototype.inherit(obj)\<close> of \<^verbatim>\<open>powerbi-visuals-utils-typeutils\<close> returns a new object
  whose prototype is \<^verbatim>\<open>obj\<close>. The new object has no property of its own and shows the
  values of \<^verbatim>\<open>obj\<close>: in the store it is a new cell with the content of \<^verbatim>\<open>obj\<close>. An
  assignment to a property of the new object makes the property its own and leaves
  \<^verbatim>\<open>obj\<close> as it is: it is an update of the new cell.
\<close>

definition inherit :: "'a list \<Rightarrow> ref \<Rightarrow> error + ('a list \<times> ref)" where
  "inherit cells r = andThen (deref cells r) (\<lambda>obj. Inr (cells @ [obj], length cells))"

text \<open>
  The loop \<^verbatim>\<open>for (let dp of data.dataPoints) newDataPoints.push(Prototype.inherit(dp))\<close>:
  the store with the clones, and \<^verbatim>\<open>newDataPoints\<close>.
\<close>

fun inheritDataPoints ::
  "LegendDataPoint list \<Rightarrow> ref list \<Rightarrow> error + (LegendDataPoint list \<times> ref list)" where
  "inheritDataPoints cells [] = Inr (cells, [])"
| "inheritDataPoints cells (dp # rest) =
     andThen (inherit cells dp) (\<lambda>(cells1, clone).
       andThen (inheritDataPoints cells1 rest) (\<lambda>(cells2, newDataPoints).
         Inr (cells2, clone # newDataPoints)))"

text \<open>
  \<^verbatim>\<open>setTooltipToLegendItems(data)\<close> on the objects: the loop over the data points of
  \<open>r\<close> assigns \<^verbatim>\<open>dataPoint.tooltip = dataPoint.label\<close>.
\<close>

fun setTooltips :: "LegendDataPoint list \<Rightarrow> ref list \<Rightarrow> error + LegendDataPoint list" where
  "setTooltips cells [] = Inr cells"
| "setTooltips cells (r # rs) =
     andThen (deref cells r) (\<lambda>dataPoint.
       setTooltips (cells[r := dataPoint\<lparr>tooltip := Some (label dataPoint)\<rparr>]) rs)"

definition setTooltipToLegendItems_store :: "Store \<Rightarrow> ref \<Rightarrow> error + Store" where
  "setTooltipToLegendItems_store h r =
     andThen (deref (dataObjects h) r) (\<lambda>obj.
       andThen (setTooltips (pointObjects h) (objDataPoints obj)) (\<lambda>cells.
         Inr (h\<lparr>pointObjects := cells\<rparr>)))"

text \<open>The values \<open>xs\<close> written to the objects \<open>rs\<close>, one after the other.\<close>

fun writeAll :: "'a list \<Rightarrow> ref list \<Rightarrow> 'a list \<Rightarrow> 'a list" where
  "writeAll cells (r # rs) (x # xs) = writeAll (cells[r := x]) rs xs"
| "writeAll cells _ _ = cells"

text \<open>
  \<^verbatim>\<open>drawLegendInternal(data, viewport, autoWidth)\<close> on the objects. Every assignment of the
  method and of the layout it calls that changes the data is an assignment to a property of
  the object \<^verbatim>\<open>data\<close> it is given (\<^verbatim>\<open>data.dataPoints = []\<close> for a hidden legend) or
  of an element of \<^verbatim>\<open>data.dataPoints\<close> (label, measures, glyph and text position, in the
  layout loops; \<^verbatim>\<open>slice\<close> copies the array, not its elements). So the data that the
  method leaves in \<^verbatim>\<open>this.data\<close> is written to the object \<open>r\<close> and to its data
  points, which are distinct objects when \<^verbatim>\<open>drawLegend\<close> calls the method. \<^verbatim>\<open>this.data\<close>
  is the object \<open>r\<close> afterwards.
\<close>

definition drawLegendInternal_store ::
  "Services \<Rightarrow> SVGLegend \<Rightarrow> Store \<Rightarrow> ref \<Rightarrow> IViewport \<Rightarrow> bool
     \<Rightarrow> error + (SVGLegend \<times> LegendLayout \<times> Store)" where
  "drawLegendInternal_store env s h r vp autoWidth =
     andThen (deref (dataObjects h) r) (\<lambda>obj.
       andThen (readData h r) (\<lambda>d.
         andThen (drawLegendInternal env s d vp autoWidth) (\<lambda>(s', layout).
           Inr (s', layout,
                (case data s' of
                   None \<Rightarrow> h
                 | Some d' \<Rightarrow>
                     \<lparr>dataObjects = (dataObjects h)
                        [r := obj\<lparr>objDataPoints :=
                                  (if dataPoints d' = [] then [] else objDataPoints obj)\<rparr>],
                      pointObjects =
                        writeAll (pointObjects h) (objDataPoints obj) (dataPoints d')\<rparr>)))))"

text \<open>
  \<^verbatim>\<open>drawLegend(data, viewport)\<close> on the objects: \<open>r\<close> is the caller's
  \<^verbatim>\<open>LegendData\<close> object.
\<close>

definition drawLegend_store ::
  "Services \<Rightarrow> SVGLegend \<Rightarrow> Store \<Rightarrow> ref \<Rightarrow> IViewport
     \<Rightarrow> error + (SVGLegend \<times> LegendLayout \<times> Store)" where
  "drawLegend_store env s h r vp =
     andThen (inherit (dataObjects h) r) (\<lambda>(datas1, clonedData).
       andThen (deref (dataObjects h) r) (\<lambda>dataObj.
         andThen (inheritDataPoints (pointObjects h) (objDataPoints dataObj))
           (\<lambda>(points1, newDataPoints).
              let h1 = \<lparr>dataObjects =
                          datas1[clonedData :=
                                   (datas1 ! clonedData)\<lparr>objDataPoints := newDataPoints\<rparr>],
                        pointObjects = points1\<rparr>
              in andThen (setTooltipToLegendItems_store h1 clonedData) (\<lambda>h2.
                   drawLegendInternal_store env s h2 clonedData vp True))))"

text \<open>A store that holds the data \<^term>\<open>plainData ls\<close> as the object 0, and nothing else.\<close>

definition plainStore :: "string list \<Rightarrow> Store" where
  "plainStore ls =
     \<lparr>dataObjects = [\<lparr>objTitle = None, objDataPoints = [0..<length ls],
                       objFontSize = Some 8, objPrimaryType = ''None''\<rparr>],
      pointObjects = map plainPoint ls\<rparr>"

section \<open>Properties\<close>

subsection \<open>Unfolding and running the model\<close>

lemmas constant_defs =
  DefaultFontSizeInPt_def LegendIconRadius_def MaxTextLength_def MaxTitleLength_def
  TextAndIconPadding_def TitlePadding_def LegendEdgeMariginWidth_def LegendMaxWidthFactor_def
  TopLegendHeight_def LegendArrowOffset_def LegendArrowHeight_def LegendArrowWidth_def
  DefaultTextMargin_def DefaultMaxLegendFactor_def

lemmas run_defs =
  constant_defs andThen_def changeOrientation_def getOrientation_def isVisible_def
  getMargins_def normalizePosition_def updateNavigationArrowLayout_def getTextProperties_def
  tailoredText_def thisDataFontSize_def toInt32_def calculateViewport_def updateLayout_def
  calculateTitleLayout_def calculateHorizontalNavigationArrowsLayout_def
  calculateVerticalNavigationArrowsLayout_def getMarkerShapeWidth_def itemWidth_def
  horizontalOccupiedStart_def horizontalMetrics_def horizontalItem_def
  calculateHorizontalLayout_def verticalMetrics_def verticalOccupiedStart_def verticalItem_def
  resolveLegendWidth_def calculateVerticalLayout_def prepareLayout_def calculateLayout_def
  drawLegendInternal_def
  setTooltipToLegendItems_def drawLegend_def arrowClick_def newSVGLegend_def fixedPitch_def
  plainPoint_def plainData_def measuredPoint_def measuredData_def topLegend_def
  emptyLayout_def Let_def

lemma newSVGLegend_topLegend: "newSVGLegend fixedPitch (Some Top) True = Inr topLegend"
  by (simp add: run_defs)

lemma andThen_Inr: "andThen r f = Inr y \<longleftrightarrow> (\<exists>x. r = Inr x \<and> f x = Inr y)"
  by (cases r) (simp_all add: andThen_def)

lemma andThen_simps [simp]: "andThen (Inr x) f = f x" "andThen (Inl e) f = Inl e"
  by (simp_all add: andThen_def)

lemma tailoredText_Some [simp]:
  "tailoredText env (getTextProperties b (Some t) fs) w =
     Inr (getTailoredTextOrDefault env (getTextProperties b (Some t) fs) w)"
  by (simp add: tailoredText_def getTextProperties_def)

lemma tailoredText_None [simp]:
  "tailoredText env (getTextProperties b None fs) w = Inl TypeError"
  by (simp add: tailoredText_def getTextProperties_def)

subsection \<open>Pagination clamp\<close>

text \<open>
  Claim C2. For every stored start index and every list of \<open>L\<close> data points,
  \<^verbatim>\<open>normalizePosition\<close> leaves the start index in the interval from 0 to \<open>max 0 (L - 1)\<close>:
  an index at or above \<open>L\<close> becomes \<open>L - 1\<close> (0 when the list is empty), a negative index
  becomes 0, and an index already in range is kept. No other field changes.
\<close>

theorem normalizePosition_clamps:
  "0 \<le> legendDataStartIndex (normalizePosition points s)
   \<and> legendDataStartIndex (normalizePosition points s) \<le> max 0 (int (length points) - 1)
   \<and> (int (length points) \<le> legendDataStartIndex s \<longrightarrow>
        legendDataStartIndex (normalizePosition points s) = max 0 (int (length points) - 1))
   \<and> (legendDataStartIndex s < 0 \<longrightarrow> legendDataStartIndex (normalizePosition points s) = 0)
   \<and> (0 \<le> legendDataStartIndex s \<and> legendDataStartIndex s < int (length points) \<longrightarrow>
        legendDataStartIndex (normalizePosition points s) = legendDataStartIndex s)
   \<and> (\<exists>i. normalizePosition points s = s\<lparr>legendDataStartIndex := i\<rparr>)"
  unfolding normalizePosition_def Let_def
  by (auto intro: exI [of _ "legendDataStartIndex s"])

theorem normalizePosition_clamps_witness:
  "int (length [1, 2, 3 :: nat]) \<le> legendDataStartIndex (topLegend\<lparr>legendDataStartIndex := 7\<rparr>)
   \<and> legendDataStartIndex
         (normalizePosition [1, 2, 3 :: nat] (topLegend\<lparr>legendDataStartIndex := 7\<rparr>)) = 2
   \<and> legendDataStartIndex (topLegend\<lparr>legendDataStartIndex := - 4\<rparr>) < 0
   \<and> legendDataStartIndex
         (normalizePosition [1, 2, 3 :: nat] (topLegend\<lparr>legendDataStartIndex := - 4\<rparr>)) = 0
   \<and> 0 \<le> legendDataStartIndex (topLegend\<lparr>legendDataStartIndex := 1\<rparr>)
   \<and> legendDataStartIndex (topLegend\<lparr>legendDataStartIndex := 1\<rparr>) < int (length [1, 2, 3 :: nat])
   \<and> legendDataStartIndex
         (normalizePosition [1, 2, 3 :: nat] (topLegend\<lparr>legendDataStartIndex := 1\<rparr>)) = 1"
  using normalizePosition_clamps [of "[1, 2, 3 :: nat]" "topLegend\<lparr>legendDataStartIndex := 7\<rparr>"]
    normalizePosition_clamps [of "[1, 2, 3 :: nat]" "topLegend\<lparr>legendDataStartIndex := - 4\<rparr>"]
    normalizePosition_clamps [of "[1, 2, 3 :: nat]" "topLegend\<lparr>legendDataStartIndex := 1\<rparr>"]
  by simp

subsection \<open>A legend with no data\<close>

lemma calculateLayout_empty:
  "dataPoints d = [] \<Longrightarrow> calculateLayout env s d autoWidth = Inr (s, d, emptyLayout)"
  by (simp add: calculateLayout_def emptyLayout_def)

lemma drawLegendInternal_hidden:
  assumes "dataPoints d = [] \<or> orientation s = NonePosition"
  shows "drawLegendInternal env s d vp autoWidth =
           Inr (s\<lparr>parentViewport := vp, data := Some (d\<lparr>dataPoints := []\<rparr>),
                  orientation := NonePosition,
                  showPrimary := (primaryType d \<noteq> ''None''),
                  viewport := \<lparr>height = 0, width = 0\<rparr>, svgHeight := 0, svgWidth := 0\<rparr>,
                emptyLayout)"
  using assms
  by (auto simp add: drawLegendInternal_def Let_def changeOrientation_def getOrientation_def
      calculateViewport_def calculateLayout_empty updateLayout_def)

text \<open>
  Claim C6. When \<^verbatim>\<open>drawLegend\<close> is called with no data points, it returns the layout
  with \<^verbatim>\<open>numberOfItems\<close> 0, no title and no arrows; the orientation of the legend is
  \<^verbatim>\<open>None\<close> afterwards, so that \<^verbatim>\<open>isVisible()\<close> is false; the legend's own viewport is
  \<^verbatim>\<open>{height: 0, width: 0}\<close>; and \<^verbatim>\<open>calculateLayout\<close> on that data returns the same empty
  layout.
\<close>

theorem drawLegend_no_data:
  assumes "dataPoints d = []"
  shows "\<exists>s'. drawLegend env s d vp = Inr (s', emptyLayout)
           \<and> orientation s' = NonePosition \<and> \<not> isVisible s'
           \<and> getMargins s' = \<lparr>height = 0, width = 0\<rparr>
           \<and> calculateLayout env s' d autoWidth = Inr (s', d, emptyLayout)"
proof -
  have "dataPoints (setTooltipToLegendItems d) = []"
    using assms by (simp add: setTooltipToLegendItems_def)
  then show ?thesis
    using assms
    by (simp add: drawLegend_def drawLegendInternal_hidden isVisible_def getMargins_def
        calculateLayout_empty)
qed

theorem drawLegend_no_data_witness:
  "dataPoints (plainData []) = []
   \<and> (\<exists>s'. drawLegend fixedPitch topLegend (plainData []) \<lparr>height = 50, width = 400\<rparr>
              = Inr (s', emptyLayout)
         \<and> orientation s' = NonePosition \<and> \<not> isVisible s'
         \<and> getMargins s' = \<lparr>height = 0, width = 0\<rparr>
         \<and> calculateLayout fixedPitch s' (plainData []) True
             = Inr (s', plainData [], emptyLayout))"
proof -
  have h: "dataPoints (plainData []) = []" by (simp add: plainData_def)
  from drawLegend_no_data [OF h] h show ?thesis by blast
qed

subsection \<open>The hidden legend\<close>

lemma changeOrientation_visible:
  "isVisible (changeOrientation arg s) \<longleftrightarrow> arg \<noteq> Some NonePosition"
  by (cases arg; cases "the arg") (auto simp: changeOrientation_def isVisible_def)

text \<open>
  Claim C9, as stated, says that from orientation \<^verbatim>\<open>None\<close> only a call of
  \<^verbatim>\<open>changeOrientation\<close> with a truthy position other than \<^verbatim>\<open>None\<close> makes the legend
  visible again. It fails: the call with an argument that is not set, and the call with
  \<^verbatim>\<open>Top\<close>, which is falsy, take the \<^verbatim>\<open>else\<close> branch and select \<^verbatim>\<open>Top\<close>.
\<close>

theorem hidden_legend_counterexample:
  "orientation (topLegend\<lparr>orientation := NonePosition\<rparr>) = NonePosition
   \<and> isVisible (changeOrientation None (topLegend\<lparr>orientation := NonePosition\<rparr>))
   \<and> isVisible (changeOrientation (Some Top) (topLegend\<lparr>orientation := NonePosition\<rparr>))
   \<and> \<not> truthyPosition Top"
  by (simp add: changeOrientation_def isVisible_def)

text \<open>
  Claim C9, amended. Once the orientation is \<^verbatim>\<open>None\<close>, every call of
  \<^verbatim>\<open>drawLegendInternal\<close> and of \<^verbatim>\<open>drawLegend\<close>, whatever data it is given, clears the
  data points, returns the empty layout and leaves the orientation \<^verbatim>\<open>None\<close>; and a call
  of \<^verbatim>\<open>changeOrientation\<close> makes the legend visible exactly when its argument is not
  \<^verbatim>\<open>None\<close>. What the call does: a truthy position is taken as it is, so that the
  orientation is that position and nothing else of the legend changes; a falsy position and
  an argument that is not set select \<^verbatim>\<open>Top\<close>; and \<^verbatim>\<open>Top\<close> is the one falsy
  position.
\<close>

theorem hidden_legend_absorbing:
  assumes "orientation s = NonePosition"
  shows "(\<exists>s' d'. drawLegendInternal env s d vp autoWidth = Inr (s', emptyLayout)
            \<and> orientation s' = NonePosition \<and> data s' = Some d' \<and> dataPoints d' = [])
       \<and> (\<exists>s' d'. drawLegend env s d vp = Inr (s', emptyLayout)
            \<and> orientation s' = NonePosition \<and> data s' = Some d' \<and> dataPoints d' = [])
       \<and> (isVisible (changeOrientation arg s) \<longleftrightarrow> arg \<noteq> Some NonePosition)
       \<and> (truthyPosition p \<longrightarrow> changeOrientation (Some p) s = s\<lparr>orientation := p\<rparr>)
       \<and> (\<not> truthyPosition p \<longrightarrow> changeOrientation (Some p) s = s\<lparr>orientation := Top\<rparr>)
       \<and> changeOrientation None s = s\<lparr>orientation := Top\<rparr>
       \<and> (\<not> truthyPosition p \<longleftrightarrow> p = Top)"
proof -
  have falsy: "\<not> truthyPosition p \<longleftrightarrow> p = Top" by (cases p) simp_all
  from assms have draw:
    "(\<exists>s' d'. drawLegendInternal env s d vp autoWidth = Inr (s', emptyLayout)
        \<and> orientation s' = NonePosition \<and> data s' = Some d' \<and> dataPoints d' = [])
     \<and> (\<exists>s' d'. drawLegend env s d vp = Inr (s', emptyLayout)
        \<and> orientation s' = NonePosition \<and> data s' = Some d' \<and> dataPoints d' = [])"
    by (simp add: drawLegend_def drawLegendInternal_hidden)
  have stores: "truthyPosition p \<longrightarrow> changeOrientation (Some p) s = s\<lparr>orientation := p\<rparr>"
    "\<not> truthyPosition p \<longrightarrow> changeOrientation (Some p) s = s\<lparr>orientation := Top\<rparr>"
    "changeOrientation None s = s\<lparr>orientation := Top\<rparr>"
    by (simp_all add: changeOrientation_def)
  from draw changeOrientation_visible [of arg s] stores falsy show ?thesis by blast
qed

theorem hidden_legend_absorbing_witness:
  "orientation (topLegend\<lparr>orientation := NonePosition\<rparr>) = NonePosition
   \<and> (\<exists>s' d'. drawLegend fixedPitch (topLegend\<lparr>orientation := NonePosition\<rparr>)
                 (plainData [''a'', ''b'']) \<lparr>height = 50, width = 400\<rparr> = Inr (s', emptyLayout)
         \<and> orientation s' = NonePosition \<and> data s' = Some d' \<and> dataPoints d' = [])
   \<and> isVisible (changeOrientation (Some Left) (topLegend\<lparr>orientation := NonePosition\<rparr>))
   \<and> \<not> isVisible (changeOrientation (Some NonePosition) (topLegend\<lparr>orientation := NonePosition\<rparr>))
   \<and> truthyPosition Left
   \<and> changeOrientation (Some Left) (topLegend\<lparr>orientation := NonePosition\<rparr>)
       = topLegend\<lparr>orientation := Left\<rparr>
   \<and> truthyPosition NonePosition
   \<and> changeOrientation (Some NonePosition) (topLegend\<lparr>orientation := NonePosition\<rparr>)
       = topLegend\<lparr>orientation := NonePosition\<rparr>
   \<and> \<not> truthyPosition Top
   \<and> changeOrientation (Some Top) (topLegend\<lparr>orientation := NonePosition\<rparr>) = topLegend
   \<and> changeOrientation None (topLegend\<lparr>orientation := NonePosition\<rparr>) = topLegend"
proof -
  have h: "orientation (topLegend\<lparr>orientation := NonePosition\<rparr>) = NonePosition" by simp
  have top: "topLegend\<lparr>orientation := Top\<rparr> = topLegend" by (simp add: topLegend_def)
  from hidden_legend_absorbing [OF h, where env = fixedPitch and d = "plainData [''a'', ''b'']"
      and vp = "\<lparr>height = 50, width = 400\<rparr>" and autoWidth = True and arg = "Some Left"
      and p = Left]
    hidden_legend_absorbing [OF h, where env = fixedPitch and d = "plainData [''a'', ''b'']"
      and vp = "\<lparr>height = 50, width = 400\<rparr>" and autoWidth = True
      and arg = "Some NonePosition" and p = NonePosition]
    hidden_legend_absorbing [OF h, where env = fixedPitch and d = "plainData [''a'', ''b'']"
      and vp = "\<lparr>height = 50, width = 400\<rparr>" and autoWidth = True and arg = None
      and p = Top]
    h top
  show ?thesis by (simp add: isVisible_def)
qed

subsection \<open>The layout loops\<close>

lemma horizontalItem_Inr:
  assumes "horizontalItem env td showP m occ dp = Inr (dp', sp)"
  obtains d where "td = Some d"
    and "sp = iconTotalItemPadding m
              + (if itemWidth env showP (fontSize d) dp < maxTextLength m
                 then itemWidth env showP (fontSize d) dp else maxTextLength m)"
    and "label dp' = (if itemWidth env showP (fontSize d) dp < maxTextLength m then label dp
                      else getTailoredTextOrDefault env
                             (getTextProperties False (Some (label dp)) (fontSize d))
                             (maxTextLength m))"
  using assms
  by (cases td)
    (auto simp add: horizontalItem_def thisDataFontSize_def Let_def andThen_Inr
      split: if_splits)

lemma horizontalItem_total:
  assumes "showP \<longrightarrow> measure' dp \<noteq> None \<and> secondaryMeasure dp \<noteq> None"
  shows "\<exists>r. horizontalItem env (Some d) showP m occ dp = Inr r"
  using assms
  by (auto simp add: horizontalItem_def thisDataFontSize_def Let_def)

lemma horizontalLoop_Cons_Inr:
  assumes "horizontalLoop env td showP pw m occ itr (dp # rest) = Inr (pts', occ', broke)"
  obtains dp' sp where "horizontalItem env td showP m occ dp = Inr (dp', sp)"
    and "pw < occ + sp \<Longrightarrow> pts' = dp' # rest \<and> occ' = occ + sp \<and> broke = Some itr"
    and "\<not> pw < occ + sp \<Longrightarrow>
           \<exists>rest'. horizontalLoop env td showP pw m (occ + sp) (Suc itr) rest
                      = Inr (rest', occ', broke) \<and> pts' = dp' # rest'"
  using assms by (auto simp add: andThen_Inr split: if_splits)

lemma horizontalLoop_shape:
  assumes "horizontalLoop env td showP pw m occ itr pts = Inr (pts', occ', broke)"
  shows "length pts' = length pts
         \<and> (\<forall>b. broke = Some b \<longrightarrow> itr \<le> b \<and> b < itr + length pts)"
  using assms
proof (induction pts arbitrary: occ itr pts')
  case Nil
  then show ?case by simp
next
  case (Cons dp rest)
  from Cons.prems show ?case
  proof (rule horizontalLoop_Cons_Inr)
    fix dp' sp
    assume brk: "pw < occ + sp \<Longrightarrow> pts' = dp' # rest \<and> occ' = occ + sp \<and> broke = Some itr"
      and go: "\<not> pw < occ + sp \<Longrightarrow>
           \<exists>rest'. horizontalLoop env td showP pw m (occ + sp) (Suc itr) rest
                      = Inr (rest', occ', broke) \<and> pts' = dp' # rest'"
    show ?thesis
    proof (cases "pw < occ + sp")
      case True
      with brk show ?thesis by simp
    next
      case False
      with go obtain rest' where
        "horizontalLoop env td showP pw m (occ + sp) (Suc itr) rest = Inr (rest', occ', broke)"
        "pts' = dp' # rest'" by blast
      with Cons.IH [of "occ + sp" "Suc itr" rest'] show ?thesis by auto
    qed
  qed
qed

lemma horizontalLoop_total:
  assumes "showP \<longrightarrow> (\<forall>dp \<in> set pts. measure' dp \<noteq> None \<and> secondaryMeasure dp \<noteq> None)"
  shows "\<exists>r. horizontalLoop env (Some d) showP pw m occ itr pts = Inr r"
  using assms
proof (induction pts arbitrary: occ itr)
  case Nil
  then show ?case by simp
next
  case (Cons dp rest)
  then obtain dp' sp where
    item: "horizontalItem env (Some d) showP m occ dp = Inr (dp', sp)"
    using horizontalItem_total [of showP dp env d m occ] by auto
  from Cons obtain r where
    "horizontalLoop env (Some d) showP pw m (occ + sp) (Suc itr) rest = Inr r"
    by fastforce
  with item show ?case by (cases r) auto
qed

text \<open>
  The labels the horizontal loop leaves: a visited point (one not after the point at which
  the loop broke off) has its label cut when its item is not narrower than the budget;
  the points after the break are as they were.
\<close>

lemma horizontalLoop_labels:
  assumes "horizontalLoop env (Some d) showP pw m occ itr pts = Inr (pts', occ', broke)"
    and "i < length pts"
  shows "((\<forall>b. broke = Some b \<longrightarrow> itr + i \<le> b) \<longrightarrow>
            label (pts' ! i) =
              (if itemWidth env showP (fontSize d) (pts ! i) < maxTextLength m
               then label (pts ! i)
               else getTailoredTextOrDefault env
                      (getTextProperties False (Some (label (pts ! i))) (fontSize d))
                      (maxTextLength m)))
       \<and> ((\<exists>b. broke = Some b \<and> b < itr + i) \<longrightarrow> pts' ! i = pts ! i)"
  using assms
proof (induction pts arbitrary: occ itr pts' i)
  case Nil
  then show ?case by simp
next
  case (Cons dp rest)
  from Cons.prems(1) show ?case
  proof (rule horizontalLoop_Cons_Inr)
    fix dp' sp
    assume item: "horizontalItem env (Some d) showP m occ dp = Inr (dp', sp)"
      and brk: "pw < occ + sp \<Longrightarrow> pts' = dp' # rest \<and> occ' = occ + sp \<and> broke = Some itr"
      and go: "\<not> pw < occ + sp \<Longrightarrow>
           \<exists>rest'. horizontalLoop env (Some d) showP pw m (occ + sp) (Suc itr) rest
                      = Inr (rest', occ', broke) \<and> pts' = dp' # rest'"
    from item have lab: "label dp' =
        (if itemWidth env showP (fontSize d) dp < maxTextLength m then label dp
         else getTailoredTextOrDefault env
                (getTextProperties False (Some (label dp)) (fontSize d)) (maxTextLength m))"
      by (rule horizontalItem_Inr) simp
    show ?thesis
    proof (cases "pw < occ + sp")
      case True
      with brk lab show ?thesis by (cases i) auto
    next
      case False
      with go obtain rest' where
        rec: "horizontalLoop env (Some d) showP pw m (occ + sp) (Suc itr) rest
                = Inr (rest', occ', broke)"
        and pts': "pts' = dp' # rest'" by blast
      from horizontalLoop_shape [OF rec] have after: "\<forall>b. broke = Some b \<longrightarrow> Suc itr \<le> b"
        by simp
      show ?thesis
      proof (cases i)
        case 0
        with lab pts' after show ?thesis by auto
      next
        case (Suc j)
        with Cons.prems(2) have "j < length rest" by simp
        from Cons.IH [OF rec this] Suc pts' show ?thesis by simp
      qed
    qed
  qed
qed

lemma verticalItem_Inr:
  assumes "verticalItem env td showP md m thusFar spaceUsed dp = Inr (dp', thusFar', spaceUsed')"
  obtains d where "td = Some d"
    and "thusFar' = (if showP then thusFar + (20 + md / 2) * 2 else thusFar)
                      + verticalLegendHeight m"
    and "label dp' = (if itemWidth env showP (fontSize d) dp > maxHorizontalSpaceAvaliable m
                      then getTailoredTextOrDefault env
                             (getTextProperties False (Some (label dp)) (fontSize d))
                             (maxHorizontalSpaceAvaliable m)
                      else label dp)"
  using assms
  by (cases td)
    (auto simp add: verticalItem_def thisDataFontSize_def Let_def andThen_Inr
      split: if_splits)

lemma verticalItem_total:
  assumes "showP \<longrightarrow> measure' dp \<noteq> None \<and> secondaryMeasure dp \<noteq> None"
  shows "\<exists>r. verticalItem env (Some d) showP md m thusFar spaceUsed dp = Inr r"
  using assms
  by (auto simp add: verticalItem_def thisDataFontSize_def Let_def)

lemma verticalLoop_Cons_Inr:
  assumes "verticalLoop env td showP md ph m thusFar spaceUsed itr (dp # rest)
             = Inr (pts', thusFar', spaceUsed', broke)"
  obtains dp' t u where "verticalItem env td showP md m thusFar spaceUsed dp = Inr (dp', t, u)"
    and "ph < t \<Longrightarrow> pts' = dp' # rest \<and> thusFar' = t \<and> spaceUsed' = u \<and> broke = Some itr"
    and "\<not> ph < t \<Longrightarrow>
           \<exists>rest'. verticalLoop env td showP md ph m t u (Suc itr) rest
                      = Inr (rest', thusFar', spaceUsed', broke) \<and> pts' = dp' # rest'"
  using assms by (auto simp add: andThen_Inr split: if_splits)

lemma verticalLoop_shape:
  assumes "verticalLoop env td showP md ph m thusFar spaceUsed itr pts
             = Inr (pts', thusFar', spaceUsed', broke)"
  shows "length pts' = length pts
         \<and> (\<forall>b. broke = Some b \<longrightarrow> itr \<le> b \<and> b < itr + length pts)"
  using assms
proof (induction pts arbitrary: thusFar spaceUsed itr pts')
  case Nil
  then show ?case by simp
next
  case (Cons dp rest)
  from Cons.prems show ?case
  proof (rule verticalLoop_Cons_Inr)
    fix dp' t u
    assume brk: "ph < t \<Longrightarrow>
             pts' = dp' # rest \<and> thusFar' = t \<and> spaceUsed' = u \<and> broke = Some itr"
      and go: "\<not> ph < t \<Longrightarrow>
           \<exists>rest'. verticalLoop env td showP md ph m t u (Suc itr) rest
                      = Inr (rest', thusFar', spaceUsed', broke) \<and> pts' = dp' # rest'"
    show ?thesis
    proof (cases "ph < t")
      case True
      with brk show ?thesis by simp
    next
      case False
      with go obtain rest' where
        "verticalLoop env td showP md ph m t u (Suc itr) rest
           = Inr (rest', thusFar', spaceUsed', broke)"
        "pts' = dp' # rest'" by blast
      with Cons.IH [of t u "Suc itr" rest'] show ?thesis by auto
    qed
  qed
qed

lemma verticalLoop_total:
  assumes "showP \<longrightarrow> (\<forall>dp \<in> set pts. measure' dp \<noteq> None \<and> secondaryMeasure dp \<noteq> None)"
  shows "\<exists>r. verticalLoop env (Some d) showP md ph m thusFar spaceUsed itr pts = Inr r"
  using assms
proof (induction pts arbitrary: thusFar spaceUsed itr)
  case Nil
  then show ?case by simp
next
  case (Cons dp rest)
  then obtain dp' t u where
    item: "verticalItem env (Some d) showP md m thusFar spaceUsed dp = Inr (dp', t, u)"
    using verticalItem_total [of showP dp env d md m thusFar spaceUsed] by auto
  from Cons obtain r where
    "verticalLoop env (Some d) showP md ph m t u (Suc itr) rest = Inr r"
    by fastforce
  with item show ?case by (cases r) auto
qed

text \<open>The labels the vertical loop leaves, as for the horizontal loop.\<close>

lemma verticalLoop_labels:
  assumes "verticalLoop env (Some d) showP md ph m thusFar spaceUsed itr pts
             = Inr (pts', thusFar', spaceUsed', broke)"
    and "i < length pts"
  shows "((\<forall>b. broke = Some b \<longrightarrow> itr + i \<le> b) \<longrightarrow>
            label (pts' ! i) =
              (if itemWidth env showP (fontSize d) (pts ! i) > maxHorizontalSpaceAvaliable m
               then getTailoredTextOrDefault env
                      (getTextProperties False (Some (label (pts ! i))) (fontSize d))
                      (maxHorizontalSpaceAvaliable m)
               else label (pts ! i)))
       \<and> ((\<exists>b. broke = Some b \<and> b < itr + i) \<longrightarrow> pts' ! i = pts ! i)"
  using assms
proof (induction pts arbitrary: thusFar spaceUsed itr pts' i)
  case Nil
  then show ?case by simp
next
  case (Cons dp rest)
  from Cons.prems(1) show ?case
  proof (rule verticalLoop_Cons_Inr)
    fix dp' t u
    assume item: "verticalItem env (Some d) showP md m thusFar spaceUsed dp = Inr (dp', t, u)"
      and brk: "ph < t \<Longrightarrow>
             pts' = dp' # rest \<and> thusFar' = t \<and> spaceUsed' = u \<and> broke = Some itr"
      and go: "\<not> ph < t \<Longrightarrow>
           \<exists>rest'. verticalLoop env (Some d) showP md ph m t u (Suc itr) rest
                      = Inr (rest', thusFar', spaceUsed', broke) \<and> pts' = dp' # rest'"
    from item have lab: "label dp' =
        (if itemWidth env showP (fontSize d) dp > maxHorizontalSpaceAvaliable m
         then getTailoredTextOrDefault env
                (getTextProperties False (Some (label dp)) (fontSize d))
                (maxHorizontalSpaceAvaliable m)
         else label dp)"
      by (rule verticalItem_Inr) simp
    show ?thesis
    proof (cases "ph < t")
      case True
      with brk lab show ?thesis by (cases i) auto
    next
      case False
      with go obtain rest' where
        rec: "verticalLoop env (Some d) showP md ph m t u (Suc itr) rest
                = Inr (rest', thusFar', spaceUsed', broke)"
        and pts': "pts' = dp' # rest'" by blast
      from verticalLoop_shape [OF rec] have after: "\<forall>b. broke = Some b \<longrightarrow> Suc itr \<le> b"
        by simp
      show ?thesis
      proof (cases i)
        case 0
        with lab pts' after show ?thesis by auto
      next
        case (Suc j)
        with Cons.prems(2) have "j < length rest" by simp
        from Cons.IH [OF rec this] Suc pts' show ?thesis by simp
      qed
    qed
  qed
qed

subsection \<open>The layout passes\<close>

text \<open>What \<^verbatim>\<open>updateNavigationArrowLayout\<close> changes: the window size, and nothing else.\<close>

lemma updateNavigationArrowLayout_frame:
  "fst (updateNavigationArrowLayout arrows remaining visible s) =
     s\<lparr>arrowPosWindow :=
         (if 0 < length (if legendDataStartIndex s = 0 then tl arrows else arrows)
               \<and> visible = remaining
          then arrowPosWindow s else visible)\<rparr>"
  by (simp add: updateNavigationArrowLayout_def Let_def)

lemma calculateHorizontalLayout_Inr:
  assumes "calculateHorizontalLayout env s pts ttl arrows = Inr (s', pts', ttl', arrows', n)"
  obtains occ broke where
    "horizontalLoop env (data s) (showPrimary s) (width (parentViewport s))
        (horizontalMetrics env s pts ttl) (horizontalOccupiedStart s ttl) 0 pts
       = Inr (pts', occ, broke)"
    and "n = (case broke of None \<Rightarrow> length pts | Some itr \<Rightarrow> itr)"
    and "s' = fst (updateNavigationArrowLayout arrows (length pts) n
                     (s\<lparr>visibleLegendWidth := occ\<rparr>))"
    and "arrows' = snd (updateNavigationArrowLayout arrows (length pts) n
                          (s\<lparr>visibleLegendWidth := occ\<rparr>))"
    and "ttl' = map_option
                  (\<lambda>lay. lay\<lparr>title_y := fixedTextShift (horizontalMetrics env s pts ttl)\<rparr>) ttl"
    and "\<not> (showPrimary s \<and> (case pts of [] \<Rightarrow> True | p # _ \<Rightarrow> measure' p = None))"
proof -
  from assms have guard:
    "\<not> (showPrimary s \<and> (case pts of [] \<Rightarrow> True | p # _ \<Rightarrow> measure' p = None))"
    by (auto simp add: calculateHorizontalLayout_def)
  with assms obtain q where
    loop: "horizontalLoop env (data s) (showPrimary s) (width (parentViewport s))
             (horizontalMetrics env s pts ttl) (horizontalOccupiedStart s ttl) 0 pts = Inr q"
    by (auto simp add: calculateHorizontalLayout_def Let_def andThen_Inr)
  obtain p occ broke where q: "q = (p, occ, broke)" by (cases q) auto
  from assms guard loop q have
    "p = pts'" "n = (case broke of None \<Rightarrow> length pts | Some itr \<Rightarrow> itr)"
    "s' = fst (updateNavigationArrowLayout arrows (length pts) n
                 (s\<lparr>visibleLegendWidth := occ\<rparr>))"
    "arrows' = snd (updateNavigationArrowLayout arrows (length pts) n
                      (s\<lparr>visibleLegendWidth := occ\<rparr>))"
    "ttl' = map_option
              (\<lambda>lay. lay\<lparr>title_y := fixedTextShift (horizontalMetrics env s pts ttl)\<rparr>) ttl"
    by (auto simp add: calculateHorizontalLayout_def Let_def split_beta)
  with loop q guard that show thesis by blast
qed

lemma calculateVerticalLayout_Inr:
  assumes "calculateVerticalLayout env s pts ttl arrows autoWidth
             = Inr (s', pts', ttl', arrows', n)"
  obtains thusFar spaceUsed broke s2 where
    "verticalLoop env (data s) (showPrimary s) (legendFontSizeMarginDifference s)
        (height (parentViewport s)) (verticalMetrics env s pts autoWidth)
        (verticalOccupiedStart s (verticalMetrics env s pts autoWidth) ttl)
        (case ttl of Some lay \<Rightarrow> title_width lay | None \<Rightarrow> 0) 0 pts
       = Inr (pts', thusFar, spaceUsed, broke)"
    and "n = (case broke of None \<Rightarrow> length pts | Some itr \<Rightarrow> itr)"
    and "s2 = (resolveLegendWidth s (verticalMetrics env s pts autoWidth) autoWidth spaceUsed)
                \<lparr>visibleLegendHeight :=
                    thusFar - verticalLegendHeight (verticalMetrics env s pts autoWidth)\<rparr>"
    and "s' = fst (updateNavigationArrowLayout
                     (map (\<lambda>a. a\<lparr>arrow_x := lastCalculatedWidth s2 / 2\<rparr>) arrows)
                     (length pts) n s2)"
    and "arrows' = snd (updateNavigationArrowLayout
                          (map (\<lambda>a. a\<lparr>arrow_x := lastCalculatedWidth s2 / 2\<rparr>) arrows)
                          (length pts) n s2)"
proof -
  let ?m = "verticalMetrics env s pts autoWidth"
  from assms obtain q where
    loop: "verticalLoop env (data s) (showPrimary s) (legendFontSizeMarginDifference s)
             (height (parentViewport s)) ?m (verticalOccupiedStart s ?m ttl)
             (case ttl of Some lay \<Rightarrow> title_width lay | None \<Rightarrow> 0) 0 pts = Inr q"
    by (auto simp add: calculateVerticalLayout_def Let_def andThen_Inr)
  obtain p thusFar spaceUsed broke where q: "q = (p, thusFar, spaceUsed, broke)"
    by (cases q) auto
  define s2 where "s2 = (resolveLegendWidth s ?m autoWidth spaceUsed)
                          \<lparr>visibleLegendHeight := thusFar - verticalLegendHeight ?m\<rparr>"
  from assms loop q have
    "p = pts'" "n = (case broke of None \<Rightarrow> length pts | Some itr \<Rightarrow> itr)"
    "s' = fst (updateNavigationArrowLayout
                 (map (\<lambda>a. a\<lparr>arrow_x := lastCalculatedWidth s2 / 2\<rparr>) arrows)
                 (length pts) n s2)"
    "arrows' = snd (updateNavigationArrowLayout
                      (map (\<lambda>a. a\<lparr>arrow_x := lastCalculatedWidth s2 / 2\<rparr>) arrows)
                      (length pts) n s2)"
    by (auto simp add: calculateVerticalLayout_def Let_def split_beta andThen_Inr s2_def)
  with loop q s2_def that show thesis by blast
qed

subsection \<open>The layout pass\<close>

lemma normalizePosition_nonempty:
  assumes "pts \<noteq> []"
  shows "0 \<le> legendDataStartIndex (normalizePosition pts s)"
    and "legendDataStartIndex (normalizePosition pts s) < int (length pts)"
  using assms by (auto simp add: normalizePosition_def Let_def)

lemma prepareLayout_fields:
  "orientation (prepareLayout env s pts) = orientation s"
  "isScrollable (prepareLayout env s pts) = isScrollable s"
  "arrowPosWindow (prepareLayout env s pts) = arrowPosWindow s"
  "data (prepareLayout env s pts) = data s"
  "showPrimary (prepareLayout env s pts) = showPrimary s"
  "parentViewport (prepareLayout env s pts) = parentViewport s"
  "viewport (prepareLayout env s pts) = viewport s"
  "lastCalculatedWidth (prepareLayout env s pts) = lastCalculatedWidth s"
  "svgWidth (prepareLayout env s pts) = svgWidth s"
  "legendFontSizeMarginDifference (prepareLayout env s pts) =
     legendFontSizeMarginValue (prepareLayout env s pts) - DefaultTextMargin env"
  "legendDataStartIndex (prepareLayout env s pts) =
     legendDataStartIndex (normalizePosition pts s)"
  by (simp_all add: prepareLayout_def normalizePosition_def Let_def)

lemma calculateLayout_Inr:
  assumes "calculateLayout env s d autoWidth = Inr (s', d', layout)"
    and "dataPoints d \<noteq> []"
  defines "s3 \<equiv> prepareLayout env s (dataPoints d)"
  obtains ttl pts' ttl' arrows' n where
    "calculateTitleLayout env s3 (title d) = Inr ttl"
    and "(if isTopOrBottom (orientation s)
          then calculateHorizontalLayout env s3
                 (drop (nat (legendDataStartIndex s3)) (dataPoints d)) ttl
                 (if isScrollable s then calculateHorizontalNavigationArrowsLayout env s3 ttl
                  else [])
          else calculateVerticalLayout env s3
                 (drop (nat (legendDataStartIndex s3)) (dataPoints d)) ttl
                 (if isScrollable s then calculateVerticalNavigationArrowsLayout env s3 ttl
                  else [])
                 autoWidth) = Inr (s', pts', ttl', arrows', n)"
    and "layout = \<lparr>numberOfItems = n, layoutTitle = ttl', navigationArrows = arrows'\<rparr>"
    and "d' = d\<lparr>dataPoints := take (nat (legendDataStartIndex s3)) (dataPoints d) @ pts'\<rparr>"
proof -
  have sliced: "legendDataStartIndex s3 < int (length (dataPoints d))"
    unfolding s3_def prepareLayout_fields using assms(2) by (rule normalizePosition_nonempty)
  have fields: "orientation s3 = orientation s" "isScrollable s3 = isScrollable s"
    by (simp_all add: s3_def prepareLayout_fields)
  from assms(1,2) obtain ttl where
    ttl: "calculateTitleLayout env s3 (title d) = Inr ttl"
    by (auto simp add: calculateLayout_def Let_def andThen_Inr s3_def)
  let ?pass = "(if isTopOrBottom (orientation s)
          then calculateHorizontalLayout env s3
                 (drop (nat (legendDataStartIndex s3)) (dataPoints d)) ttl
                 (if isScrollable s then calculateHorizontalNavigationArrowsLayout env s3 ttl
                  else [])
          else calculateVerticalLayout env s3
                 (drop (nat (legendDataStartIndex s3)) (dataPoints d)) ttl
                 (if isScrollable s then calculateVerticalNavigationArrowsLayout env s3 ttl
                  else [])
                 autoWidth)"
  from assms(1,2) ttl sliced fields have
    eq: "andThen ?pass (\<lambda>(s4, pts', ttl', arrows, n).
           Inr (s4, d\<lparr>dataPoints := take (nat (legendDataStartIndex s3)) (dataPoints d) @ pts'\<rparr>,
                \<lparr>numberOfItems = n, layoutTitle = ttl', navigationArrows = arrows\<rparr>))
         = Inr (s', d', layout)"
    unfolding calculateLayout_def Let_def s3_def [symmetric]
    by (simp split: if_splits)
  then obtain q where pass: "?pass = Inr q"
    unfolding andThen_Inr by blast
  obtain s4 pts' ttl' arrows' n where q: "q = (s4, pts', ttl', arrows', n)" by (cases q) auto
  from eq pass q have
    "s4 = s'" "layout = \<lparr>numberOfItems = n, layoutTitle = ttl', navigationArrows = arrows'\<rparr>"
    "d' = d\<lparr>dataPoints := take (nat (legendDataStartIndex s3)) (dataPoints d) @ pts'\<rparr>"
    by simp_all
  with ttl pass q that show thesis by blast
qed

subsection \<open>The number of items\<close>

lemma calculateHorizontalLayout_count:
  assumes "calculateHorizontalLayout env s pts ttl arrows = Inr (s', pts', ttl', arrows', n)"
  shows "n \<le> length pts \<and> length pts' = length pts
    \<and> legendDataStartIndex s' = legendDataStartIndex s"
  using assms
proof (rule calculateHorizontalLayout_Inr)
  fix occ broke
  assume loop: "horizontalLoop env (data s) (showPrimary s) (width (parentViewport s))
        (horizontalMetrics env s pts ttl) (horizontalOccupiedStart s ttl) 0 pts
       = Inr (pts', occ, broke)"
    and n: "n = (case broke of None \<Rightarrow> length pts | Some itr \<Rightarrow> itr)"
    and s': "s' = fst (updateNavigationArrowLayout arrows (length pts) n
                     (s\<lparr>visibleLegendWidth := occ\<rparr>))"
  from horizontalLoop_shape [OF loop] n have "n \<le> length pts" "length pts' = length pts"
    by (auto split: option.splits)
  moreover from s' have "legendDataStartIndex s' = legendDataStartIndex s"
    by (simp add: updateNavigationArrowLayout_frame)
  ultimately show "n \<le> length pts \<and> length pts' = length pts
    \<and> legendDataStartIndex s' = legendDataStartIndex s" by simp
qed

lemma resolveLegendWidth_fields:
  "legendDataStartIndex (resolveLegendWidth s m autoWidth u) = legendDataStartIndex s"
  "arrowPosWindow (resolveLegendWidth s m autoWidth u) = arrowPosWindow s"
  "legendFontSizeMarginDifference (resolveLegendWidth s m autoWidth u)
     = legendFontSizeMarginDifference s"
  by (simp_all add: resolveLegendWidth_def Let_def)

lemma calculateVerticalLayout_count:
  assumes "calculateVerticalLayout env s pts ttl arrows autoWidth
             = Inr (s', pts', ttl', arrows', n)"
  shows "n \<le> length pts \<and> length pts' = length pts
    \<and> legendDataStartIndex s' = legendDataStartIndex s
    \<and> legendFontSizeMarginDifference s' = legendFontSizeMarginDifference s"
  using assms
proof (rule calculateVerticalLayout_Inr)
  fix thusFar spaceUsed broke s2
  assume loop: "verticalLoop env (data s) (showPrimary s) (legendFontSizeMarginDifference s)
        (height (parentViewport s)) (verticalMetrics env s pts autoWidth)
        (verticalOccupiedStart s (verticalMetrics env s pts autoWidth) ttl)
        (case ttl of Some lay \<Rightarrow> title_width lay | None \<Rightarrow> 0) 0 pts
       = Inr (pts', thusFar, spaceUsed, broke)"
    and n: "n = (case broke of None \<Rightarrow> length pts | Some itr \<Rightarrow> itr)"
    and s2: "s2 = (resolveLegendWidth s (verticalMetrics env s pts autoWidth) autoWidth spaceUsed)
                \<lparr>visibleLegendHeight :=
                    thusFar - verticalLegendHeight (verticalMetrics env s pts autoWidth)\<rparr>"
    and s': "s' = fst (updateNavigationArrowLayout
                     (map (\<lambda>a. a\<lparr>arrow_x := lastCalculatedWidth s2 / 2\<rparr>) arrows)
                     (length pts) n s2)"
  from verticalLoop_shape [OF loop] n have "n \<le> length pts" "length pts' = length pts"
    by (auto split: option.splits)
  moreover from s' s2 have "legendDataStartIndex s' = legendDataStartIndex s"
    "legendFontSizeMarginDifference s' = legendFontSizeMarginDifference s"
    by (simp_all add: updateNavigationArrowLayout_frame resolveLegendWidth_fields)
  ultimately show "n \<le> length pts \<and> length pts' = length pts
    \<and> legendDataStartIndex s' = legendDataStartIndex s
    \<and> legendFontSizeMarginDifference s' = legendFontSizeMarginDifference s" by simp
qed

text \<open>With text widths that are not negative an item is at least 15 wide.\<close>

lemma itemWidth_ge:
  assumes "\<forall>p. 0 \<le> measureSvgTextWidth env p"
  shows "15 \<le> itemWidth env showP fs dp"
  using assms by (auto simp add: itemWidth_def Let_def)

lemma maxTextLength_ge: "60 \<le> maxTextLength (horizontalMetrics env s pts ttl)"
  by (simp add: horizontalMetrics_def Let_def MaxTextLength_def)

lemma getMarkerShapeWidth_ge:
  assumes "0 \<le> LegendIconLineTotalWidth env"
  shows "0 \<le> getMarkerShapeWidth env shape"
  using assms
  by (auto simp add: getMarkerShapeWidth_def LegendIconRadius_def
      split: option.splits MarkerShape.splits)

text \<open>
  In a parent viewport of width 0 the title, if there is one, is cut to the negative
  maximal length; the padding of the first item outweighs it.
\<close>

lemma calculateTitleLayout_zero_width:
  assumes "calculateTitleLayout env s t = Inr (Some lay)"
    and "isTopOrBottom (orientation s)"
    and "width (parentViewport s) = 0"
    and "\<forall>p. 0 \<le> measureSvgTextWidth env p"
    and "legendFontSizeMarginDifference s = legendFontSizeMarginValue s - DefaultTextMargin env"
  shows "title_width lay =
           - 10 - (if legendFontSizeMarginDifference s > 0
                   then TextAndIconPadding + legendFontSizeMarginDifference s
                   else TextAndIconPadding)"
proof -
  from assms(1) obtain tt fs where "t = Some tt" "tt \<noteq> []"
    and fs: "thisDataFontSize (data s) = Inr fs"
    by (auto simp add: calculateTitleLayout_def andThen_Inr Let_def
        split: option.splits if_splits)
  with assms(1,2,3,5) show ?thesis
    using spec [OF assms(4), of "getTextProperties True (Some tt) fs"]
    by (auto simp add: calculateTitleLayout_def Let_def constant_defs split: if_splits)
qed

lemma calculateHorizontalLayout_zero_width:
  assumes pass: "calculateHorizontalLayout env s pts ttl arrows = Inr (s', pts', ttl', arrows', n)"
    and "pts \<noteq> []"
    and zero: "width (parentViewport s) = 0"
    and widths: "\<forall>p. 0 \<le> measureSvgTextWidth env p"
    and icon: "0 \<le> LegendIconLineTotalWidth env"
    and ttl: "\<And>lay. ttl = Some lay \<Longrightarrow>
           title_width lay =
             - 10 - (if legendFontSizeMarginDifference s > 0
                     then TextAndIconPadding + legendFontSizeMarginDifference s
                     else TextAndIconPadding)"
  shows "n = 0"
  using pass
proof (rule calculateHorizontalLayout_Inr)
  fix occ broke
  let ?m = "horizontalMetrics env s pts ttl"
  assume loop: "horizontalLoop env (data s) (showPrimary s) (width (parentViewport s)) ?m
        (horizontalOccupiedStart s ttl) 0 pts = Inr (pts', occ, broke)"
    and n: "n = (case broke of None \<Rightarrow> length pts | Some itr \<Rightarrow> itr)"
  from \<open>pts \<noteq> []\<close> obtain dp rest where pts: "pts = dp # rest" by (cases pts) auto
  from loop [unfolded pts] show "n = 0"
  proof (rule horizontalLoop_Cons_Inr)
    fix dp' sp
    assume item: "horizontalItem env (data s) (showPrimary s)
                    (horizontalMetrics env s (dp # rest) ttl)
                    (horizontalOccupiedStart s ttl) dp = Inr (dp', sp)"
      and brk: "width (parentViewport s) < horizontalOccupiedStart s ttl + sp \<Longrightarrow>
                  pts' = dp' # rest \<and> occ = horizontalOccupiedStart s ttl + sp
                  \<and> broke = Some 0"
    define fsm where "fsm = (if legendFontSizeMarginDifference s > 0
                     then TextAndIconPadding + legendFontSizeMarginDifference s
                     else TextAndIconPadding)"
    have fsm: "5 \<le> fsm" by (simp add: fsm_def TextAndIconPadding_def)
    have start: "- 10 - fsm \<le> horizontalOccupiedStart s ttl"
      using ttl fsm
      by (cases ttl)
        (auto simp add: horizontalOccupiedStart_def fsm_def LegendArrowOffset_def)
    have pad: "3 * fsm \<le> iconTotalItemPadding (horizontalMetrics env s (dp # rest) ttl)"
      using getMarkerShapeWidth_ge [OF icon, of "markerShape dp"]
      by (simp add: horizontalMetrics_def Let_def fsm_def)
    from item obtain d :: LegendData where
      sp: "sp = iconTotalItemPadding (horizontalMetrics env s (dp # rest) ttl)
              + (if itemWidth env (showPrimary s) (fontSize d) dp
                      < maxTextLength (horizontalMetrics env s (dp # rest) ttl)
                 then itemWidth env (showPrimary s) (fontSize d) dp
                 else maxTextLength (horizontalMetrics env s (dp # rest) ttl))"
      by (rule horizontalItem_Inr)
    from sp pad itemWidth_ge [OF widths, of "showPrimary s" "fontSize d" dp]
      maxTextLength_ge [of env s "dp # rest" ttl]
    have "3 * fsm + 15 \<le> sp" by (auto split: if_splits)
    with start fsm zero have "width (parentViewport s) < horizontalOccupiedStart s ttl + sp"
      by simp
    with brk n show "n = 0" by simp
  qed
qed

lemma calculateVerticalLayout_zero_height:
  assumes pass: "calculateVerticalLayout env s pts ttl arrows autoWidth
                   = Inr (s', pts', ttl', arrows', n)"
    and "pts \<noteq> []"
    and zero: "height (parentViewport s) = 0"
    and font: "showPrimary s \<longrightarrow> - 75 < legendFontSizeMarginDifference s"
  shows "n = 0"
  using pass
proof (rule calculateVerticalLayout_Inr)
  fix thusFar spaceUsed broke
  let ?m = "verticalMetrics env s pts autoWidth"
  assume loop: "verticalLoop env (data s) (showPrimary s) (legendFontSizeMarginDifference s)
        (height (parentViewport s)) ?m (verticalOccupiedStart s ?m ttl)
        (case ttl of Some lay \<Rightarrow> title_width lay | None \<Rightarrow> 0) 0 pts
       = Inr (pts', thusFar, spaceUsed, broke)"
    and n: "n = (case broke of None \<Rightarrow> length pts | Some itr \<Rightarrow> itr)"
  from \<open>pts \<noteq> []\<close> obtain dp rest where pts: "pts = dp # rest" by (cases pts) auto
  from loop [unfolded pts] show "n = 0"
  proof (rule verticalLoop_Cons_Inr)
    fix dp' t u
    let ?m' = "verticalMetrics env s (dp # rest) autoWidth"
    assume item: "verticalItem env (data s) (showPrimary s) (legendFontSizeMarginDifference s)
                    ?m' (verticalOccupiedStart s ?m' ttl)
                    (case ttl of Some lay \<Rightarrow> title_width lay | None \<Rightarrow> 0) dp = Inr (dp', t, u)"
      and brk: "height (parentViewport s) < t \<Longrightarrow>
                  pts' = dp' # rest \<and> thusFar = t \<and> spaceUsed = u \<and> broke = Some 0"
    have factor: "0 \<le> fontFactor ?m'" "verticalLegendHeight ?m' = 20 + fontFactor ?m'"
      "spaceNeededByTitle ?m' = 15 + fontFactor ?m' * (13 / 10)"
      "legendFontSizeMarginDifference s \<le> fontFactor ?m'"
      by (simp_all add: verticalMetrics_def Let_def)
    then have start: "15 \<le> verticalOccupiedStart s ?m' ttl"
      by (cases ttl) (auto simp add: verticalOccupiedStart_def LegendArrowOffset_def)
    from item have
      "t = (if showPrimary s
            then verticalOccupiedStart s ?m' ttl + (20 + legendFontSizeMarginDifference s / 2) * 2
            else verticalOccupiedStart s ?m' ttl) + verticalLegendHeight ?m'"
      by (rule verticalItem_Inr)
    with start factor font zero have "height (parentViewport s) < t"
      by (auto split: if_splits)
    with brk n show "n = 0" by simp
  qed
qed

text \<open>
  Claim C1. When \<^verbatim>\<open>calculateLayout\<close> returns, \<^verbatim>\<open>numberOfItems\<close> is at most the number
  of data points from the (normalised) start index on; it is 0 when there are no data
  points; it is 0 for a top or bottom legend in a parent viewport of width 0; and it is 0
  for a left or right legend in a parent viewport of height 0. The two zero-size cases are
  stated for a text service that measures no width below 0 and a line icon that is not
  narrower than 0 (horizontal), and for a font that is, in pixels, less than 75 below the
  default font when the primary measure is shown (vertical).
\<close>

theorem calculateLayout_numberOfItems:
  assumes "calculateLayout env s d autoWidth = Inr (s', d', layout)"
  shows "numberOfItems layout \<le> length (dataPoints d) - nat (legendDataStartIndex s')
       \<and> (dataPoints d = [] \<longrightarrow> numberOfItems layout = 0)
       \<and> (isTopOrBottom (orientation s) \<and> width (parentViewport s) = 0
            \<and> (\<forall>p. 0 \<le> measureSvgTextWidth env p) \<and> 0 \<le> LegendIconLineTotalWidth env
          \<longrightarrow> numberOfItems layout = 0)
       \<and> (\<not> isTopOrBottom (orientation s) \<and> height (parentViewport s) = 0
            \<and> (showPrimary s \<longrightarrow> - 75 < legendFontSizeMarginDifference s')
          \<longrightarrow> numberOfItems layout = 0)"
proof (cases "dataPoints d = []")
  case True
  with assms show ?thesis by (auto simp add: calculateLayout_empty emptyLayout_def)
next
  case False
  define s3 where "s3 = prepareLayout env s (dataPoints d)"
  define pts where "pts = drop (nat (legendDataStartIndex s3)) (dataPoints d)"
  have start: "0 \<le> legendDataStartIndex s3"
    "legendDataStartIndex s3 < int (length (dataPoints d))"
    unfolding s3_def prepareLayout_fields using False
    by (rule normalizePosition_nonempty)+
  then have pts: "pts \<noteq> []"
    "length pts = length (dataPoints d) - nat (legendDataStartIndex s3)"
    by (simp_all add: pts_def)
  from assms False show ?thesis
  proof (rule calculateLayout_Inr)
    fix ttl pts' ttl' arrows' n
    assume ttl: "calculateTitleLayout env (prepareLayout env s (dataPoints d)) (title d) = Inr ttl"
      and pass: "(if isTopOrBottom (orientation s)
          then calculateHorizontalLayout env (prepareLayout env s (dataPoints d))
                 (drop (nat (legendDataStartIndex (prepareLayout env s (dataPoints d))))
                    (dataPoints d)) ttl
                 (if isScrollable s
                  then calculateHorizontalNavigationArrowsLayout env
                         (prepareLayout env s (dataPoints d)) ttl
                  else [])
          else calculateVerticalLayout env (prepareLayout env s (dataPoints d))
                 (drop (nat (legendDataStartIndex (prepareLayout env s (dataPoints d))))
                    (dataPoints d)) ttl
                 (if isScrollable s
                  then calculateVerticalNavigationArrowsLayout env
                         (prepareLayout env s (dataPoints d)) ttl
                  else [])
                 autoWidth) = Inr (s', pts', ttl', arrows', n)"
      and layout: "layout = \<lparr>numberOfItems = n, layoutTitle = ttl', navigationArrows = arrows'\<rparr>"
    show ?thesis
    proof (cases "isTopOrBottom (orientation s)")
      case True
      with pass obtain arrows where
        h: "calculateHorizontalLayout env s3 pts ttl arrows = Inr (s', pts', ttl', arrows', n)"
        by (simp add: s3_def pts_def)
      from calculateHorizontalLayout_count [OF h] pts
      have bound: "n \<le> length (dataPoints d) - nat (legendDataStartIndex s')" by simp
      have "n = 0" if zero: "width (parentViewport s) = 0"
        and widths: "\<forall>p. 0 \<le> measureSvgTextWidth env p"
        and icon: "0 \<le> LegendIconLineTotalWidth env"
      proof (rule calculateHorizontalLayout_zero_width [OF h pts(1) _ widths icon])
        show "width (parentViewport s3) = 0"
          using zero by (simp add: s3_def prepareLayout_fields)
        fix lay
        assume "ttl = Some lay"
        with ttl have "calculateTitleLayout env s3 (title d) = Inr (Some lay)"
          by (simp add: s3_def)
        then show "title_width lay =
             - 10 - (if legendFontSizeMarginDifference s3 > 0
                     then TextAndIconPadding + legendFontSizeMarginDifference s3
                     else TextAndIconPadding)"
          using True zero widths
          by (intro calculateTitleLayout_zero_width)
            (simp_all add: s3_def prepareLayout_fields)
      qed
      with bound layout True False show ?thesis by simp
    next
      case False
      with pass obtain arrows where
        v: "calculateVerticalLayout env s3 pts ttl arrows autoWidth
              = Inr (s', pts', ttl', arrows', n)"
        by (simp add: s3_def pts_def)
      from calculateVerticalLayout_count [OF v] pts
      have bound: "n \<le> length (dataPoints d) - nat (legendDataStartIndex s')"
        and diff: "legendFontSizeMarginDifference s' = legendFontSizeMarginDifference s3"
        by simp_all
      have "n = 0" if zero: "height (parentViewport s) = 0"
        and font: "showPrimary s \<longrightarrow> - 75 < legendFontSizeMarginDifference s'"
      proof (rule calculateVerticalLayout_zero_height [OF v pts(1)])
        show "height (parentViewport s3) = 0"
          using zero by (simp add: s3_def prepareLayout_fields)
        show "showPrimary s3 \<longrightarrow> - 75 < legendFontSizeMarginDifference s3"
          using font diff by (simp add: s3_def prepareLayout_fields)
      qed
      with bound layout False \<open>dataPoints d \<noteq> []\<close> show ?thesis by simp
    qed
  qed
qed

lemma fixedPitch_widths: "\<forall>p. 0 \<le> measureSvgTextWidth fixedPitch p"
  by (simp add: fixedPitch_def split: option.splits)

theorem calculateLayout_numberOfItems_witness:
  "(\<exists>s' d' layout.
      calculateLayout fixedPitch
        (topLegend\<lparr>data := Some (plainData [''abcd'', ''abcd'', ''abcd'']),
                   parentViewport := \<lparr>height = 50, width = 0\<rparr>\<rparr>)
        (plainData [''abcd'', ''abcd'', ''abcd'']) True = Inr (s', d', layout)
      \<and> numberOfItems layout = 0
      \<and> numberOfItems layout
          \<le> length (dataPoints (plainData [''abcd'', ''abcd'', ''abcd'']))
              - nat (legendDataStartIndex s'))
   \<and> isTopOrBottom (orientation
        (topLegend\<lparr>data := Some (plainData [''abcd'', ''abcd'', ''abcd'']),
                   parentViewport := \<lparr>height = 50, width = 0\<rparr>\<rparr>))
   \<and> (\<forall>p. 0 \<le> measureSvgTextWidth fixedPitch p)
   \<and> 0 \<le> LegendIconLineTotalWidth fixedPitch
   \<and> (\<exists>s' d' layout.
      calculateLayout fixedPitch
        (topLegend\<lparr>orientation := Left,
                   data := Some (plainData [''abcd'', ''abcd'', ''abcd'']),
                   parentViewport := \<lparr>height = 0, width = 200\<rparr>\<rparr>)
        (plainData [''abcd'', ''abcd'', ''abcd'']) True = Inr (s', d', layout)
      \<and> numberOfItems layout = 0)
   \<and> (\<exists>s' d' layout.
      calculateLayout fixedPitch topLegend (plainData []) True = Inr (s', d', layout)
      \<and> dataPoints (plainData []) = [] \<and> numberOfItems layout = 0)"
proof -
  let ?d = "plainData [''abcd'', ''abcd'', ''abcd'']"
  let ?h = "topLegend\<lparr>data := Some ?d, parentViewport := \<lparr>height = 50, width = 0\<rparr>\<rparr>"
  let ?v = "topLegend\<lparr>orientation := Left, data := Some ?d,
                       parentViewport := \<lparr>height = 0, width = 200\<rparr>\<rparr>"
  have "\<exists>r. calculateLayout fixedPitch ?h ?d True = Inr r" by (simp add: run_defs)
  then obtain sh dh lh where h: "calculateLayout fixedPitch ?h ?d True = Inr (sh, dh, lh)"
    by auto
  have "\<exists>r. calculateLayout fixedPitch ?v ?d True = Inr r" by (simp add: run_defs)
  then obtain sv dv lv where v: "calculateLayout fixedPitch ?v ?d True = Inr (sv, dv, lv)"
    by auto
  obtain se de le where e: "calculateLayout fixedPitch topLegend (plainData []) True
    = Inr (se, de, le)"
    by (simp add: calculateLayout_def plainData_def)
  have icon: "0 \<le> LegendIconLineTotalWidth fixedPitch" by (simp add: fixedPitch_def)
  have hor: "isTopOrBottom (orientation ?h)" "width (parentViewport ?h) = 0"
    by (simp_all add: topLegend_def)
  have ver: "\<not> isTopOrBottom (orientation ?v)" "height (parentViewport ?v) = 0"
    "\<not> showPrimary ?v"
    by (simp_all add: topLegend_def)
  have emp: "dataPoints (plainData []) = []" by (simp add: plainData_def)
  from calculateLayout_numberOfItems [OF h] calculateLayout_numberOfItems [OF v]
    calculateLayout_numberOfItems [OF e] h v e hor ver emp icon fixedPitch_widths
  show ?thesis by auto
qed

subsection \<open>Totality of the layout\<close>

lemma calculateTitleLayout_total:
  assumes "data s = Some d"
  shows "\<exists>r. calculateTitleLayout env s t = Inr r"
    and "calculateTitleLayout env s (title d) = Inr (Some lay) \<Longrightarrow> title d \<noteq> None"
  using assms
  by (auto simp add: calculateTitleLayout_def thisDataFontSize_def Let_def
      split: option.splits)

lemma calculateHorizontalLayout_total:
  assumes "data s = Some d" and "pts \<noteq> []"
    and "showPrimary s \<longrightarrow> (\<forall>dp \<in> set pts. measure' dp \<noteq> None \<and> secondaryMeasure dp \<noteq> None)"
  shows "\<exists>r. calculateHorizontalLayout env s pts ttl arrows = Inr r"
proof -
  from assms(2,3) have
    guard: "\<not> (showPrimary s \<and> (case pts of [] \<Rightarrow> True | p # _ \<Rightarrow> measure' p = None))"
    by (cases pts) auto
  from horizontalLoop_total [OF assms(3)] obtain q where
    "horizontalLoop env (Some d) (showPrimary s) (width (parentViewport s))
       (horizontalMetrics env s pts ttl) (horizontalOccupiedStart s ttl) 0 pts = Inr q"
    by blast
  with guard assms(1) show ?thesis
    by (simp add: calculateHorizontalLayout_def Let_def split_beta)
qed

lemma calculateVerticalLayout_total:
  assumes "data s = Some d" and "ttl \<noteq> None \<longrightarrow> title d \<noteq> None"
    and "showPrimary s \<longrightarrow> (\<forall>dp \<in> set pts. measure' dp \<noteq> None \<and> secondaryMeasure dp \<noteq> None)"
  shows "\<exists>r. calculateVerticalLayout env s pts ttl arrows autoWidth = Inr r"
proof -
  let ?m = "verticalMetrics env s pts autoWidth"
  from verticalLoop_total [OF assms(3)] obtain q where
    "verticalLoop env (Some d) (showPrimary s) (legendFontSizeMarginDifference s)
       (height (parentViewport s)) ?m (verticalOccupiedStart s ?m ttl)
       (case ttl of Some lay \<Rightarrow> title_width lay | None \<Rightarrow> 0) 0 pts = Inr q"
    by blast
  with assms(1,2) show ?thesis
    by (cases ttl; cases "title d")
      (simp_all add: calculateVerticalLayout_def Let_def split_beta resolveLegendWidth_def)
qed

lemma calculateHorizontalLayout_unguarded:
  assumes "showPrimary s" and "pts = [] \<or> measure' (hd pts) = None"
  shows "calculateHorizontalLayout env s pts ttl arrows = Inl TypeError"
  using assms by (cases pts) (auto simp add: calculateHorizontalLayout_def)

text \<open>
  Claim C10. When the primary measure is shown, \<^verbatim>\<open>calculateHorizontalLayout\<close> reads
  \<^verbatim>\<open>dataPoints[0]["measure"].length\<close> without a guard: it throws when the first point
  has no measure. When every data point of the window has a measure and a secondary
  measure that are defined (they are read only if the primary measure is shown), the
  horizontal pass on a window that is not empty, the vertical pass, and
  \<^verbatim>\<open>calculateLayout\<close> as \<^verbatim>\<open>drawLegendInternal\<close> calls it all return a result.
\<close>

theorem layout_total:
  "(showPrimary s \<and> (pts = [] \<or> measure' (hd pts) = None)
      \<longrightarrow> calculateHorizontalLayout env s pts ttl arrows = Inl TypeError)
   \<and> (data s = Some d
        \<and> (showPrimary s \<longrightarrow>
             (\<forall>dp \<in> set pts. measure' dp \<noteq> None \<and> secondaryMeasure dp \<noteq> None))
      \<longrightarrow> (pts \<noteq> [] \<longrightarrow> (\<exists>r. calculateHorizontalLayout env s pts ttl arrows = Inr r))
          \<and> ((ttl \<noteq> None \<longrightarrow> title d \<noteq> None)
               \<longrightarrow> (\<exists>r. calculateVerticalLayout env s pts ttl arrows autoWidth = Inr r))
          \<and> (pts = drop (nat (legendDataStartIndex (normalizePosition (dataPoints d) s)))
                      (dataPoints d)
               \<longrightarrow> (\<exists>r. calculateLayout env s d autoWidth = Inr r)))"
proof (intro conjI impI; (elim conjE)?)
  assume "showPrimary s" "pts = [] \<or> measure' (hd pts) = None"
  then show "calculateHorizontalLayout env s pts ttl arrows = Inl TypeError"
    by (rule calculateHorizontalLayout_unguarded)
next
  assume assms: "data s = Some d"
    "showPrimary s \<longrightarrow>
       (\<forall>dp \<in> set pts. measure' dp \<noteq> None \<and> secondaryMeasure dp \<noteq> None)"
  assume "pts \<noteq> []"
  with assms show "\<exists>r. calculateHorizontalLayout env s pts ttl arrows = Inr r"
    by (intro calculateHorizontalLayout_total)
next
  assume assms: "data s = Some d"
    "showPrimary s \<longrightarrow>
       (\<forall>dp \<in> set pts. measure' dp \<noteq> None \<and> secondaryMeasure dp \<noteq> None)"
  assume "ttl \<noteq> None \<longrightarrow> title d \<noteq> None"
  with assms show "\<exists>r. calculateVerticalLayout env s pts ttl arrows autoWidth = Inr r"
    by (intro calculateVerticalLayout_total)
next
  assume assms: "data s = Some d"
    "showPrimary s \<longrightarrow>
       (\<forall>dp \<in> set pts. measure' dp \<noteq> None \<and> secondaryMeasure dp \<noteq> None)"
  assume window: "pts = drop (nat (legendDataStartIndex (normalizePosition (dataPoints d) s)))
                   (dataPoints d)"
  show "\<exists>r. calculateLayout env s d autoWidth = Inr r"
  proof (cases "dataPoints d = []")
    case True
    then show ?thesis by (simp add: calculateLayout_empty)
  next
    case False
    define s3 where "s3 = prepareLayout env s (dataPoints d)"
    have s3: "data s3 = Some d" "showPrimary s3 = showPrimary s"
      "legendDataStartIndex s3 = legendDataStartIndex (normalizePosition (dataPoints d) s)"
      "legendDataStartIndex s3 < int (length (dataPoints d))"
      using assms(1) normalizePosition_nonempty [OF False, of s]
      by (simp_all add: s3_def prepareLayout_fields)
    from s3(4) False have "nat (legendDataStartIndex s3) < length (dataPoints d)"
      by (cases "dataPoints d") auto
    with window s3(3) have pts: "pts = drop (nat (legendDataStartIndex s3)) (dataPoints d)"
      "pts \<noteq> []" by simp_all
    from calculateTitleLayout_total(1) [OF s3(1)] obtain ttl0 where
      ttl0: "calculateTitleLayout env s3 (title d) = Inr ttl0" by blast
    with calculateTitleLayout_total(2) [OF s3(1)] have t: "ttl0 \<noteq> None \<longrightarrow> title d \<noteq> None"
      by auto
    have prim: "showPrimary s3 \<longrightarrow>
      (\<forall>dp \<in> set pts. measure' dp \<noteq> None \<and> secondaryMeasure dp \<noteq> None)"
      using assms(2) s3 by simp
    have "\<exists>r. (if isTopOrBottom (orientation s3)
          then calculateHorizontalLayout env s3 pts ttl0
                 (if isScrollable s3 then calculateHorizontalNavigationArrowsLayout env s3 ttl0
                  else [])
          else calculateVerticalLayout env s3 pts ttl0
                 (if isScrollable s3 then calculateVerticalNavigationArrowsLayout env s3 ttl0
                  else [])
                 autoWidth) = Inr r"
      using calculateHorizontalLayout_total [OF s3(1) pts(2) prim]
        calculateVerticalLayout_total [OF s3(1) t prim]
      by simp
    then obtain r where "(if isTopOrBottom (orientation s3)
          then calculateHorizontalLayout env s3 pts ttl0
                 (if isScrollable s3 then calculateHorizontalNavigationArrowsLayout env s3 ttl0
                  else [])
          else calculateVerticalLayout env s3 pts ttl0
                 (if isScrollable s3 then calculateVerticalNavigationArrowsLayout env s3 ttl0
                  else [])
                 autoWidth) = Inr r" by blast
    with False ttl0 s3(4) pts(1) show ?thesis
      unfolding calculateLayout_def Let_def s3_def [symmetric]
      by (auto simp add: split_beta split: if_splits)
  qed
qed


theorem layout_total_witness:
  "showPrimary (topLegend\<lparr>data := Some (plainData [''a'']), showPrimary := True\<rparr>)
   \<and> measure' (hd (dataPoints (plainData [''a'']))) = None
   \<and> calculateHorizontalLayout fixedPitch
        (topLegend\<lparr>data := Some (plainData [''a'']), showPrimary := True\<rparr>)
        (dataPoints (plainData [''a''])) None [] = Inl TypeError
   \<and> data (topLegend\<lparr>data := Some measuredData, showPrimary := True\<rparr>) = Some measuredData
   \<and> map measure' (dataPoints measuredData) = [Some ''120'', Some ''80'']
   \<and> map secondaryMeasure (dataPoints measuredData) = [Some ''12%'', Some ''8%'']
   \<and> dataPoints measuredData \<noteq> []
   \<and> (\<exists>r. calculateHorizontalLayout fixedPitch
              (topLegend\<lparr>data := Some measuredData, showPrimary := True\<rparr>)
              (dataPoints measuredData) None [] = Inr r)
   \<and> (\<exists>r. calculateVerticalLayout fixedPitch
              (topLegend\<lparr>data := Some measuredData, showPrimary := True\<rparr>)
              (dataPoints measuredData) None [] True = Inr r)
   \<and> (\<exists>r. calculateLayout fixedPitch
              (topLegend\<lparr>data := Some measuredData, showPrimary := True\<rparr>)
              measuredData True = Inr r)"
proof -
  let ?bad = "topLegend\<lparr>data := Some (plainData [''a'']), showPrimary := True\<rparr>"
  let ?good = "topLegend\<lparr>data := Some measuredData, showPrimary := True\<rparr>"
  have bad: "showPrimary ?bad" "measure' (hd (dataPoints (plainData [''a'']))) = None"
    by (simp_all add: plainData_def plainPoint_def)
  have good: "data ?good = Some measuredData" "showPrimary ?good"
    "\<forall>dp \<in> set (dataPoints measuredData).
       measure' dp \<noteq> None \<and> secondaryMeasure dp \<noteq> None"
    "dataPoints measuredData \<noteq> []"
    "dataPoints measuredData =
       drop (nat (legendDataStartIndex (normalizePosition (dataPoints measuredData) ?good)))
         (dataPoints measuredData)"
    by (simp_all add: measuredData_def measuredPoint_def plainPoint_def topLegend_def
        normalizePosition_def)
  have measures: "map measure' (dataPoints measuredData) = [Some ''120'', Some ''80'']"
    "map secondaryMeasure (dataPoints measuredData) = [Some ''12%'', Some ''8%'']"
    by (simp_all add: measuredData_def measuredPoint_def plainPoint_def)
  from layout_total [of ?bad "dataPoints (plainData [''a''])" fixedPitch None "[]"
      "plainData [''a'']" True]
    layout_total [of ?good "dataPoints measuredData" fixedPitch None "[]" measuredData True]
    bad good measures
  show ?thesis by simp
qed

subsection \<open>Truncation of labels\<close>

lemma itemWidth_label:
  "measureSvgTextWidth env (getTextProperties False (Some (label dp)) fs) + 15
     \<le> itemWidth env showP fs dp"
  by (simp add: itemWidth_def Let_def)

text \<open>
  Claim C3, as stated, fails for the data points the loop does not reach. Three points in a
  parent viewport of width 85: the budget of an item is 60, the second point overflows, the
  loop breaks off with \<^verbatim>\<open>numberOfItems\<close> 1, and the third label, 160 wide, is left as it
  is.
\<close>

theorem label_truncation_counterexample:
  "maxTextLength (horizontalMetrics fixedPitch
      (topLegend\<lparr>data := Some (plainData [''abcd'', ''abcd'', ''abcdefghijklmnop'']),
                 parentViewport := \<lparr>height = 50, width = 85\<rparr>\<rparr>)
      (dataPoints (plainData [''abcd'', ''abcd'', ''abcdefghijklmnop''])) None) = 60
   \<and> measureSvgTextWidth fixedPitch
        (getTextProperties False (Some ''abcdefghijklmnop'') (Some 8)) = 160
   \<and> map_sum id (map label \<circ> fst \<circ> snd)
        (calculateHorizontalLayout fixedPitch
          (topLegend\<lparr>data := Some (plainData [''abcd'', ''abcd'', ''abcdefghijklmnop'']),
                     parentViewport := \<lparr>height = 50, width = 85\<rparr>\<rparr>)
          (dataPoints (plainData [''abcd'', ''abcd'', ''abcdefghijklmnop''])) None [])
       = Inr [''abcd'', ''abcd'', ''abcdefghijklmnop'']
   \<and> map_sum id (snd \<circ> snd \<circ> snd \<circ> snd)
        (calculateHorizontalLayout fixedPitch
          (topLegend\<lparr>data := Some (plainData [''abcd'', ''abcd'', ''abcdefghijklmnop'']),
                     parentViewport := \<lparr>height = 50, width = 85\<rparr>\<rparr>)
          (dataPoints (plainData [''abcd'', ''abcd'', ''abcdefghijklmnop''])) None [])
       = Inr 1"
  by (simp add: run_defs)

lemma horizontal_labels:
  assumes pass: "calculateHorizontalLayout env s pts ttl arrows = Inr (s', pts', ttl', arrows', n)"
    and d: "data s = Some d" and i: "i < length pts"
  shows "(i \<le> n \<longrightarrow>
            label (pts' ! i) =
              (if itemWidth env (showPrimary s) (fontSize d) (pts ! i)
                    < maxTextLength (horizontalMetrics env s pts ttl)
               then label (pts ! i)
               else getTailoredTextOrDefault env
                      (getTextProperties False (Some (label (pts ! i))) (fontSize d))
                      (maxTextLength (horizontalMetrics env s pts ttl))))
       \<and> (n < i \<longrightarrow> pts' ! i = pts ! i)"
  using pass
proof (rule calculateHorizontalLayout_Inr)
  fix occ broke
  assume loop: "horizontalLoop env (data s) (showPrimary s) (width (parentViewport s))
        (horizontalMetrics env s pts ttl) (horizontalOccupiedStart s ttl) 0 pts
       = Inr (pts', occ, broke)"
    and n: "n = (case broke of None \<Rightarrow> length pts | Some itr \<Rightarrow> itr)"
  from n i have "i \<le> n \<longleftrightarrow> (\<forall>b. broke = Some b \<longrightarrow> 0 + i \<le> b)"
    "n < i \<longleftrightarrow> (\<exists>b. broke = Some b \<and> b < 0 + i)"
    by (auto split: option.splits)
  with horizontalLoop_labels [OF loop [unfolded d] i] show ?thesis by simp
qed

lemma vertical_labels:
  assumes pass: "calculateVerticalLayout env s pts ttl arrows autoWidth
                   = Inr (s', pts', ttl', arrows', n)"
    and d: "data s = Some d" and i: "i < length pts"
  shows "(i \<le> n \<longrightarrow>
            label (pts' ! i) =
              (if itemWidth env (showPrimary s) (fontSize d) (pts ! i)
                    > maxHorizontalSpaceAvaliable (verticalMetrics env s pts autoWidth)
               then getTailoredTextOrDefault env
                      (getTextProperties False (Some (label (pts ! i))) (fontSize d))
                      (maxHorizontalSpaceAvaliable (verticalMetrics env s pts autoWidth))
               else label (pts ! i)))
       \<and> (n < i \<longrightarrow> pts' ! i = pts ! i)"
  using pass
proof (rule calculateVerticalLayout_Inr)
  fix thusFar spaceUsed broke
  let ?m = "verticalMetrics env s pts autoWidth"
  assume loop: "verticalLoop env (data s) (showPrimary s) (legendFontSizeMarginDifference s)
        (height (parentViewport s)) ?m (verticalOccupiedStart s ?m ttl)
        (case ttl of Some lay \<Rightarrow> title_width lay | None \<Rightarrow> 0) 0 pts
       = Inr (pts', thusFar, spaceUsed, broke)"
    and n: "n = (case broke of None \<Rightarrow> length pts | Some itr \<Rightarrow> itr)"
  from n i have "i \<le> n \<longleftrightarrow> (\<forall>b. broke = Some b \<longrightarrow> 0 + i \<le> b)"
    "n < i \<longleftrightarrow> (\<exists>b. broke = Some b \<and> b < 0 + i)"
    by (auto split: option.splits)
  with verticalLoop_labels [OF loop [unfolded d] i] show ?thesis by simp
qed

text \<open>
  Claim C3, amended. Both layout loops visit the data points of the window up to and
  including the first that overflows, the points with an index of at most
  \<^verbatim>\<open>numberOfItems\<close>, and leave the points after it as they were. The budget is
  \<^verbatim>\<open>maxTextLength\<close> in horizontal and \<^verbatim>\<open>maxHorizontalSpaceAvaliable\<close> in vertical
  layout. A visited label whose measured width exceeds the budget is replaced by what
  \<^verbatim>\<open>getTailoredTextOrDefault\<close> makes of it for the budget; it then measures at most the
  budget if the text service truncates to the width it is given. A visited label is left
  as it is when the width of its item (the widest of the label and the measures shown, plus
  15) is below the budget (horizontal) or not above it (vertical), and goes through the
  same truncation otherwise; so a visited label that fits the budget is unaltered if the
  text service returns a text that fits as it is.
\<close>

theorem label_truncation:
  assumes "data s = Some d" and "i < length pts"
  shows
    "(calculateHorizontalLayout env s pts ttl arrows = Inr (s', pts', ttl', arrows', n) \<longrightarrow>
        (let budget = maxTextLength (horizontalMetrics env s pts ttl);
             props = getTextProperties False (Some (label (pts ! i))) (fontSize d);
             cut = getTailoredTextOrDefault env props budget
         in (i \<le> n \<longrightarrow>
               (budget < measureSvgTextWidth env props \<longrightarrow> label (pts' ! i) = cut)
             \<and> label (pts' ! i) =
                 (if itemWidth env (showPrimary s) (fontSize d) (pts ! i) < budget
                  then label (pts ! i) else cut)
             \<and> (truncatesToWidth env (fontSize d) budget
                  \<and> budget < measureSvgTextWidth env props \<longrightarrow>
                measureSvgTextWidth env
                  (getTextProperties False (Some (label (pts' ! i))) (fontSize d)) \<le> budget)
             \<and> (keepsFittingText env (fontSize d) budget
                  \<and> measureSvgTextWidth env props \<le> budget \<longrightarrow>
                label (pts' ! i) = label (pts ! i)))
          \<and> (n < i \<longrightarrow> pts' ! i = pts ! i)))
   \<and> (calculateVerticalLayout env s pts ttl arrows autoWidth
         = Inr (s', pts', ttl', arrows', n) \<longrightarrow>
        (let budget = maxHorizontalSpaceAvaliable (verticalMetrics env s pts autoWidth);
             props = getTextProperties False (Some (label (pts ! i))) (fontSize d);
             cut = getTailoredTextOrDefault env props budget
         in (i \<le> n \<longrightarrow>
               (budget < measureSvgTextWidth env props \<longrightarrow> label (pts' ! i) = cut)
             \<and> label (pts' ! i) =
                 (if itemWidth env (showPrimary s) (fontSize d) (pts ! i) > budget
                  then cut else label (pts ! i))
             \<and> (truncatesToWidth env (fontSize d) budget
                  \<and> budget < measureSvgTextWidth env props \<longrightarrow>
                measureSvgTextWidth env
                  (getTextProperties False (Some (label (pts' ! i))) (fontSize d)) \<le> budget)
             \<and> (keepsFittingText env (fontSize d) budget
                  \<and> measureSvgTextWidth env props \<le> budget \<longrightarrow>
                label (pts' ! i) = label (pts ! i)))
          \<and> (n < i \<longrightarrow> pts' ! i = pts ! i)))"
proof (intro conjI impI)
  let ?w = "itemWidth env (showPrimary s) (fontSize d) (pts ! i)"
  let ?props = "getTextProperties False (Some (label (pts ! i))) (fontSize d)"
  have wide: "measureSvgTextWidth env ?props + 15 \<le> ?w" by (rule itemWidth_label)
  {
    assume pass: "calculateHorizontalLayout env s pts ttl arrows
                    = Inr (s', pts', ttl', arrows', n)"
    let ?b = "maxTextLength (horizontalMetrics env s pts ttl)"
    note rule = horizontal_labels [OF pass assms]
    from rule wide show
      "let budget = ?b; props = ?props; cut = getTailoredTextOrDefault env props budget
       in (i \<le> n \<longrightarrow>
             (budget < measureSvgTextWidth env props \<longrightarrow> label (pts' ! i) = cut)
           \<and> label (pts' ! i) = (if ?w < budget then label (pts ! i) else cut)
           \<and> (truncatesToWidth env (fontSize d) budget
                \<and> budget < measureSvgTextWidth env props \<longrightarrow>
              measureSvgTextWidth env
                (getTextProperties False (Some (label (pts' ! i))) (fontSize d)) \<le> budget)
           \<and> (keepsFittingText env (fontSize d) budget
                \<and> measureSvgTextWidth env props \<le> budget \<longrightarrow>
              label (pts' ! i) = label (pts ! i)))
        \<and> (n < i \<longrightarrow> pts' ! i = pts ! i)"
      by (auto simp add: Let_def truncatesToWidth_def keepsFittingText_def)
  }
  {
    assume pass: "calculateVerticalLayout env s pts ttl arrows autoWidth
                    = Inr (s', pts', ttl', arrows', n)"
    let ?b = "maxHorizontalSpaceAvaliable (verticalMetrics env s pts autoWidth)"
    note rule = vertical_labels [OF pass assms]
    from rule wide show
      "let budget = ?b; props = ?props; cut = getTailoredTextOrDefault env props budget
       in (i \<le> n \<longrightarrow>
             (budget < measureSvgTextWidth env props \<longrightarrow> label (pts' ! i) = cut)
           \<and> label (pts' ! i) = (if ?w > budget then cut else label (pts ! i))
           \<and> (truncatesToWidth env (fontSize d) budget
                \<and> budget < measureSvgTextWidth env props \<longrightarrow>
              measureSvgTextWidth env
                (getTextProperties False (Some (label (pts' ! i))) (fontSize d)) \<le> budget)
           \<and> (keepsFittingText env (fontSize d) budget
                \<and> measureSvgTextWidth env props \<le> budget \<longrightarrow>
              label (pts' ! i) = label (pts ! i)))
        \<and> (n < i \<longrightarrow> pts' ! i = pts ! i)"
      by (auto simp add: Let_def truncatesToWidth_def keepsFittingText_def)
  }
qed

lemma fixedPitch_no_tie:
  assumes "10 * real n \<le> w" and "\<not> 10 * real n < w" and "w = 75 \<or> w = 93"
  shows False
proof -
  from assms have "real (10 * n) = real 75 \<or> real (10 * n) = real 93" by auto
  then have "10 * n = 75 \<or> 10 * n = 93" by (simp only: of_nat_eq_iff)
  then show False by presburger
qed

lemma fixedPitch_contract:
  assumes "w = 75 \<or> w = 93"
  shows "truncatesToWidth fixedPitch (Some 8) w" and "keepsFittingText fixedPitch (Some 8) w"
proof -
  from assms show "truncatesToWidth fixedPitch (Some 8) w"
    by (auto simp add: truncatesToWidth_def fixedPitch_def getTextProperties_def)
  from assms show "keepsFittingText fixedPitch (Some 8) w"
    unfolding keepsFittingText_def
    by (auto simp add: fixedPitch_def getTextProperties_def dest: fixedPitch_no_tie)
qed

theorem label_truncation_witness:
  "(\<exists>s' pts' ttl' arrows' n.
      calculateHorizontalLayout fixedPitch
        (topLegend\<lparr>data := Some (plainData [''ab'', ''abcdefghijklmnop'', ''abcdef'']),
                   parentViewport := \<lparr>height = 50, width = 300\<rparr>\<rparr>)
        (dataPoints (plainData [''ab'', ''abcdefghijklmnop'', ''abcdef''])) None []
        = Inr (s', pts', ttl', arrows', n)
      \<and> n = 3 \<and> map label pts' = [''ab'', ''abcd...'', ''abcdef'']
      \<and> measureSvgTextWidth fixedPitch
           (getTextProperties False (Some (label (pts' ! 1))) (Some 8)) \<le> 75)
   \<and> maxTextLength (horizontalMetrics fixedPitch
        (topLegend\<lparr>data := Some (plainData [''ab'', ''abcdefghijklmnop'', ''abcdef'']),
                   parentViewport := \<lparr>height = 50, width = 300\<rparr>\<rparr>)
        (dataPoints (plainData [''ab'', ''abcdefghijklmnop'', ''abcdef''])) None) = 75
   \<and> truncatesToWidth fixedPitch (Some 8) 75 \<and> keepsFittingText fixedPitch (Some 8) 75
   \<and> (\<exists>s' pts' ttl' arrows' n.
      calculateHorizontalLayout fixedPitch
        (topLegend\<lparr>data := Some (plainData [''abcd'', ''abcd'', ''abcdefghijklmnop'']),
                   parentViewport := \<lparr>height = 50, width = 85\<rparr>\<rparr>)
        (dataPoints (plainData [''abcd'', ''abcd'', ''abcdefghijklmnop''])) None []
        = Inr (s', pts', ttl', arrows', n)
      \<and> n = 1 \<and> pts' ! 2 = plainPoint ''abcdefghijklmnop'')
   \<and> (\<exists>s' pts' ttl' arrows' n.
      calculateVerticalLayout fixedPitch
        (topLegend\<lparr>orientation := Left, data := Some (plainData [''ab'', ''abcdefghijklmnop'']),
                   parentViewport := \<lparr>height = 200, width = 410\<rparr>\<rparr>)
        (dataPoints (plainData [''ab'', ''abcdefghijklmnop''])) None [] True
        = Inr (s', pts', ttl', arrows', n)
      \<and> n = 2 \<and> map label pts' = [''ab'', ''abcdef...'']
      \<and> measureSvgTextWidth fixedPitch
           (getTextProperties False (Some (label (pts' ! 1))) (Some 8)) \<le> 93)
   \<and> maxHorizontalSpaceAvaliable (verticalMetrics fixedPitch
        (topLegend\<lparr>orientation := Left, data := Some (plainData [''ab'', ''abcdefghijklmnop'']),
                   parentViewport := \<lparr>height = 200, width = 410\<rparr>\<rparr>)
        (dataPoints (plainData [''ab'', ''abcdefghijklmnop''])) True) = 93
   \<and> truncatesToWidth fixedPitch (Some 8) 93 \<and> keepsFittingText fixedPitch (Some 8) 93
   \<and> (\<exists>s' pts' ttl' arrows' n.
      calculateVerticalLayout fixedPitch
        (topLegend\<lparr>orientation := Left, data := Some (plainData [''ab'', ''abcdefghijklmnop'']),
                   parentViewport := \<lparr>height = 30, width = 410\<rparr>\<rparr>)
        (dataPoints (plainData [''ab'', ''abcdefghijklmnop''])) None [] True
        = Inr (s', pts', ttl', arrows', n)
      \<and> n = 0 \<and> pts' ! 1 = plainPoint ''abcdefghijklmnop'')"
proof -
  let ?dA = "plainData [''ab'', ''abcdefghijklmnop'', ''abcdef'']"
  let ?sA = "topLegend\<lparr>data := Some ?dA, parentViewport := \<lparr>height = 50, width = 300\<rparr>\<rparr>"
  let ?dB = "plainData [''abcd'', ''abcd'', ''abcdefghijklmnop'']"
  let ?sB = "topLegend\<lparr>data := Some ?dB, parentViewport := \<lparr>height = 50, width = 85\<rparr>\<rparr>"
  let ?dC = "plainData [''ab'', ''abcdefghijklmnop'']"
  let ?sC = "topLegend\<lparr>orientation := Left, data := Some ?dC,
                        parentViewport := \<lparr>height = 200, width = 410\<rparr>\<rparr>"
  let ?sD = "topLegend\<lparr>orientation := Left, data := Some ?dC,
                        parentViewport := \<lparr>height = 30, width = 410\<rparr>\<rparr>"
  have "case calculateHorizontalLayout fixedPitch ?sA (dataPoints ?dA) None [] of
          Inl e \<Rightarrow> False | Inr (s', pts', ttl', arrows', n) \<Rightarrow> n = 3"
    by (simp add: run_defs)
  then obtain sA' ptsA ttlA arrowsA nA where
    runA: "calculateHorizontalLayout fixedPitch ?sA (dataPoints ?dA) None []
             = Inr (sA', ptsA, ttlA, arrowsA, nA)" and nA: "nA = 3"
    by (auto split: sum.splits)
  have "case calculateHorizontalLayout fixedPitch ?sB (dataPoints ?dB) None [] of
          Inl e \<Rightarrow> False | Inr (s', pts', ttl', arrows', n) \<Rightarrow> n = 1"
    by (simp add: run_defs)
  then obtain sB' ptsB ttlB arrowsB nB where
    runB: "calculateHorizontalLayout fixedPitch ?sB (dataPoints ?dB) None []
             = Inr (sB', ptsB, ttlB, arrowsB, nB)" and nB: "nB = 1"
    by (auto split: sum.splits)
  have "case calculateVerticalLayout fixedPitch ?sC (dataPoints ?dC) None [] True of
          Inl e \<Rightarrow> False | Inr (s', pts', ttl', arrows', n) \<Rightarrow> n = 2"
    by (simp add: run_defs)
  then obtain sC' ptsC ttlC arrowsC nC where
    runC: "calculateVerticalLayout fixedPitch ?sC (dataPoints ?dC) None [] True
             = Inr (sC', ptsC, ttlC, arrowsC, nC)" and nC: "nC = 2"
    by (auto split: sum.splits)
  have "case calculateVerticalLayout fixedPitch ?sD (dataPoints ?dC) None [] True of
          Inl e \<Rightarrow> False | Inr (s', pts', ttl', arrows', n) \<Rightarrow> n = 0"
    by (simp add: run_defs)
  then obtain sD' ptsD ttlD arrowsD nD where
    runD: "calculateVerticalLayout fixedPitch ?sD (dataPoints ?dC) None [] True
             = Inr (sD', ptsD, ttlD, arrowsD, nD)" and nD: "nD = 0"
    by (auto split: sum.splits)
  have budgets:
    "maxTextLength (horizontalMetrics fixedPitch ?sA (dataPoints ?dA) None) = 75"
    "maxHorizontalSpaceAvaliable (verticalMetrics fixedPitch ?sC (dataPoints ?dC) True) = 93"
    by (simp_all add: run_defs)
  have lenA: "length ptsA = 3" and lenC: "length ptsC = 2"
    using calculateHorizontalLayout_count [OF runA] calculateVerticalLayout_count [OF runC]
    by (simp_all add: plainData_def)
  have dat: "data ?sA = Some ?dA" "data ?sB = Some ?dB" "data ?sC = Some ?dC"
    "data ?sD = Some ?dC" by simp_all
  have idx: "0 < length (dataPoints ?dA)" "1 < length (dataPoints ?dA)"
    "2 < length (dataPoints ?dA)" "2 < length (dataPoints ?dB)"
    "0 < length (dataPoints ?dC)" "1 < length (dataPoints ?dC)"
    by (simp_all add: plainData_def)
  note contract = fixedPitch_contract [of 75] fixedPitch_contract [of 93]
  have A: "label (ptsA ! 0) = ''ab''" "label (ptsA ! 1) = ''abcd...''"
    "label (ptsA ! 2) = ''abcdef''"
    "measureSvgTextWidth fixedPitch
       (getTextProperties False (Some (label (ptsA ! 1))) (Some 8)) \<le> 75"
    using label_truncation [OF dat(1) idx(1), of fixedPitch None "[]" sA' ptsA ttlA arrowsA nA,
        THEN conjunct1, THEN mp, OF runA]
      label_truncation [OF dat(1) idx(2), of fixedPitch None "[]" sA' ptsA ttlA arrowsA nA,
        THEN conjunct1, THEN mp, OF runA]
      label_truncation [OF dat(1) idx(3), of fixedPitch None "[]" sA' ptsA ttlA arrowsA nA,
        THEN conjunct1, THEN mp, OF runA]
      nA budgets(1) contract
    by (simp_all add: Let_def plainData_def plainPoint_def fixedPitch_def
        getTextProperties_def itemWidth_def)
  have B: "ptsB ! 2 = plainPoint ''abcdefghijklmnop''"
    using label_truncation [OF dat(2) idx(4), of fixedPitch None "[]" sB' ptsB ttlB arrowsB nB,
        THEN conjunct1, THEN mp, OF runB]
      nB
    by (simp add: Let_def plainData_def)
  have C: "label (ptsC ! 0) = ''ab''" "label (ptsC ! 1) = ''abcdef...''"
    "measureSvgTextWidth fixedPitch
       (getTextProperties False (Some (label (ptsC ! 1))) (Some 8)) \<le> 93"
    using label_truncation [OF dat(3) idx(5), of fixedPitch None "[]"
        sC' ptsC ttlC arrowsC nC True, THEN conjunct2, THEN mp, OF runC]
      label_truncation [OF dat(3) idx(6), of fixedPitch None "[]"
        sC' ptsC ttlC arrowsC nC True, THEN conjunct2, THEN mp, OF runC]
      nC budgets(2) contract
    by (simp_all add: Let_def plainData_def plainPoint_def fixedPitch_def
        getTextProperties_def itemWidth_def)
  have D: "ptsD ! 1 = plainPoint ''abcdefghijklmnop''"
    using label_truncation [OF dat(4) idx(6), of fixedPitch None "[]"
        sD' ptsD ttlD arrowsD nD True, THEN conjunct2, THEN mp, OF runD]
      nD
    by (simp add: Let_def plainData_def)
  from lenA obtain a0 a1 a2 where "ptsA = [a0, a1, a2]"
    by (auto simp add: length_Suc_conv numeral_3_eq_3)
  with A have mapA: "map label ptsA = [''ab'', ''abcd...'', ''abcdef'']" by simp
  from lenC obtain c0 c1 where "ptsC = [c0, c1]"
    by (auto simp add: length_Suc_conv numeral_2_eq_2)
  with C have mapC: "map label ptsC = [''ab'', ''abcdef...'']" by simp
  from runA nA mapA A(4) budgets contract runB nB B runC nC mapC C(3) runD nD D
  show ?thesis by simp
qed

subsection \<open>Navigation arrows\<close>

lemma arrows_horizontal:
  "map dataType (calculateHorizontalNavigationArrowsLayout env s ttl) = [Decrease, Increase]"
  by (simp add: calculateHorizontalNavigationArrowsLayout_def Let_def)

lemma arrows_vertical:
  "map dataType (calculateVerticalNavigationArrowsLayout env s ttl) = [Decrease, Increase]"
  by (simp add: calculateVerticalNavigationArrowsLayout_def Let_def)

text \<open>
  \<^verbatim>\<open>updateNavigationArrowLayout\<close> on the two arrows of a scrollable legend: the arrow
  types that remain and the window size that is stored.
\<close>

lemma updateNavigationArrowLayout_two:
  assumes "map dataType arrows = [Decrease, Increase]"
  shows "map dataType (snd (updateNavigationArrowLayout arrows remaining visible s)) =
           (if legendDataStartIndex s = 0 then [] else [Decrease])
             @ (if visible = remaining then [] else [Increase])"
    and "arrowPosWindow (fst (updateNavigationArrowLayout arrows remaining visible s)) =
           (if visible = remaining then arrowPosWindow s else visible)"
    and "legendDataStartIndex (fst (updateNavigationArrowLayout arrows remaining visible s))
           = legendDataStartIndex s"
proof -
  from assms obtain a b where arrows: "arrows = [a, b]"
    "dataType a = Decrease" "dataType b = Increase"
    by (cases arrows; cases "tl arrows") auto
  then show
    "map dataType (snd (updateNavigationArrowLayout arrows remaining visible s)) =
           (if legendDataStartIndex s = 0 then [] else [Decrease])
             @ (if visible = remaining then [] else [Increase])"
    "arrowPosWindow (fst (updateNavigationArrowLayout arrows remaining visible s)) =
           (if visible = remaining then arrowPosWindow s else visible)"
    "legendDataStartIndex (fst (updateNavigationArrowLayout arrows remaining visible s))
           = legendDataStartIndex s"
    by (simp_all add: updateNavigationArrowLayout_def Let_def)
qed

text \<open>
  The arrows and the window size after a layout pass of a scrollable legend on data that is
  not empty.
\<close>

lemma calculateLayout_arrows:
  assumes "calculateLayout env s d autoWidth = Inr (s', d', layout)"
    and "dataPoints d \<noteq> []" and "isScrollable s"
  shows "(Decrease \<notin> dataType ` set (navigationArrows layout)
            \<longleftrightarrow> legendDataStartIndex s' = 0)
       \<and> (Increase \<notin> dataType ` set (navigationArrows layout)
            \<longleftrightarrow> numberOfItems layout
                  = length (dataPoints d) - nat (legendDataStartIndex s'))
       \<and> arrowPosWindow s' =
           (if numberOfItems layout = length (dataPoints d) - nat (legendDataStartIndex s')
            then arrowPosWindow s else numberOfItems layout)"
  using assms(1,2)
proof (rule calculateLayout_Inr)
  fix ttl pts' ttl' arrows' n
  define s3 where "s3 = prepareLayout env s (dataPoints d)"
  define pts where "pts = drop (nat (legendDataStartIndex s3)) (dataPoints d)"
  assume pass: "(if isTopOrBottom (orientation s)
          then calculateHorizontalLayout env (prepareLayout env s (dataPoints d))
                 (drop (nat (legendDataStartIndex (prepareLayout env s (dataPoints d))))
                    (dataPoints d)) ttl
                 (if isScrollable s
                  then calculateHorizontalNavigationArrowsLayout env
                         (prepareLayout env s (dataPoints d)) ttl
                  else [])
          else calculateVerticalLayout env (prepareLayout env s (dataPoints d))
                 (drop (nat (legendDataStartIndex (prepareLayout env s (dataPoints d))))
                    (dataPoints d)) ttl
                 (if isScrollable s
                  then calculateVerticalNavigationArrowsLayout env
                         (prepareLayout env s (dataPoints d)) ttl
                  else [])
                 autoWidth) = Inr (s', pts', ttl', arrows', n)"
    and layout: "layout = \<lparr>numberOfItems = n, layoutTitle = ttl', navigationArrows = arrows'\<rparr>"
  have len: "length pts = length (dataPoints d) - nat (legendDataStartIndex s3)"
    by (simp add: pts_def)
  have apw: "arrowPosWindow s3 = arrowPosWindow s"
    by (simp add: s3_def prepareLayout_fields)
  have "map dataType arrows' =
          (if legendDataStartIndex s3 = 0 then [] else [Decrease])
            @ (if n = length pts then [] else [Increase])
        \<and> arrowPosWindow s' = (if n = length pts then arrowPosWindow s3 else n)
        \<and> legendDataStartIndex s' = legendDataStartIndex s3"
  proof (cases "isTopOrBottom (orientation s)")
    case True
    with pass assms(3) have
      "calculateHorizontalLayout env s3 pts ttl
         (calculateHorizontalNavigationArrowsLayout env s3 ttl)
       = Inr (s', pts', ttl', arrows', n)"
      by (simp add: s3_def pts_def)
    then show ?thesis
    proof (rule calculateHorizontalLayout_Inr)
      fix occ
      assume "s' = fst (updateNavigationArrowLayout
                          (calculateHorizontalNavigationArrowsLayout env s3 ttl) (length pts) n
                          (s3\<lparr>visibleLegendWidth := occ\<rparr>))"
        and "arrows' = snd (updateNavigationArrowLayout
                          (calculateHorizontalNavigationArrowsLayout env s3 ttl) (length pts) n
                          (s3\<lparr>visibleLegendWidth := occ\<rparr>))"
      then show ?thesis
        using updateNavigationArrowLayout_two [OF arrows_horizontal,
            of env s3 ttl "length pts" n "s3\<lparr>visibleLegendWidth := occ\<rparr>"]
        by simp
    qed
  next
    case False
    with pass assms(3) have
      "calculateVerticalLayout env s3 pts ttl
         (calculateVerticalNavigationArrowsLayout env s3 ttl) autoWidth
       = Inr (s', pts', ttl', arrows', n)"
      by (simp add: s3_def pts_def)
    then show ?thesis
    proof (rule calculateVerticalLayout_Inr)
      fix s2 :: SVGLegend and thusFar spaceUsed :: real
      let ?arrows1 = "map (\<lambda>a. a\<lparr>arrow_x := lastCalculatedWidth s2 / 2\<rparr>)
                        (calculateVerticalNavigationArrowsLayout env s3 ttl)"
      assume s2: "s2 = (resolveLegendWidth s3 (verticalMetrics env s3 pts autoWidth) autoWidth
                          spaceUsed)
                \<lparr>visibleLegendHeight :=
                    thusFar - verticalLegendHeight (verticalMetrics env s3 pts autoWidth)\<rparr>"
        and "s' = fst (updateNavigationArrowLayout ?arrows1 (length pts) n s2)"
        and "arrows' = snd (updateNavigationArrowLayout ?arrows1 (length pts) n s2)"
      moreover have "map dataType ?arrows1 = [Decrease, Increase]"
        using arrows_vertical [of env s3 ttl] by (simp add: comp_def)
      ultimately show ?thesis
        using updateNavigationArrowLayout_two [of ?arrows1 "length pts" n s2]
        by (simp add: resolveLegendWidth_fields)
    qed
  qed
  then have "dataType ` set arrows' =
          set ((if legendDataStartIndex s3 = 0 then [] else [Decrease])
                 @ (if n = length pts then [] else [Increase]))"
    and "arrowPosWindow s' = (if n = length pts then arrowPosWindow s3 else n)"
    and "legendDataStartIndex s' = legendDataStartIndex s3"
    by (simp_all flip: set_map)
  with layout len apw show ?thesis by auto
qed

text \<open>
  Claim C5, as stated for every layout pass, fails where the layout has no arrows to work
  on. A legend that is not scrollable gets no arrows (\<^verbatim>\<open>this.isScrollable ? ... : []\<close>):
  with three items of width 80 in a parent viewport of width 85 the page shows one item of
  three and there is no Increase arrow; in a parent viewport of width 400 all three items
  fit, and \<^verbatim>\<open>updateNavigationArrowLayout\<close>, whose test asks for an arrow in the list,
  stores the page size 3 as \<^verbatim>\<open>arrowPosWindow\<close> instead of keeping the previous value 1.
  And for data without data points \<^verbatim>\<open>calculateLayout\<close> returns at once, with no arrows
  and the start index as it is, also when that is not 0 (after paging forward, a call of
  \<^verbatim>\<open>drawLegend\<close> with no data points).
\<close>

theorem arrow_visibility_counterexample:
  "map_sum id (numberOfItems \<circ> snd)
     (drawLegend fixedPitch (topLegend\<lparr>isScrollable := False\<rparr>)
        (plainData [''abcd'', ''abcd'', ''abcd'']) \<lparr>height = 50, width = 85\<rparr>) = Inr 1
   \<and> map_sum id (navigationArrows \<circ> snd)
       (drawLegend fixedPitch (topLegend\<lparr>isScrollable := False\<rparr>)
          (plainData [''abcd'', ''abcd'', ''abcd'']) \<lparr>height = 50, width = 85\<rparr>) = Inr []
   \<and> map_sum id (numberOfItems \<circ> snd)
       (drawLegend fixedPitch (topLegend\<lparr>isScrollable := False\<rparr>)
          (plainData [''abcd'', ''abcd'', ''abcd'']) \<lparr>height = 50, width = 400\<rparr>) = Inr 3
   \<and> arrowPosWindow (topLegend\<lparr>isScrollable := False\<rparr>) = 1
   \<and> map_sum id (arrowPosWindow \<circ> fst)
       (drawLegend fixedPitch (topLegend\<lparr>isScrollable := False\<rparr>)
          (plainData [''abcd'', ''abcd'', ''abcd'']) \<lparr>height = 50, width = 400\<rparr>) = Inr 3
   \<and> map_sum id (navigationArrows \<circ> snd \<circ> snd)
       (calculateLayout fixedPitch (topLegend\<lparr>legendDataStartIndex := 2\<rparr>) (plainData [])
          True) = Inr []
   \<and> map_sum id (legendDataStartIndex \<circ> fst)
       (calculateLayout fixedPitch (topLegend\<lparr>legendDataStartIndex := 2\<rparr>) (plainData [])
          True) = Inr 2"
  by (simp add: run_defs)

text \<open>
  Claim C5, amended. After a layout pass of a scrollable legend on data that is not empty,
  the Decrease arrow is absent from the returned arrows exactly when the start index is 0;
  the Increase arrow is absent exactly when \<^verbatim>\<open>numberOfItems\<close> equals the number of data
  points from the start index on; and \<^verbatim>\<open>arrowPosWindow\<close> keeps its previous value in
  that case and is \<^verbatim>\<open>numberOfItems\<close> otherwise.
\<close>

theorem arrow_visibility:
  assumes "calculateLayout env s d autoWidth = Inr (s', d', layout)"
    and "dataPoints d \<noteq> []" and "isScrollable s"
  shows "(Decrease \<notin> dataType ` set (navigationArrows layout)
            \<longleftrightarrow> legendDataStartIndex s' = 0)
       \<and> (Increase \<notin> dataType ` set (navigationArrows layout)
            \<longleftrightarrow> numberOfItems layout
                  = length (dataPoints d) - nat (legendDataStartIndex s'))
       \<and> arrowPosWindow s' =
           (if numberOfItems layout = length (dataPoints d) - nat (legendDataStartIndex s')
            then arrowPosWindow s else numberOfItems layout)"
  using assms by (rule calculateLayout_arrows)

theorem arrow_visibility_witness:
  "(\<exists>s' d' layout.
      calculateLayout fixedPitch
        (topLegend\<lparr>data := Some (plainData [''abcd'', ''abcd'', ''abcd'']),
                   parentViewport := \<lparr>height = 50, width = 85\<rparr>\<rparr>)
        (plainData [''abcd'', ''abcd'', ''abcd'']) True = Inr (s', d', layout)
      \<and> legendDataStartIndex s' = 0 \<and> numberOfItems layout = 1
      \<and> Decrease \<notin> dataType ` set (navigationArrows layout)
      \<and> \<not> Increase \<notin> dataType ` set (navigationArrows layout)
      \<and> arrowPosWindow s' = 1)
   \<and> (\<exists>s' d' layout.
      calculateLayout fixedPitch
        (topLegend\<lparr>data := Some (plainData [''abcd'', ''abcd'', ''abcd'']),
                   parentViewport := \<lparr>height = 50, width = 400\<rparr>,
                   legendDataStartIndex := 1, arrowPosWindow := 1\<rparr>)
        (plainData [''abcd'', ''abcd'', ''abcd'']) True = Inr (s', d', layout)
      \<and> legendDataStartIndex s' = 1 \<and> numberOfItems layout = 2
      \<and> \<not> Decrease \<notin> dataType ` set (navigationArrows layout)
      \<and> Increase \<notin> dataType ` set (navigationArrows layout)
      \<and> arrowPosWindow s' = 1)
   \<and> dataPoints (plainData [''abcd'', ''abcd'', ''abcd'']) \<noteq> []
   \<and> isScrollable topLegend"
proof -
  let ?d = "plainData [''abcd'', ''abcd'', ''abcd'']"
  let ?a = "topLegend\<lparr>data := Some ?d, parentViewport := \<lparr>height = 50, width = 85\<rparr>\<rparr>"
  let ?b = "topLegend\<lparr>data := Some ?d, parentViewport := \<lparr>height = 50, width = 400\<rparr>,
                       legendDataStartIndex := 1, arrowPosWindow := 1\<rparr>"
  have "case calculateLayout fixedPitch ?a ?d True of
          Inl e \<Rightarrow> False
        | Inr (s', d', layout) \<Rightarrow> legendDataStartIndex s' = 0 \<and> numberOfItems layout = 1"
    by (simp add: run_defs)
  then obtain sa da la where
    a: "calculateLayout fixedPitch ?a ?d True = Inr (sa, da, la)"
    "legendDataStartIndex sa = 0" "numberOfItems la = 1"
    by (auto split: sum.splits)
  have "case calculateLayout fixedPitch ?b ?d True of
          Inl e \<Rightarrow> False
        | Inr (s', d', layout) \<Rightarrow> legendDataStartIndex s' = 1 \<and> numberOfItems layout = 2"
    by (simp add: run_defs)
  then obtain sb db lb where
    b: "calculateLayout fixedPitch ?b ?d True = Inr (sb, db, lb)"
    "legendDataStartIndex sb = 1" "numberOfItems lb = 2"
    by (auto split: sum.splits)
  have pre: "dataPoints ?d \<noteq> []" "isScrollable ?a" "isScrollable ?b" "isScrollable topLegend"
    "length (dataPoints ?d) = 3" "arrowPosWindow ?a = 1" "arrowPosWindow ?b = 1"
    by (simp_all add: plainData_def topLegend_def)
  have A: "Decrease \<notin> dataType ` set (navigationArrows la)"
    "\<not> Increase \<notin> dataType ` set (navigationArrows la)" "arrowPosWindow sa = 1"
    using arrow_visibility [OF a(1) pre(1,2)] a(2,3) pre(5,6) by simp_all
  have B: "\<not> Decrease \<notin> dataType ` set (navigationArrows lb)"
    "Increase \<notin> dataType ` set (navigationArrows lb)" "arrowPosWindow sb = 1"
    using arrow_visibility [OF b(1) pre(1,3)] b(2,3) pre(5,7) by simp_all
  from a b A B pre(1,4) show ?thesis by blast
qed

subsection \<open>Drawing a visible legend\<close>

lemma calculateViewport_Inr:
  assumes "calculateViewport env s = Inr s'"
  shows "\<exists>v. s' = s\<lparr>viewport := v\<rparr>"
  using assms
  by (cases "orientation s")
    (auto simp add: calculateViewport_def Let_def split: option.splits)

lemma updateLayout_fields:
  "legendDataStartIndex (updateLayout s) = legendDataStartIndex s"
  "arrowPosWindow (updateLayout s) = arrowPosWindow s"
  "orientation (updateLayout s) = orientation s"
  "isScrollable (updateLayout s) = isScrollable s"
  "data (updateLayout s) = data s"
  "parentViewport (updateLayout s) = parentViewport s"
  by (simp_all add: updateLayout_def Let_def)

text \<open>
  The fields a layout pass on data that is not empty leaves alone, the start index it
  stores, and the data it returns.
\<close>

lemma calculateLayout_frame:
  assumes "calculateLayout env s d autoWidth = Inr (s', d', layout)"
    and "dataPoints d \<noteq> []"
  shows "legendDataStartIndex s' = legendDataStartIndex (normalizePosition (dataPoints d) s)
       \<and> orientation s' = orientation s \<and> isScrollable s' = isScrollable s
       \<and> parentViewport s' = parentViewport s
       \<and> length (dataPoints d') = length (dataPoints d)"
  using assms
proof (rule calculateLayout_Inr)
  fix ttl pts' ttl' arrows' n
  define s3 where "s3 = prepareLayout env s (dataPoints d)"
  define pts where "pts = drop (nat (legendDataStartIndex s3)) (dataPoints d)"
  assume pass: "(if isTopOrBottom (orientation s)
          then calculateHorizontalLayout env (prepareLayout env s (dataPoints d))
                 (drop (nat (legendDataStartIndex (prepareLayout env s (dataPoints d))))
                    (dataPoints d)) ttl
                 (if isScrollable s
                  then calculateHorizontalNavigationArrowsLayout env
                         (prepareLayout env s (dataPoints d)) ttl
                  else [])
          else calculateVerticalLayout env (prepareLayout env s (dataPoints d))
                 (drop (nat (legendDataStartIndex (prepareLayout env s (dataPoints d))))
                    (dataPoints d)) ttl
                 (if isScrollable s
                  then calculateVerticalNavigationArrowsLayout env
                         (prepareLayout env s (dataPoints d)) ttl
                  else [])
                 autoWidth) = Inr (s', pts', ttl', arrows', n)"
    and d': "d' = d\<lparr>dataPoints :=
               take (nat (legendDataStartIndex (prepareLayout env s (dataPoints d))))
                 (dataPoints d) @ pts'\<rparr>"
  have "legendDataStartIndex s' = legendDataStartIndex s3 \<and> orientation s' = orientation s3
      \<and> isScrollable s' = isScrollable s3 \<and> parentViewport s' = parentViewport s3
      \<and> length pts' = length pts"
  proof (cases "isTopOrBottom (orientation s)")
    case True
    with pass obtain arrows where
      h: "calculateHorizontalLayout env s3 pts ttl arrows = Inr (s', pts', ttl', arrows', n)"
      by (simp add: s3_def pts_def)
    from h have "length pts' = length pts" by (simp add: calculateHorizontalLayout_count)
    moreover from h have "legendDataStartIndex s' = legendDataStartIndex s3
      \<and> orientation s' = orientation s3 \<and> isScrollable s' = isScrollable s3
      \<and> parentViewport s' = parentViewport s3"
      by (rule calculateHorizontalLayout_Inr) (simp add: updateNavigationArrowLayout_frame)
    ultimately show ?thesis by simp
  next
    case False
    with pass obtain arrows where
      v: "calculateVerticalLayout env s3 pts ttl arrows autoWidth
            = Inr (s', pts', ttl', arrows', n)"
      by (simp add: s3_def pts_def)
    from v have "length pts' = length pts" by (simp add: calculateVerticalLayout_count)
    moreover from v have "legendDataStartIndex s' = legendDataStartIndex s3
      \<and> orientation s' = orientation s3 \<and> isScrollable s' = isScrollable s3
      \<and> parentViewport s' = parentViewport s3"
      by (rule calculateVerticalLayout_Inr)
        (simp add: updateNavigationArrowLayout_frame resolveLegendWidth_def Let_def)
    ultimately show ?thesis by simp
  qed
  moreover have "legendDataStartIndex s3 < int (length (dataPoints d))"
    unfolding s3_def prepareLayout_fields using assms(2) by (rule normalizePosition_nonempty)
  ultimately show ?thesis
    using d' by (auto simp add: s3_def pts_def prepareLayout_fields)
qed

lemma drawLegendInternal_visible:
  assumes "drawLegendInternal env s d vp autoWidth = Inr (s', layout)"
    and "dataPoints d \<noteq> []" and "orientation s \<noteq> NonePosition"
  obtains v s6 d2 where
    "calculateLayout env
       (s\<lparr>parentViewport := vp, data := Some d, showPrimary := (primaryType d \<noteq> ''None''),
          viewport := v\<rparr>) d autoWidth = Inr (s6, d2, layout)"
    and "s' = updateLayout (s6\<lparr>data := Some d2\<rparr>)"
proof -
  let ?s4 = "s\<lparr>parentViewport := vp, data := Some d,
               showPrimary := (primaryType d \<noteq> ''None'')\<rparr>"
  from assms obtain s5 where s5: "calculateViewport env ?s4 = Inr s5"
    by (auto simp add: drawLegendInternal_def Let_def getOrientation_def andThen_Inr
        split: if_splits)
  then obtain v where v: "s5 = ?s4\<lparr>viewport := v\<rparr>"
    using calculateViewport_Inr by blast
  from assms s5 obtain q where q: "calculateLayout env s5 d autoWidth = Inr q"
    by (auto simp add: drawLegendInternal_def Let_def getOrientation_def andThen_Inr
        split: if_splits)
  obtain s6 d2 l where "q = (s6, d2, l)" by (cases q) auto
  with assms s5 q have "l = layout" "s' = updateLayout (s6\<lparr>data := Some d2\<rparr>)"
    by (auto simp add: drawLegendInternal_def Let_def getOrientation_def split: if_splits)
  with q \<open>q = (s6, d2, l)\<close> v that show thesis by simp
qed


subsection \<open>Paging forth and back\<close>





subsection \<open>Drawing twice\<close>

lemma calculateHorizontalLayout_again:
  assumes "calculateHorizontalLayout env s pts ttl arrows = Inr (s', pts', ttl', arrows', n)"
  shows "calculateHorizontalLayout env (s'\<lparr>svgHeight := b, svgWidth := c\<rparr>) pts ttl arrows
           = Inr (s'\<lparr>svgHeight := b, svgWidth := c\<rparr>, pts', ttl', arrows', n)
       \<and> (\<exists>occ p. s' = s\<lparr>visibleLegendWidth := occ, arrowPosWindow := p\<rparr>)"
  using assms
proof (rule calculateHorizontalLayout_Inr)
  fix occ broke
  assume loop: "horizontalLoop env (data s) (showPrimary s) (width (parentViewport s))
        (horizontalMetrics env s pts ttl) (horizontalOccupiedStart s ttl) 0 pts
       = Inr (pts', occ, broke)"
    and n: "n = (case broke of None \<Rightarrow> length pts | Some itr \<Rightarrow> itr)"
    and s': "s' = fst (updateNavigationArrowLayout arrows (length pts) n
                     (s\<lparr>visibleLegendWidth := occ\<rparr>))"
    and arrows': "arrows' = snd (updateNavigationArrowLayout arrows (length pts) n
                          (s\<lparr>visibleLegendWidth := occ\<rparr>))"
    and ttl': "ttl' = map_option
                  (\<lambda>lay. lay\<lparr>title_y := fixedTextShift (horizontalMetrics env s pts ttl)\<rparr>) ttl"
    and guard: "\<not> (showPrimary s \<and> (case pts of [] \<Rightarrow> True | p # _ \<Rightarrow> measure' p = None))"
  let ?t = "s'\<lparr>svgHeight := b, svgWidth := c\<rparr>"
  define p where "p = (if 0 < length (if legendDataStartIndex s = 0 then tl arrows else arrows)
                         \<and> n = length pts then arrowPosWindow s else n)"
  from s' have s'_eq: "s' = s\<lparr>visibleLegendWidth := occ, arrowPosWindow := p\<rparr>"
    by (simp add: updateNavigationArrowLayout_frame p_def)
  have same: "horizontalMetrics env ?t pts ttl = horizontalMetrics env s pts ttl"
    "horizontalOccupiedStart ?t ttl = horizontalOccupiedStart s ttl"
    "data ?t = data s" "showPrimary ?t = showPrimary s" "parentViewport ?t = parentViewport s"
    by (simp_all add: s'_eq horizontalMetrics_def horizontalOccupiedStart_def Let_def)
  have nav: "updateNavigationArrowLayout arrows (length pts) n (?t\<lparr>visibleLegendWidth := occ\<rparr>)
               = (?t, arrows')"
    by (simp add: arrows' s'_eq p_def updateNavigationArrowLayout_def Let_def)
  have "calculateHorizontalLayout env ?t pts ttl arrows = Inr (?t, pts', ttl', arrows', n)"
    unfolding calculateHorizontalLayout_def Let_def same
    using guard by (simp add: loop n [symmetric] nav ttl')
  with s'_eq show ?thesis by blast
qed


lemma calculateVerticalLayout_again:
  assumes "calculateVerticalLayout env s pts ttl arrows True = Inr (s', pts', ttl', arrows', n)"
  shows "calculateVerticalLayout env
           (s'\<lparr>viewport := (viewport s')\<lparr>width := vw\<rparr>, svgHeight := b, svgWidth := c\<rparr>) pts
           (map_option (title_text_update (\<lambda>_. u)) ttl) arrows True
           = Inr (s'\<lparr>svgHeight := b, svgWidth := c\<rparr>, pts', ttl', arrows', n)
       \<and> (\<exists>w h p. s' = s\<lparr>lastCalculatedWidth := w, viewport := (viewport s)\<lparr>width := w\<rparr>,
                          visibleLegendHeight := h, arrowPosWindow := p\<rparr>)"
  using assms
proof (rule calculateVerticalLayout_Inr)
  fix thusFar spaceUsed :: real and broke and s2 :: SVGLegend
  let ?m = "verticalMetrics env s pts True"
  assume loop: "verticalLoop env (data s) (showPrimary s) (legendFontSizeMarginDifference s)
        (height (parentViewport s)) ?m (verticalOccupiedStart s ?m ttl)
        (case ttl of Some lay \<Rightarrow> title_width lay | None \<Rightarrow> 0) 0 pts
       = Inr (pts', thusFar, spaceUsed, broke)"
    and n: "n = (case broke of None \<Rightarrow> length pts | Some itr \<Rightarrow> itr)"
    and s2: "s2 = (resolveLegendWidth s ?m True spaceUsed)
                \<lparr>visibleLegendHeight := thusFar - verticalLegendHeight ?m\<rparr>"
    and s': "s' = fst (updateNavigationArrowLayout
                     (map (\<lambda>a. a\<lparr>arrow_x := lastCalculatedWidth s2 / 2\<rparr>) arrows)
                     (length pts) n s2)"
    and arrows': "arrows' = snd (updateNavigationArrowLayout
                          (map (\<lambda>a. a\<lparr>arrow_x := lastCalculatedWidth s2 / 2\<rparr>) arrows)
                          (length pts) n s2)"
  let ?t = "s'\<lparr>viewport := (viewport s')\<lparr>width := vw\<rparr>, svgHeight := b, svgWidth := c\<rparr>"
  let ?ttl = "map_option (title_text_update (\<lambda>_. u)) ttl"
  define w where "w = (if spaceUsed < maxHorizontalSpaceAvaliable ?m
                  then real_of_int \<lceil>spaceUsed + fixedHorizontalTextShift ?m
                                      + LegendEdgeMariginWidth\<rceil>
                  else real_of_int \<lceil>width (parentViewport s) * LegendMaxWidthFactor\<rceil>)"
  define h where "h = thusFar - verticalLegendHeight ?m"
  define arrows1 where "arrows1 = map (\<lambda>a. a\<lparr>arrow_x := w / 2\<rparr>) arrows"
  define p where "p = (if 0 < length (if legendDataStartIndex s = 0 then tl arrows1 else arrows1)
                         \<and> n = length pts then arrowPosWindow s else n)"
  from s2 have s2_eq: "s2 = s\<lparr>lastCalculatedWidth := w, viewport := (viewport s)\<lparr>width := w\<rparr>,
                             visibleLegendHeight := h\<rparr>"
    by (simp add: resolveLegendWidth_def Let_def w_def h_def)
  from s' have s'_eq: "s' = s2\<lparr>arrowPosWindow := p\<rparr>"
    by (simp add: updateNavigationArrowLayout_frame p_def s2_eq arrows1_def)
  have same: "verticalMetrics env ?t pts True = ?m"
    "verticalOccupiedStart ?t ?m ?ttl = verticalOccupiedStart s ?m ttl"
    "data ?t = data s" "showPrimary ?t = showPrimary s"
    "legendFontSizeMarginDifference ?t = legendFontSizeMarginDifference s"
    "parentViewport ?t = parentViewport s"
    "(case ?ttl of Some lay \<Rightarrow> title_width lay | None \<Rightarrow> 0)
       = (case ttl of Some lay \<Rightarrow> title_width lay | None \<Rightarrow> 0)"
    by (simp_all add: s'_eq s2_eq verticalMetrics_def verticalOccupiedStart_def Let_def
        split: option.splits)
  let ?t2 = "s2\<lparr>arrowPosWindow := p, svgHeight := b, svgWidth := c\<rparr>"
  have t2: "(resolveLegendWidth ?t ?m True spaceUsed)
               \<lparr>visibleLegendHeight := thusFar - verticalLegendHeight ?m\<rparr> = ?t2"
    by (simp add: s'_eq s2_eq resolveLegendWidth_def Let_def w_def h_def)
  have lw: "lastCalculatedWidth (resolveLegendWidth ?t ?m True spaceUsed) = w"
    by (simp add: s'_eq s2_eq resolveLegendWidth_def Let_def w_def)
  have nav: "updateNavigationArrowLayout
               (map (\<lambda>a. a\<lparr>arrow_x := lastCalculatedWidth s2 / 2\<rparr>) arrows)
               (length pts) n ?t2
             = (s'\<lparr>svgHeight := b, svgWidth := c\<rparr>, arrows')"
    by (simp add: arrows' s'_eq s2_eq p_def arrows1_def updateNavigationArrowLayout_def Let_def)
  let ?step = "\<lambda>st tl.
       (case map_option (\<lambda>lay. lay\<lparr>title_x := TextAndIconPadding,
                                    title_y := spaceNeededByTitle ?m\<rparr>) tl of
          None \<Rightarrow> Inr None
        | Some lay \<Rightarrow>
            (case data st of
               None \<Rightarrow> Inl TypeError
             | Some d \<Rightarrow>
                 andThen (tailoredText env (getTextProperties True (title d) (fontSize d))
                            (width (viewport st)))
                   (\<lambda>t. Inr (Some (lay\<lparr>title_text := t\<rparr>)))))"
  have step: "?step s2 ttl = Inr ttl'"
    using assms loop
    by (cases ttl)
      (auto simp add: calculateVerticalLayout_def Let_def split_beta s2 andThen_Inr
        split: option.splits)
  have step2: "?step ?t2 ?ttl = Inr ttl'"
    using step by (cases ttl) (simp_all add: s2_eq split: option.splits)
  have step3: "?step ((resolveLegendWidth ?t ?m True spaceUsed)
                        \<lparr>visibleLegendHeight := thusFar - verticalLegendHeight ?m\<rparr>) ?ttl
                 = Inr ttl'"
    unfolding t2 by (rule step2)
  have "calculateVerticalLayout env ?t pts ?ttl arrows True
          = Inr (s'\<lparr>svgHeight := b, svgWidth := c\<rparr>, pts', ttl', arrows', n)"
    unfolding calculateVerticalLayout_def Let_def same loop prod.case n [symmetric] step3
      andThen_simps
    by (simp add: t2 lw nav)
  with s'_eq s2_eq show ?thesis by blast
qed


lemma calculateTitleLayout_agree:
  assumes "orientation t = orientation s"
    and "legendFontSizeMarginValue t = legendFontSizeMarginValue s"
    and "legendFontSizeMarginDifference t = legendFontSizeMarginDifference s"
    and "parentViewport t = parentViewport s" and "data t = data s"
  shows "isTopOrBottom (orientation s)
           \<Longrightarrow> calculateTitleLayout env t x = calculateTitleLayout env s x"
    and "calculateTitleLayout env s x = Inr ttl
           \<Longrightarrow> \<exists>u. calculateTitleLayout env t x
                     = Inr (map_option (title_text_update (\<lambda>_. u)) ttl)"
proof -
  show "calculateTitleLayout env t x = calculateTitleLayout env s x"
    if "isTopOrBottom (orientation s)"
    unfolding calculateTitleLayout_def Let_def assms eqTrueI [OF that] not_True_eq_False
      simp_thms if_False if_True
    by (rule TrueI)
  show "\<exists>u. calculateTitleLayout env t x = Inr (map_option (title_text_update (\<lambda>_. u)) ttl)"
    if "calculateTitleLayout env s x = Inr ttl"
  proof (cases "x = None \<or> x = Some []")
    case True
    with that show ?thesis by (auto simp add: calculateTitleLayout_def)
  next
    case False
    then obtain tt where x: "x = Some tt" "tt \<noteq> []" by auto
    from that x obtain fs where fs: "thisDataFontSize (data s) = Inr fs"
      by (auto simp add: calculateTitleLayout_def Let_def andThen_Inr)
    from that show ?thesis
      unfolding calculateTitleLayout_def Let_def assms x fs by auto
  qed
qed


lemma prepareLayout_again:
  assumes "pts \<noteq> []" and "data t = data s"
    and "legendFontSizeMarginValue t = legendFontSizeMarginValue (prepareLayout env s pts)"
    and "legendFontSizeMarginDifference t
           = legendFontSizeMarginDifference (prepareLayout env s pts)"
    and "legendDataStartIndex t = legendDataStartIndex (prepareLayout env s pts)"
  shows "prepareLayout env t pts = t"
proof -
  have range: "0 \<le> legendDataStartIndex t" "legendDataStartIndex t < int (length pts)"
    unfolding assms(5) prepareLayout_fields using assms(1)
    by (rule normalizePosition_nonempty)+
  have a: "fromPointToPixel env
             (case data t of
                None \<Rightarrow> DefaultFontSizeInPt
              | Some td \<Rightarrow> (case fontSize td of
                             None \<Rightarrow> DefaultFontSizeInPt
                           | Some f \<Rightarrow> f)) = legendFontSizeMarginValue t"
    unfolding assms(2,3) by (simp add: prepareLayout_def normalizePosition_def Let_def)
  have b: "legendFontSizeMarginValue t - DefaultTextMargin env
             = legendFontSizeMarginDifference t"
    unfolding assms(3,4) by (simp add: prepareLayout_fields)
  from range show ?thesis
    by (simp add: prepareLayout_def normalizePosition_def Let_def a b)
qed

lemma navigationArrows_agree:
  assumes "height (viewport t) = height (viewport s)" and "parentViewport t = parentViewport s"
  shows "calculateHorizontalNavigationArrowsLayout env t ttl
           = calculateHorizontalNavigationArrowsLayout env s ttl"
    and "calculateVerticalNavigationArrowsLayout env t
           (map_option (title_text_update (\<lambda>_. u)) ttl)
           = calculateVerticalNavigationArrowsLayout env s ttl"
  by (cases ttl;
      simp add: calculateHorizontalNavigationArrowsLayout_def
        calculateVerticalNavigationArrowsLayout_def Let_def assms)+

text \<open>
  A second layout pass, with automatic width, on the state the first one leaves: whatever
  the viewport width and the size of the \<^verbatim>\<open>svg\<close> element then are, it returns what the
  first one returned.
\<close>

lemma calculateLayout_again:
  assumes run: "calculateLayout env s d True = Inr (s', d', layout)"
    and pts: "dataPoints d \<noteq> []"
    and vw: "isTopOrBottom (orientation s) \<Longrightarrow> vw = width (viewport s)"
  shows "calculateLayout env
           (s'\<lparr>viewport := (viewport s')\<lparr>width := vw\<rparr>, svgHeight := b, svgWidth := c\<rparr>)
           d True = Inr (s'\<lparr>svgHeight := b, svgWidth := c\<rparr>, d', layout)
       \<and> data s' = data s \<and> showPrimary s' = showPrimary s
       \<and> height (viewport s') = height (viewport s)"
  using run pts
proof (rule calculateLayout_Inr)
  fix ttl pts' ttl' arrows' n
  define s3 where "s3 = prepareLayout env s (dataPoints d)"
  define start where "start = nat (legendDataStartIndex s3)"
  let ?t = "s'\<lparr>viewport := (viewport s')\<lparr>width := vw\<rparr>, svgHeight := b, svgWidth := c\<rparr>"
  let ?goal = "(calculateLayout env ?t d True = Inr (s'\<lparr>svgHeight := b, svgWidth := c\<rparr>, d', layout))
     \<and> data s' = data s \<and> showPrimary s' = showPrimary s
     \<and> height (viewport s') = height (viewport s)"
  assume ttl: "calculateTitleLayout env (prepareLayout env s (dataPoints d)) (title d) = Inr ttl"
    and pass: "(if isTopOrBottom (orientation s)
          then calculateHorizontalLayout env (prepareLayout env s (dataPoints d))
                 (drop (nat (legendDataStartIndex (prepareLayout env s (dataPoints d))))
                    (dataPoints d)) ttl
                 (if isScrollable s
                  then calculateHorizontalNavigationArrowsLayout env
                         (prepareLayout env s (dataPoints d)) ttl
                  else [])
          else calculateVerticalLayout env (prepareLayout env s (dataPoints d))
                 (drop (nat (legendDataStartIndex (prepareLayout env s (dataPoints d))))
                    (dataPoints d)) ttl
                 (if isScrollable s
                  then calculateVerticalNavigationArrowsLayout env
                         (prepareLayout env s (dataPoints d)) ttl
                  else [])
                 True) = Inr (s', pts', ttl', arrows', n)"
    and layout: "layout = \<lparr>numberOfItems = n, layoutTitle = ttl', navigationArrows = arrows'\<rparr>"
    and d': "d' = d\<lparr>dataPoints :=
               take (nat (legendDataStartIndex (prepareLayout env s (dataPoints d))))
                 (dataPoints d) @ pts'\<rparr>"
  have sliced: "legendDataStartIndex s3 < int (length (dataPoints d))"
    unfolding s3_def prepareLayout_fields using pts by (rule normalizePosition_nonempty)
  show ?goal
  proof (cases "isTopOrBottom (orientation s)")
    case True
    let ?arrows = "if isScrollable s then calculateHorizontalNavigationArrowsLayout env s3 ttl
                   else []"
    from pass True have
      h: "calculateHorizontalLayout env s3 (drop start (dataPoints d)) ttl ?arrows
            = Inr (s', pts', ttl', arrows', n)"
      unfolding s3_def start_def by (simp only: if_True)
    define t' where "t' = s'\<lparr>svgHeight := b, svgWidth := c\<rparr>"
    from calculateHorizontalLayout_again [OF h, where b = b and c = c]
    have again: "calculateHorizontalLayout env t' (drop start (dataPoints d)) ttl ?arrows
                   = Inr (t', pts', ttl', arrows', n)"
      and "\<exists>occ p. s' = s3\<lparr>visibleLegendWidth := occ, arrowPosWindow := p\<rparr>"
      by (simp_all add: t'_def)
    then obtain occ p where s': "s' = s3\<lparr>visibleLegendWidth := occ, arrowPosWindow := p\<rparr>"
      by blast
    from True have width: "vw = width (viewport s)" by (rule vw)
    have t: "?t = t'"
      by (simp add: t'_def s' width s3_def prepareLayout_fields)
    have prep: "prepareLayout env t' (dataPoints d) = t'"
      by (rule prepareLayout_again [OF pts, where s = s])
        (simp_all add: t'_def s' s3_def prepareLayout_fields)
    have title: "calculateTitleLayout env t' (title d) = Inr ttl"
      unfolding ttl [symmetric]
      by (rule calculateTitleLayout_agree(1))
        (simp_all add: t'_def s' s3_def prepareLayout_fields True)
    have arrows: "calculateHorizontalNavigationArrowsLayout env t' ttl
                    = calculateHorizontalNavigationArrowsLayout env s3 ttl"
      by (rule navigationArrows_agree(1)) (simp_all add: t'_def s')
    have fields: "isTopOrBottom (orientation t')" "isScrollable t' = isScrollable s"
      "legendDataStartIndex t' = legendDataStartIndex s3"
      using True by (simp_all add: t'_def s' s3_def prepareLayout_fields)
    have "calculateLayout env t' d True =
            andThen (calculateHorizontalLayout env t' (drop start (dataPoints d)) ttl ?arrows)
              (\<lambda>(s4, pts', ttl', arrows, n).
                 Inr (s4, d\<lparr>dataPoints := take start (dataPoints d) @ pts'\<rparr>,
                      \<lparr>numberOfItems = n, layoutTitle = ttl', navigationArrows = arrows\<rparr>))"
      unfolding calculateLayout_def Let_def prep title andThen_simps fields arrows
      using pts sliced fields(1) by (simp add: start_def)
    also have "\<dots> = Inr (t', d', layout)"
      unfolding again by (simp add: layout d' start_def s3_def)
    finally show ?thesis
      unfolding t by (simp add: t'_def s' s3_def prepareLayout_fields)
  next
    case False
    let ?arrows = "if isScrollable s then calculateVerticalNavigationArrowsLayout env s3 ttl
                   else []"
    from pass False have
      v: "calculateVerticalLayout env s3 (drop start (dataPoints d)) ttl ?arrows True
            = Inr (s', pts', ttl', arrows', n)"
      unfolding s3_def start_def by (simp only: if_False)
    define tt where "tt = ?t"
    define t' where "t' = s'\<lparr>svgHeight := b, svgWidth := c\<rparr>"
    from calculateVerticalLayout_again [OF v, where b = b and c = c and vw = vw]
    have again: "\<And>u. calculateVerticalLayout env tt (drop start (dataPoints d))
                        (map_option (title_text_update (\<lambda>_. u)) ttl) ?arrows True
                   = Inr (t', pts', ttl', arrows', n)"
      and "\<exists>w h p. s' = s3\<lparr>lastCalculatedWidth := w, viewport := (viewport s3)\<lparr>width := w\<rparr>,
                             visibleLegendHeight := h, arrowPosWindow := p\<rparr>"
      by (simp_all add: t'_def tt_def)
    then obtain w h p where
      s': "s' = s3\<lparr>lastCalculatedWidth := w, viewport := (viewport s3)\<lparr>width := w\<rparr>,
                    visibleLegendHeight := h, arrowPosWindow := p\<rparr>"
      by blast
    have prep: "prepareLayout env tt (dataPoints d) = tt"
      by (rule prepareLayout_again [OF pts, where s = s])
        (simp_all add: tt_def s' s3_def prepareLayout_fields)
    from ttl have "\<exists>u. calculateTitleLayout env tt (title d)
                        = Inr (map_option (title_text_update (\<lambda>_. u)) ttl)"
      unfolding s3_def [symmetric]
      by (rule calculateTitleLayout_agree(2) [rotated -1])
        (simp_all add: tt_def s' s3_def prepareLayout_fields)
    then obtain u where
      title: "calculateTitleLayout env tt (title d)
                = Inr (map_option (title_text_update (\<lambda>_. u)) ttl)" ..
    have arrows: "calculateVerticalNavigationArrowsLayout env tt
                    (map_option (title_text_update (\<lambda>_. u)) ttl)
                    = calculateVerticalNavigationArrowsLayout env s3 ttl"
      by (rule navigationArrows_agree(2)) (simp_all add: tt_def s')
    have fields: "\<not> isTopOrBottom (orientation tt)" "isScrollable tt = isScrollable s"
      "legendDataStartIndex tt = legendDataStartIndex s3"
      using False by (simp_all add: tt_def s' s3_def prepareLayout_fields)
    have "calculateLayout env tt d True =
            andThen (calculateVerticalLayout env tt (drop start (dataPoints d))
                       (map_option (title_text_update (\<lambda>_. u)) ttl) ?arrows True)
              (\<lambda>(s4, pts', ttl', arrows, n).
                 Inr (s4, d\<lparr>dataPoints := take start (dataPoints d) @ pts'\<rparr>,
                      \<lparr>numberOfItems = n, layoutTitle = ttl', navigationArrows = arrows\<rparr>))"
      unfolding calculateLayout_def Let_def prep title andThen_simps fields arrows
      using pts sliced fields(1) by (simp add: start_def)
    also have "\<dots> = Inr (t', d', layout)"
      unfolding again by (simp add: layout d' start_def s3_def)
    finally show ?thesis
      unfolding tt_def by (simp add: t'_def s' s3_def prepareLayout_fields)
  qed
qed


text \<open>
  \<^verbatim>\<open>calculateViewport\<close> on two legends with the same orientation and data: the
  viewports differ at most in the width, and only for a left or right legend, where the
  width comes from \<^verbatim>\<open>lastCalculatedWidth\<close> and the parent viewport.
\<close>

lemma calculateViewport_agree:
  assumes "calculateViewport env s = Inr s'"
    and "orientation t = orientation s" and "data t = data s"
  shows "\<exists>vw. calculateViewport env t = Inr (t\<lparr>viewport := (viewport s')\<lparr>width := vw\<rparr>\<rparr>)
              \<and> (isTopOrBottom (orientation s) \<longrightarrow> vw = width (viewport s'))"
  using assms(1)
  by (cases "orientation s"; cases "data s")
    (auto simp add: calculateViewport_def Let_def assms(2,3))

lemma drawLegendInternal_again:
  assumes run: "drawLegendInternal env s d vp True = Inr (s1, l1)"
  shows "drawLegendInternal env s1 d vp True = Inr (s1, l1)"
proof (cases "dataPoints d = [] \<or> orientation s = NonePosition")
  case True
  from run have "s1 = s\<lparr>parentViewport := vp, data := Some (d\<lparr>dataPoints := []\<rparr>),
                  orientation := NonePosition,
                  showPrimary := (primaryType d \<noteq> ''None''),
                  viewport := \<lparr>height = 0, width = 0\<rparr>, svgHeight := 0, svgWidth := 0\<rparr>"
    and "l1 = emptyLayout"
    unfolding drawLegendInternal_hidden [OF True] by simp_all
  then show ?thesis
    by (simp add: drawLegendInternal_hidden)
next
  case False
  then have pts: "dataPoints d \<noteq> []" and vis: "orientation s \<noteq> NonePosition" by simp_all
  define sp where "sp = (primaryType d \<noteq> ''None'')"
  define s4 where "s4 = s\<lparr>parentViewport := vp, data := Some d, showPrimary := sp\<rparr>"
  from run pts vis obtain s5 where s5: "calculateViewport env s4 = Inr s5"
    by (auto simp add: drawLegendInternal_def Let_def getOrientation_def andThen_Inr s4_def
        sp_def split: if_splits)
  then obtain v where v: "s5 = s4\<lparr>viewport := v\<rparr>"
    using calculateViewport_Inr by blast
  from run pts vis s5 obtain q where q: "calculateLayout env s5 d True = Inr q"
    by (auto simp add: drawLegendInternal_def Let_def getOrientation_def andThen_Inr s4_def
        sp_def split: if_splits)
  obtain s6 d2 l where q3: "q = (s6, d2, l)" by (cases q) auto
  with run pts vis s5 q have l: "l = l1" and s1: "s1 = updateLayout (s6\<lparr>data := Some d2\<rparr>)"
    by (auto simp add: drawLegendInternal_def Let_def getOrientation_def s4_def sp_def
        split: if_splits)
  from q q3 l have lay: "calculateLayout env s5 d True = Inr (s6, d2, l1)" by simp
  note frame = calculateLayout_frame [OF lay pts]
  define t4 where "t4 = s1\<lparr>parentViewport := vp, data := Some d, showPrimary := sp\<rparr>"
  have "orientation t4 = orientation s4" "data t4 = data s4"
    using frame by (simp_all add: t4_def s4_def s1 updateLayout_fields v)
  from calculateViewport_agree [OF s5 this] obtain vw where
    t5: "calculateViewport env t4 = Inr (t4\<lparr>viewport := (viewport s5)\<lparr>width := vw\<rparr>\<rparr>)"
    and vw: "isTopOrBottom (orientation s4) \<longrightarrow> vw = width (viewport s5)"
    by blast
  have horizontal: "isTopOrBottom (orientation s5) \<Longrightarrow> vw = width (viewport s5)"
    using vw by (simp add: v)
  note again = calculateLayout_again [OF lay pts horizontal,
      where b = "svgHeight s1" and c = "svgWidth s1"]
  have "t4\<lparr>viewport := (viewport s5)\<lparr>width := vw\<rparr>\<rparr>
          = s6\<lparr>viewport := (viewport s6)\<lparr>width := vw\<rparr>,
                svgHeight := svgHeight s1, svgWidth := svgWidth s1\<rparr>"
    using frame again
    by (intro SVGLegend.equality)
      (simp_all add: t4_def s1 updateLayout_def Let_def v s4_def)
  with t5 again have
    t5': "calculateViewport env t4
            = Inr (s6\<lparr>viewport := (viewport s6)\<lparr>width := vw\<rparr>,
                       svgHeight := svgHeight s1, svgWidth := svgWidth s1\<rparr>)"
    and t6: "calculateLayout env
               (s6\<lparr>viewport := (viewport s6)\<lparr>width := vw\<rparr>,
                   svgHeight := svgHeight s1, svgWidth := svgWidth s1\<rparr>) d True
             = Inr (s6\<lparr>svgHeight := svgHeight s1, svgWidth := svgWidth s1\<rparr>, d2, l1)"
    by simp_all
  have last: "updateLayout (s6\<lparr>svgHeight := svgHeight s1, svgWidth := svgWidth s1,
                               data := Some d2\<rparr>) = s1"
    by (simp add: s1 updateLayout_def Let_def)
  have "orientation s1 \<noteq> NonePosition"
    using frame vis by (simp add: s1 updateLayout_fields v s4_def)
  with pts t5' [unfolded t4_def sp_def] show ?thesis
    unfolding drawLegendInternal_def Let_def getOrientation_def
    by (cases "primaryType d = ''None''") (simp_all add: t6 last)
qed


text \<open>
  Claim C7. For fixed data and parent viewport, two successive \<^verbatim>\<open>drawLegend\<close> calls
  produce the same geometry: when a call returns, a second call with the same data and
  parent viewport, made on the legend as the first call leaves it, returns the same layout
  (number of items, title box, navigation arrows) and leaves the legend in the same state,
  the data points with their glyph and text positions included. This holds for every
  orientation, also for the left and right ones, where the first call stores
  \<^verbatim>\<open>lastCalculatedWidth\<close> and \<^verbatim>\<open>calculateViewport\<close> reads it in the second call.
\<close>

theorem drawLegend_repeatable:
  assumes "drawLegend env s d vp = Inr (s1, l1)"
  shows "drawLegend env s1 d vp = Inr (s1, l1)"
  using assms unfolding drawLegend_def by (rule drawLegendInternal_again)

theorem drawLegend_repeatable_witness:
  "\<exists>s1 l1. drawLegend fixedPitch (changeOrientation (Some Right) topLegend) measuredData
              \<lparr>height = 300, width = 400\<rparr> = Inr (s1, l1)
           \<and> lastCalculatedWidth (changeOrientation (Some Right) topLegend) = 0
           \<and> lastCalculatedWidth s1 = 95 \<and> orientation s1 = Right
           \<and> numberOfItems l1 = 2
           \<and> map_option title_text (layoutTitle l1) = Some ''Sales''
           \<and> drawLegend fixedPitch s1 measuredData \<lparr>height = 300, width = 400\<rparr>
               = Inr (s1, l1)"
proof -
  have "case drawLegend fixedPitch (changeOrientation (Some Right) topLegend) measuredData
               \<lparr>height = 300, width = 400\<rparr> of
          Inl e \<Rightarrow> False
        | Inr (s1, l1) \<Rightarrow>
            lastCalculatedWidth s1 = 95 \<and> orientation s1 = Right \<and> numberOfItems l1 = 2
            \<and> map_option title_text (layoutTitle l1) = Some ''Sales''"
    by (simp add: run_defs)
  then obtain s1 l1 where
    run: "drawLegend fixedPitch (changeOrientation (Some Right) topLegend) measuredData
            \<lparr>height = 300, width = 400\<rparr> = Inr (s1, l1)"
    and facts: "lastCalculatedWidth s1 = 95" "orientation s1 = Right" "numberOfItems l1 = 2"
      "map_option title_text (layoutTitle l1) = Some ''Sales''"
    by (auto split: sum.splits)
  have "lastCalculatedWidth (changeOrientation (Some Right) topLegend) = 0"
    by (simp add: changeOrientation_def topLegend_def)
  with run facts drawLegend_repeatable [OF run] show ?thesis by blast
qed

subsection \<open>The caller's data\<close>

lemma deref_Inr: "deref cells r = Inr x \<longleftrightarrow> r < length cells \<and> x = cells ! r"
  by (auto simp add: deref_def)

lemma derefAll_Inr:
  "derefAll cells rs = Inr xs \<longleftrightarrow> (\<forall>r\<in>set rs. r < length cells) \<and> xs = map ((!) cells) rs"
  by (induction rs arbitrary: xs) (auto simp add: andThen_Inr deref_Inr)

lemma derefAll_valid:
  "\<forall>r\<in>set rs. r < length cells \<Longrightarrow> derefAll cells rs = Inr (map ((!) cells) rs)"
  by (simp add: derefAll_Inr)

lemma inheritDataPoints_valid:
  assumes "\<forall>r\<in>set rs. r < length cells"
  shows "inheritDataPoints cells rs
           = Inr (cells @ map ((!) cells) rs, [length cells..<length cells + length rs])"
  using assms
proof (induction rs arbitrary: cells)
  case Nil
  show ?case by simp
next
  case (Cons r rs)
  let ?cells1 = "cells @ [cells ! r]"
  from Cons.prems have r: "r < length cells" and rs: "\<forall>x\<in>set rs. x < length cells"
    by simp_all
  from rs have valid: "\<forall>x\<in>set rs. x < length ?cells1" by auto
  from rs have same: "map ((!) ?cells1) rs = map ((!) cells) rs"
    by (intro map_cong) (simp_all add: nth_append)
  have upt: "[length cells..<length cells + length (r # rs)]
               = length cells # [length ?cells1..<length ?cells1 + length rs]"
    by (simp add: upt_conv_Cons del: upt_Suc)
  from r show ?case
    unfolding upt by (simp add: inherit_def deref_def Cons.IH [OF valid] same)
qed

lemma length_writeAll [simp]: "length (writeAll cells rs xs) = length cells"
  by (induction cells rs xs rule: writeAll.induct) simp_all

lemma writeAll_other: "i \<notin> set rs \<Longrightarrow> writeAll cells rs xs ! i = cells ! i"
  by (induction cells rs xs rule: writeAll.induct) simp_all

lemma writeAll_read:
  assumes "distinct rs" and "length xs = length rs" and "\<forall>r\<in>set rs. r < length cells"
  shows "map ((!) (writeAll cells rs xs)) rs = xs"
  using assms
proof (induction cells rs xs rule: writeAll.induct)
  case (1 cells r rs x xs)
  then show ?case by (simp add: writeAll_other)
qed simp_all

lemma writeAll_prefix:
  assumes "\<forall>r\<in>set rs. n \<le> r"
  shows "take n (writeAll cells rs xs) = take n cells"
  using assms by (induction cells rs xs rule: writeAll.induct) simp_all

lemma setTooltips_distinct:
  assumes "distinct rs" and "\<forall>r\<in>set rs. r < length cells"
  shows "setTooltips cells rs
           = Inr (writeAll cells rs
                    (map (\<lambda>r. (cells ! r)\<lparr>tooltip := Some (label (cells ! r))\<rparr>) rs))"
  using assms
proof (induction rs arbitrary: cells)
  case Nil
  show ?case by simp
next
  case (Cons r rs)
  let ?cells1 = "cells[r := (cells ! r)\<lparr>tooltip := Some (label (cells ! r))\<rparr>]"
  from Cons.prems have rs: "distinct rs" "\<forall>x\<in>set rs. x < length ?cells1"
    and r: "r \<notin> set rs" "r < length cells"
    by simp_all
  from r(1) have "?cells1 ! x = cells ! x" if "x \<in> set rs" for x
    using that by (cases "x = r") simp_all
  then have same:
    "map (\<lambda>x. (?cells1 ! x)\<lparr>tooltip := Some (label (?cells1 ! x))\<rparr>) rs
       = map (\<lambda>x. (cells ! x)\<lparr>tooltip := Some (label (cells ! x))\<rparr>) rs"
    by (intro map_cong) simp_all
  from r(2) show ?case
    by (simp add: deref_def Cons.IH [OF rs] same)
qed


lemma writeAll_append:
  assumes "length xs = length ys"
  shows "writeAll (cells @ ys) [length cells..<length cells + length ys] xs = cells @ xs"
proof (rule nth_equalityI)
  let ?rs = "[length cells..<length cells + length ys]"
  let ?w = "writeAll (cells @ ys) ?rs xs"
  show "length ?w = length (cells @ xs)" using assms by simp
  fix i
  assume "i < length ?w"
  then have i: "i < length cells + length ys" by simp
  show "?w ! i = (cells @ xs) ! i"
  proof (cases "i < length cells")
    case True
    then have "i \<notin> set ?rs" by simp
    then have "?w ! i = (cells @ ys) ! i" by (rule writeAll_other)
    with True show ?thesis by (simp add: nth_append)
  next
    case False
    define j where "j = i - length cells"
    from False i have j: "j < length ys" "i = length cells + j" by (simp_all add: j_def)
    have "map ((!) ?w) ?rs = xs"
      using assms by (intro writeAll_read) simp_all
    then have "map ((!) ?w) ?rs ! j = xs ! j" by simp
    with j show ?thesis by (simp add: nth_append)
  qed
qed

text \<open>The data that \<^verbatim>\<open>drawLegendInternal\<close> leaves in \<^verbatim>\<open>this.data\<close>.\<close>

lemma drawLegendInternal_data:
  assumes "drawLegendInternal env s d vp autoWidth = Inr (s', layout)"
  shows "\<exists>pts'. data s' = Some (d\<lparr>dataPoints := pts'\<rparr>)
              \<and> (pts' = [] \<or> length pts' = length (dataPoints d))"
proof (cases "dataPoints d = [] \<or> orientation s = NonePosition")
  case True
  from assms show ?thesis
    unfolding drawLegendInternal_hidden [OF True] by auto
next
  case False
  then have pts: "dataPoints d \<noteq> []" and vis: "orientation s \<noteq> NonePosition" by simp_all
  from assms pts vis obtain v s6 d2 where
    lay: "calculateLayout env
       (s\<lparr>parentViewport := vp, data := Some d, showPrimary := (primaryType d \<noteq> ''None''),
          viewport := v\<rparr>) d autoWidth = Inr (s6, d2, layout)"
    and s': "s' = updateLayout (s6\<lparr>data := Some d2\<rparr>)"
    by (rule drawLegendInternal_visible)
  from lay pts have "\<exists>pts'. d2 = d\<lparr>dataPoints := pts'\<rparr>"
    by (rule calculateLayout_Inr) blast
  moreover from calculateLayout_frame [OF lay pts]
  have "length (dataPoints d2) = length (dataPoints d)" by simp
  ultimately show ?thesis
    using s' by (auto simp add: updateLayout_fields)
qed


text \<open>
  \<^verbatim>\<open>drawLegend\<close> on the objects, for data that is in the store: it returns when
  \<^verbatim>\<open>drawLegend\<close> on the value of the data does, with the same legend and layout, and
  the store it leaves is the caller's store followed by the clones.
\<close>

lemma drawLegend_store_run:
  assumes read: "readData h r = Inr d"
  defines "n \<equiv> length (pointObjects h)"
  defines "k \<equiv> length (dataPoints d)"
  shows "drawLegend_store env s h r vp =
           andThen (drawLegend env s d vp) (\<lambda>(s', layout).
             Inr (s', layout,
                  \<lparr>dataObjects = dataObjects h
                     @ [(dataObjects h ! r)
                          \<lparr>objDataPoints :=
                             (if dataPoints (the (data s')) = [] then [] else [n..<n + k])\<rparr>],
                   pointObjects =
                     writeAll (pointObjects h @ dataPoints (setTooltipToLegendItems d))
                       [n..<n + k] (dataPoints (the (data s')))\<rparr>))"
proof -
  define obj where "obj = dataObjects h ! r"
  define refs where "refs = objDataPoints obj"
  define d0 where "d0 = setTooltipToLegendItems d"
  from read have r: "r < length (dataObjects h)"
    and valid: "\<forall>x\<in>set refs. x < n"
    and d: "d = \<lparr>title = objTitle obj, dataPoints = map ((!) (pointObjects h)) refs,
                 fontSize = objFontSize obj, primaryType = objPrimaryType obj\<rparr>"
    by (auto simp add: readData_def andThen_Inr deref_Inr derefAll_Inr obj_def refs_def n_def)
  from d have k: "k = length refs" by (simp add: k_def)
  let ?new = "[n..<n + k]"
  let ?obj1 = "obj\<lparr>objDataPoints := ?new\<rparr>"
  have clone: "inherit (dataObjects h) r = Inr (dataObjects h @ [obj], length (dataObjects h))"
    using r by (simp add: inherit_def deref_def obj_def)
  have clones: "inheritDataPoints (pointObjects h) refs
                  = Inr (pointObjects h @ dataPoints d, ?new)"
    using inheritDataPoints_valid [of refs "pointObjects h"] valid
    by (simp add: n_def k d)
  let ?h1 = "\<lparr>dataObjects = dataObjects h @ [?obj1],
              pointObjects = pointObjects h @ dataPoints d\<rparr>"
  have "setTooltips (pointObjects h @ dataPoints d) ?new
          = Inr (writeAll (pointObjects h @ dataPoints d) ?new
                   (map (\<lambda>x. ((pointObjects h @ dataPoints d) ! x)
                              \<lparr>tooltip := Some (label ((pointObjects h @ dataPoints d) ! x))\<rparr>)
                      ?new))"
    by (rule setTooltips_distinct) (simp_all add: n_def k_def)
  also have "map (\<lambda>x. ((pointObjects h @ dataPoints d) ! x)
                        \<lparr>tooltip := Some (label ((pointObjects h @ dataPoints d) ! x))\<rparr>) ?new
               = dataPoints d0"
    by (rule nth_equalityI)
      (simp_all add: d0_def setTooltipToLegendItems_def n_def k_def nth_append)
  also have "writeAll (pointObjects h @ dataPoints d) ?new (dataPoints d0)
               = pointObjects h @ dataPoints d0"
    unfolding n_def k_def
    by (rule writeAll_append) (simp add: d0_def setTooltipToLegendItems_def)
  finally have tips: "setTooltips (pointObjects h @ dataPoints d) ?new
                        = Inr (pointObjects h @ dataPoints d0)" .
  let ?h2 = "\<lparr>dataObjects = dataObjects h @ [?obj1],
              pointObjects = pointObjects h @ dataPoints d0\<rparr>"
  have tooltip: "setTooltipToLegendItems_store ?h1 (length (dataObjects h)) = Inr ?h2"
    by (simp add: setTooltipToLegendItems_store_def deref_def tips)
  have "map ((!) (pointObjects h @ dataPoints d0)) ?new = dataPoints d0"
    by (rule nth_equalityI)
      (simp_all add: d0_def setTooltipToLegendItems_def n_def k_def nth_append)
  then have read2: "readData ?h2 (length (dataObjects h)) = Inr d0"
    by (simp add: readData_def deref_def derefAll_Inr [THEN iffD2] n_def k_def
        d0_def setTooltipToLegendItems_def d)
  have pure: "drawLegend env s d vp = drawLegendInternal env s d0 vp True"
    by (simp add: drawLegend_def d0_def)
  have internal: "drawLegendInternal_store env s ?h2 (length (dataObjects h)) vp True =
           andThen (drawLegend env s d vp) (\<lambda>(s', layout).
             Inr (s', layout,
                  \<lparr>dataObjects = dataObjects h
                     @ [obj\<lparr>objDataPoints :=
                             (if dataPoints (the (data s')) = [] then [] else ?new)\<rparr>],
                   pointObjects =
                     writeAll (pointObjects h @ dataPoints d0) ?new
                       (dataPoints (the (data s')))\<rparr>))"
  proof (cases "drawLegendInternal env s d0 vp True")
    case (Inl e)
    then show ?thesis
      by (simp add: drawLegendInternal_store_def deref_def read2 pure)
  next
    case (Inr q)
    obtain s' layout where q: "q = (s', layout)" by (cases q) auto
    from drawLegendInternal_data [of env s d0 vp True s' layout] Inr q
    obtain pts' where "data s' = Some (d0\<lparr>dataPoints := pts'\<rparr>)"
      by auto
    with Inr q show ?thesis
      by (simp add: drawLegendInternal_store_def deref_def read2 pure)
  qed
  show ?thesis
    unfolding drawLegend_store_def clone
    using r by (simp add: deref_def obj_def [symmetric] refs_def [symmetric] clones tooltip
        internal d0_def [symmetric])
qed


lemmas store_defs =
  deref_def readData_def inherit_def setTooltipToLegendItems_store_def
  drawLegendInternal_store_def drawLegend_store_def plainStore_def

text \<open>
  \<^verbatim>\<open>drawLegendInternal\<close> writes to the objects it is given. A top legend of width 200 and
  three labels of 160 pixels: called on the object 0 itself, the method leaves the three
  data points of the caller with truncated labels.
\<close>

lemma drawLegendInternal_store_writes:
  "(case drawLegendInternal_store fixedPitch topLegend
           (plainStore [''abcdefghijklmnop'', ''bcdefghijklmnopq'', ''cdefghijklmnopqr'']) 0
           \<lparr>height = 50, width = 200\<rparr> True of
      Inl e \<Rightarrow> False
    | Inr (s', layout, h') \<Rightarrow>
        numberOfItems layout = 2
        \<and> map label (pointObjects h') = [''abc...'', ''bcd...'', ''cde...''])"
  by (simp add: run_defs store_defs)

text \<open>
  Claim C8. \<^verbatim>\<open>drawLegend\<close> never mutates the caller's \<^verbatim>\<open>LegendData\<close> or its data
  points. When the call returns, every object that was in the store before the call is as it
  was: the store of the caller is the initial part of the new store, and the caller's data
  object shows the same data, with the same label, measures, positions and tooltip of every
  data point. The call returns the legend and the layout of \<^verbatim>\<open>drawLegend\<close> on the value
  of the data; the data that the layout has written, truncated labels, positions and
  tooltips included, is in the clone, the first object behind the caller's, which
  \<^verbatim>\<open>this.data\<close> is afterwards.
\<close>

theorem drawLegend_store_frame:
  assumes "readData h r = Inr d"
    and "drawLegend_store env s h r vp = Inr (s', layout, h')"
  shows "take (length (dataObjects h)) (dataObjects h') = dataObjects h
       \<and> take (length (pointObjects h)) (pointObjects h') = pointObjects h
       \<and> readData h' r = Inr d
       \<and> drawLegend env s d vp = Inr (s', layout)
       \<and> (\<exists>d'. data s' = Some d' \<and> readData h' (length (dataObjects h)) = Inr d')"
proof -
  define n where "n = length (pointObjects h)"
  define k where "k = length (dataPoints d)"
  define obj where "obj = dataObjects h ! r"
  define d0 where "d0 = setTooltipToLegendItems d"
  let ?new = "[n..<n + k]"
  from assms(1) have r: "r < length (dataObjects h)"
    and valid: "\<forall>x\<in>set (objDataPoints obj). x < n"
    and d: "d = \<lparr>title = objTitle obj,
                 dataPoints = map ((!) (pointObjects h)) (objDataPoints obj),
                 fontSize = objFontSize obj, primaryType = objPrimaryType obj\<rparr>"
    by (auto simp add: readData_def andThen_Inr deref_Inr derefAll_Inr obj_def n_def)
  have k0: "length (dataPoints d0) = k"
    by (simp add: d0_def setTooltipToLegendItems_def k_def)
  from assms(2) have run: "drawLegend env s d vp = Inr (s', layout)"
    and h': "h' = \<lparr>dataObjects = dataObjects h
                     @ [obj\<lparr>objDataPoints :=
                             (if dataPoints (the (data s')) = [] then [] else ?new)\<rparr>],
                   pointObjects =
                     writeAll (pointObjects h @ dataPoints d0) ?new
                       (dataPoints (the (data s')))\<rparr>"
    unfolding drawLegend_store_run [OF assms(1)]
    by (auto simp add: andThen_Inr n_def k_def obj_def d0_def)
  from run have "drawLegendInternal env s d0 vp True = Inr (s', layout)"
    by (simp add: drawLegend_def d0_def)
  from drawLegendInternal_data [OF this] obtain pts' where
    d': "data s' = Some (d0\<lparr>dataPoints := pts'\<rparr>)"
    and pts': "pts' = [] \<or> length pts' = k"
    unfolding k0 by blast
  let ?w = "writeAll (pointObjects h @ dataPoints d0) ?new pts'"
  have prefix: "take n ?w = pointObjects h"
    by (simp add: writeAll_prefix n_def)
  then have old: "?w ! x = pointObjects h ! x" if "x < n" for x
    using that by (metis nth_take)
  have one: "take (length (dataObjects h)) (dataObjects h') = dataObjects h"
    by (simp add: h')
  have two: "take (length (pointObjects h)) (pointObjects h') = pointObjects h"
    using prefix by (simp add: h' d' n_def)
  have "map ((!) ?w) (objDataPoints obj) = map ((!) (pointObjects h)) (objDataPoints obj)"
    using valid by (intro map_cong refl old) simp
  moreover from valid have "\<forall>x\<in>set (objDataPoints obj). x < length ?w"
    by (auto simp add: n_def)
  ultimately have "derefAll ?w (objDataPoints obj)
                     = Inr (map ((!) (pointObjects h)) (objDataPoints obj))"
    by (simp add: derefAll_valid)
  with r have three: "readData h' r = Inr d"
    by (simp add: readData_def deref_def h' d' nth_append obj_def [symmetric] d)
  have "readData h' (length (dataObjects h)) = Inr (d0\<lparr>dataPoints := pts'\<rparr>)"
  proof (cases "pts' = []")
    case True
    then show ?thesis
      by (simp add: readData_def deref_def h' d' d0_def setTooltipToLegendItems_def d)
  next
    case False
    with pts' have len: "length pts' = k" by simp
    have "map ((!) ?w) ?new = pts'"
      by (rule writeAll_read) (simp_all add: len k0 n_def)
    moreover have "\<forall>x\<in>set ?new. x < length ?w"
      by (simp add: k0 n_def)
    ultimately have "derefAll ?w ?new = Inr pts'"
      by (simp add: derefAll_valid)
    with False show ?thesis
      by (simp add: readData_def deref_def h' d' d0_def setTooltipToLegendItems_def d)
  qed
  with one two three run d' show ?thesis by simp
qed

theorem drawLegend_store_frame_witness:
  "readData (plainStore [''abcdefghijklmnop'', ''bcdefghijklmnopq'', ''cdefghijklmnopqr'']) 0
     = Inr (plainData [''abcdefghijklmnop'', ''bcdefghijklmnopq'', ''cdefghijklmnopqr''])
   \<and> (\<exists>s' layout h' d'.
        drawLegend_store fixedPitch topLegend
          (plainStore [''abcdefghijklmnop'', ''bcdefghijklmnopq'', ''cdefghijklmnopqr'']) 0
          \<lparr>height = 50, width = 200\<rparr> = Inr (s', layout, h')
        \<and> numberOfItems layout = 2
        \<and> take 1 (dataObjects h')
            = dataObjects
                (plainStore [''abcdefghijklmnop'', ''bcdefghijklmnopq'', ''cdefghijklmnopqr''])
        \<and> take 3 (pointObjects h')
            = pointObjects
                (plainStore [''abcdefghijklmnop'', ''bcdefghijklmnopq'', ''cdefghijklmnopqr''])
        \<and> readData h' 0
            = Inr (plainData [''abcdefghijklmnop'', ''bcdefghijklmnopq'', ''cdefghijklmnopqr''])
        \<and> data s' = Some d' \<and> readData h' 1 = Inr d'
        \<and> map label (dataPoints d') = [''abc...'', ''bcd...'', ''cde...''])"
proof -
  let ?ls = "[''abcdefghijklmnop'', ''bcdefghijklmnopq'', ''cdefghijklmnopqr'']"
  have read: "readData (plainStore ?ls) 0 = Inr (plainData ?ls)"
    by (simp add: store_defs plainData_def)
  have "case drawLegend_store fixedPitch topLegend (plainStore ?ls) 0
               \<lparr>height = 50, width = 200\<rparr> of
          Inl e \<Rightarrow> False
        | Inr (s', layout, h') \<Rightarrow>
            numberOfItems layout = 2
            \<and> (case data s' of
                  None \<Rightarrow> False
                | Some d' \<Rightarrow> map label (dataPoints d') = [''abc...'', ''bcd...'', ''cde...''])"
    by (simp add: run_defs store_defs)
  then obtain s' layout h' d' where
    run: "drawLegend_store fixedPitch topLegend (plainStore ?ls) 0 \<lparr>height = 50, width = 200\<rparr>
            = Inr (s', layout, h')"
    and facts: "numberOfItems layout = 2" "data s' = Some d'"
      "map label (dataPoints d') = [''abc...'', ''bcd...'', ''cde...'']"
    by (auto split: sum.splits option.splits)
  have sizes: "length (dataObjects (plainStore ?ls)) = 1"
    "length (pointObjects (plainStore ?ls)) = 3"
    by (simp_all add: plainStore_def)
  from drawLegend_store_frame [OF read run] facts read run show ?thesis
    unfolding sizes by auto
qed

end
